(* ===== verification/Prelude.thy ===== *)
theory Prelude
  imports Main "HOL-Library.Word"
begin

text \<open>
  Shared ground of the development: the names of the machine integers, Rust's \<open>Result\<close> as a
  sum with the error on the left, the checked and saturating integer operations of the Rust
  standard library the sources call, decimal printing and string joining as \<open>format!\<close> does
  them, and the generic list lemmas the component theories rest on.  Facts that several
  components want as rewrite rules are put into the collections declared here.
\<close>

named_theorems rust_int \<open>meaning of the checked and saturating integer operations over nat, as rewrite rules\<close>
named_theorems conf_simps \<open>conformance of values, slots and stacks, as rewrite rules\<close>
named_theorems exec_simps \<open>unfolding of one virtual machine instruction\<close>
named_theorems absint_simps \<open>unfolding of one abstract interpretation step\<close>

type_synonym u8 = "8 word"
type_synonym u16 = "16 word"
type_synonym u32 = "32 word"
type_synonym i32 = "32 word"
type_synonym u64 = "64 word"
type_synonym bytes = "8 word list"

text \<open>\<open>Result<T, E>\<close>: \<open>Inl\<close> carries the error, \<open>Inr\<close> the value.\<close>

abbreviation Err :: "'e \<Rightarrow> 'e + 'a" where "Err \<equiv> Inl"
abbreviation Ok :: "'a \<Rightarrow> 'e + 'a" where "Ok \<equiv> Inr"

text \<open>The operator \<open>?\<close>: go on with the value, return the error.\<close>

definition and_then :: "('e + 'a) \<Rightarrow> ('a \<Rightarrow> 'e + 'b) \<Rightarrow> 'e + 'b" where
  "and_then r f = (case r of Inl e \<Rightarrow> Inl e | Inr x \<Rightarrow> f x)"

text \<open>\<open>Option::ok_or\<close>.\<close>

definition ok_or :: "'a option \<Rightarrow> 'e \<Rightarrow> 'e + 'a" where
  "ok_or x e = (case x of None \<Rightarrow> Inl e | Some v \<Rightarrow> Inr v)"

lemma and_then_simps [simp]:
  "and_then (Inl e) f = Inl e" "and_then (Inr x) f = f x"
  by (simp_all add: and_then_def)

lemma and_then_cong [fundef_cong]:
  "r = r' \<Longrightarrow> (\<And>x. r' = Inr x \<Longrightarrow> f x = g x) \<Longrightarrow> and_then r f = and_then r' g"
  by (auto simp: and_then_def split: sum.splits)

lemma and_then_Inr_iff: "and_then r f = Inr y \<longleftrightarrow> (\<exists>x. r = Inr x \<and> f x = Inr y)"
  by (auto simp: and_then_def split: sum.splits)

lemma and_then_Inl_iff:
  "and_then r f = Inl e \<longleftrightarrow> r = Inl e \<or> (\<exists>x. r = Inr x \<and> f x = Inl e)"
  by (auto simp: and_then_def split: sum.splits)

lemma ok_or_simps [simp]: "ok_or None e = Inl e" "ok_or (Some v) e = Inr v"
  by (simp_all add: ok_or_def)

lemma ok_or_Inr_iff: "ok_or x e = Inr v \<longleftrightarrow> x = Some v"
  by (cases x) auto

section \<open>Integer operations of the standard library\<close>

definition checked_add :: "'a::len word \<Rightarrow> 'a word \<Rightarrow> 'a word option" where
  "checked_add a b = (if unat a + unat b < 2 ^ LENGTH('a) then Some (a + b) else None)"

definition checked_sub :: "'a::len word \<Rightarrow> 'a word \<Rightarrow> 'a word option" where
  "checked_sub a b = (if b \<le> a then Some (a - b) else None)"

definition checked_mul :: "'a::len word \<Rightarrow> 'a word \<Rightarrow> 'a word option" where
  "checked_mul a b = (if unat a * unat b < 2 ^ LENGTH('a) then Some (a * b) else None)"

definition checked_div :: "'a::len word \<Rightarrow> 'a word \<Rightarrow> 'a word option" where
  "checked_div a b = (if b = 0 then None else Some (a div b))"

definition checked_rem :: "'a::len word \<Rightarrow> 'a word \<Rightarrow> 'a word option" where
  "checked_rem a b = (if b = 0 then None else Some (a mod b))"

definition saturating_add :: "'a::len word \<Rightarrow> 'a word \<Rightarrow> 'a word" where
  "saturating_add a b = (if unat a + unat b < 2 ^ LENGTH('a) then a + b else - 1)"

definition saturating_sub :: "'a::len word \<Rightarrow> 'a word \<Rightarrow> 'a word" where
  "saturating_sub a b = (if b \<le> a then a - b else 0)"

lemma unat_bound: "unat (a :: 'a::len word) < 2 ^ LENGTH('a)"
  by (rule unsigned_less)

lemma unat_minus_one_word: "unat (- 1 :: 'a::len word) = 2 ^ LENGTH('a) - 1"
  by (simp add: unsigned_minus_1_eq_mask mask_eq_exp_minus_1)

lemma unat_plus_one: "v \<noteq> - 1 \<Longrightarrow> unat (v + 1) = Suc (unat v)" for v :: "'a::len word"
  using unatSuc [of v] by (auto simp: add.commute add_eq_0_iff)

lemma unat_checked_add:
  "checked_add a b = Some c \<Longrightarrow> unat c = unat a + unat b"
  by (auto simp: checked_add_def unat_word_ariths split: if_splits)

lemma unat_checked_sub:
  "checked_sub a b = Some c \<Longrightarrow> unat b \<le> unat a \<and> unat c = unat a - unat b"
  by (auto simp: checked_sub_def unat_sub word_le_nat_alt split: if_splits)

lemma unat_checked_mul:
  "checked_mul a b = Some c \<Longrightarrow> unat c = unat a * unat b"
  by (auto simp: checked_mul_def unat_word_ariths split: if_splits)

lemma unat_checked_div:
  "checked_div a b = Some c \<Longrightarrow> unat b \<noteq> 0 \<and> unat c = unat a div unat b"
  by (auto simp: checked_div_def unat_div unat_eq_0 split: if_splits)

lemma unat_checked_rem:
  "checked_rem a b = Some c \<Longrightarrow> unat b \<noteq> 0 \<and> unat c = unat a mod unat b"
  by (auto simp: checked_rem_def unat_mod unat_eq_0 split: if_splits)

lemma unat_saturating_add [rust_int]:
  "unat (saturating_add a b) = min (unat a + unat b) (2 ^ LENGTH('a) - 1)"
  for a b :: "'a::len word"
  by (auto simp: saturating_add_def unat_word_ariths unat_minus_one_word min_def)

lemma unat_saturating_sub [rust_int]: "unat (saturating_sub a b) = unat a - unat b"
  by (auto simp: saturating_sub_def unat_sub word_le_nat_alt)

section \<open>Printing\<close>

text \<open>The \<open>Display\<close> of an unsigned integer: decimal digits.\<close>

fun show_nat :: "nat \<Rightarrow> string" where
  "show_nat n = (if n < 10 then [char_of (48 + n)]
                 else show_nat (n div 10) @ [char_of (48 + n mod 10)])"

declare show_nat.simps [simp del]

text \<open>\<open>[T]::join\<close> with a separator.\<close>

fun join_with :: "string \<Rightarrow> string list \<Rightarrow> string" where
  "join_with sep [] = []"
| "join_with sep [x] = x"
| "join_with sep (x # xs) = x @ sep @ join_with sep xs"

section \<open>Lists\<close>

lemma find_SomeD: "List.find P xs = Some x \<Longrightarrow> x \<in> set xs \<and> P x"
  by (auto simp: find_Some_iff)

lemma find_cong_None: "List.find P xs = None \<longleftrightarrow> (\<forall>x\<in>set xs. \<not> P x)"
  by (auto simp: find_None_iff)

lemma list_all2_nth_update:
  "list_all2 R xs ys \<Longrightarrow> R x y \<Longrightarrow> list_all2 R (xs[i := x]) (ys[i := y])"
  by (rule list_all2_update_cong)

lemma list_all2_rev_iff [simp]: "list_all2 R (rev xs) (rev ys) = list_all2 R xs ys"
  by (rule list_all2_rev)

lemma list_all2_take_drop:
  "list_all2 R xs ys \<Longrightarrow> list_all2 R (take n xs) (take n ys) \<and> list_all2 R (drop n xs) (drop n ys)"
  by (auto intro: list_all2_takeI list_all2_dropI)

lemma list_all2_same_map:
  "list_all2 R (map f xs) ys \<longleftrightarrow> list_all2 (\<lambda>x y. R (f x) y) xs ys"
  by (simp add: list_all2_map1)

end
