(* ===== verification/Module_Ref.thy ===== *)
theory Module_Ref
  imports Prelude
begin

text \<open>
  The 32-byte VM address (\<open>meow-vm-types/src/address/mod.rs\<close>) and the textual cross-module
  references \<open>@0xHEX::name\<close> that bytecode embeds
  (\<open>meow-vm-types/src/module_ref.rs\<close>).

  The hex codec is the third-party crate \<open>prefix_hex\<close>: it is a parameter of the model, a
  record of its two functions.  What the sources rely on is stated once, as the locale
  \<open>prefix_hex\<close>: decoding an encoding gives the bytes back, and an encoding contains no
  colon.  The last section gives a codec with the documented format that meets the contract.
\<close>

section \<open>Addresses\<close>

text \<open>\<open>struct Address([u8; 32])\<close>: the array length is part of the type.\<close>

typedef address = "{bs :: bytes. length bs = 32}"
  morphisms address_bytes Address_of_bytes
  by (rule exI [of _ "replicate 32 0"]) simp

setup_lifting type_definition_address

lemma length_address_bytes [simp]: "length (address_bytes a) = 32"
  using address_bytes [of a] by simp

text \<open>\<open>Address::new\<close>; its argument is an array of 32 bytes, so the other branch is never taken.\<close>

definition address_new :: "bytes \<Rightarrow> address" where
  "address_new bs = Address_of_bytes (if length bs = 32 then bs else replicate 32 0)"

definition address_zero :: address where
  "address_zero = address_new (replicate 32 0)"

definition address_fill :: "u8 \<Rightarrow> address" where
  "address_fill b = address_new (replicate 32 b)"

text \<open>The last two bytes hold the suffix, big-endian.\<close>

definition address_suffixed :: "u16 \<Rightarrow> address" where
  "address_suffixed s = address_new (replicate 30 0 @ [ucast (drop_bit 8 s), ucast s])"

lemma address_bytes_new [code abstract]:
  "address_bytes (address_new bs) = (if length bs = 32 then bs else replicate 32 0)"
  by (simp add: address_new_def Address_of_bytes_inverse)

instantiation address :: equal
begin
definition equal_address :: "address \<Rightarrow> address \<Rightarrow> bool" where
  "equal_address a b = (address_bytes a = address_bytes b)"
instance by standard (simp add: equal_address_def address_bytes_inject)
end

datatype address_error = PrefixHexError | InvalidLength nat nat

text \<open>\<open>TryFrom<&[u8]>\<close>.\<close>

definition address_try_from :: "bytes \<Rightarrow> address_error + address" where
  "address_try_from bs =
     (if length bs = 32 then Ok (address_new bs) else Err (InvalidLength (length bs) 32))"

lemma address_new_bytes [simp]: "address_new (address_bytes a) = a"
  by (simp add: address_bytes_inject [symmetric] address_bytes_new)

lemma address_try_from_bytes [simp]: "address_try_from (address_bytes a) = Ok a"
  by (simp add: address_try_from_def)

section \<open>The hex codec\<close>

record hex_codec =
  hex_encode :: "bytes \<Rightarrow> string"
  hex_decode :: "string \<Rightarrow> bytes option"

text \<open>The contract of \<open>prefix_hex\<close> the sources rely on.\<close>

definition prefix_hex_ok :: "hex_codec \<Rightarrow> bool" where
  "prefix_hex_ok hx \<longleftrightarrow>
     (\<forall>bs. hex_decode hx (hex_encode hx bs) = Some bs) \<and>
     (\<forall>bs. CHR '':'' \<notin> set (hex_encode hx bs))"

text \<open>\<open>Display for Address\<close>.\<close>

definition address_display :: "hex_codec \<Rightarrow> address \<Rightarrow> string" where
  "address_display hx a = hex_encode hx (address_bytes a)"

text \<open>\<open>FromStr for Address\<close>: short forms are left-padded with zeros.\<close>

definition address_from_str :: "hex_codec \<Rightarrow> string \<Rightarrow> address_error + address" where
  "address_from_str hx s =
     (case hex_decode hx s of
        None \<Rightarrow> Err PrefixHexError
      | Some bs \<Rightarrow>
          if length bs < 32 then address_try_from (replicate (32 - length bs) 0 @ bs)
          else address_try_from bs)"

section \<open>Module references\<close>

text \<open>\<open>str::split_once("::")\<close>.\<close>

fun split_once_colons :: "string \<Rightarrow> (string \<times> string) option" where
  "split_once_colons (c # d # cs) =
     (if c = CHR '':'' \<and> d = CHR '':'' then Some ([], cs)
      else map_option (\<lambda>(l, r). (c # l, r)) (split_once_colons (d # cs)))"
| "split_once_colons cs = None"

text \<open>\<open>str::strip_prefix('@')\<close>.\<close>

fun strip_at :: "string \<Rightarrow> string option" where
  "strip_at (c # cs) = (if c = CHR ''@'' then Some cs else None)"
| "strip_at [] = None"

definition parse_module_ref :: "hex_codec \<Rightarrow> string \<Rightarrow> (address \<times> string) option" where
  "parse_module_ref hx s =
     (case strip_at s of None \<Rightarrow> None
      | Some rest \<Rightarrow>
          (case split_once_colons rest of None \<Rightarrow> None
           | Some (hex_part, name) \<Rightarrow>
               (case address_from_str hx hex_part of
                  Inl _ \<Rightarrow> None
                | Inr address \<Rightarrow> Some (address, name))))"

definition qualify :: "hex_codec \<Rightarrow> address \<Rightarrow> string \<Rightarrow> string" where
  "qualify hx address name = ''@'' @ address_display hx address @ ''::'' @ name"

text \<open>\<open>str::contains("::")\<close>.\<close>

definition is_qualified :: "string \<Rightarrow> bool" where
  "is_qualified s = (split_once_colons s \<noteq> None)"

lemma split_once_colons_append:
  "CHR '':'' \<notin> set xs \<Longrightarrow> split_once_colons (xs @ ''::'' @ ys) = Some (xs, ys)"
proof (induction xs)
  case Nil
  then show ?case by simp
next
  case (Cons c xs)
  then show ?case by (cases xs) auto
qed

lemma split_once_colons_Cons_some:
  "split_once_colons cs = Some (l, r) \<Longrightarrow> split_once_colons (c # cs) \<noteq> None"
  by (cases cs) auto

lemma parse_module_ref_no_at:
  "s = [] \<or> hd s \<noteq> CHR ''@'' \<Longrightarrow> parse_module_ref hx s = None"
  by (cases s) (auto simp: parse_module_ref_def)

lemma parse_module_ref_is_qualified:
  assumes "parse_module_ref hx s = Some (a, n)"
  shows "is_qualified s"
proof -
  obtain rest h n' where "s = CHR ''@'' # rest" "split_once_colons rest = Some (h, n')"
    using assms
    by (cases s) (auto simp: parse_module_ref_def split: option.splits if_splits)
  then show ?thesis
    using split_once_colons_Cons_some by (simp add: is_qualified_def)
qed

text \<open>
  The interface to the codec: whatever meets the contract makes \<open>parse_module_ref\<close> a left
  inverse of \<open>qualify\<close> and address printing a round trip.
\<close>

locale prefix_hex =
  fixes hx :: hex_codec
  assumes codec: "prefix_hex_ok hx"
begin

lemma decode_encode: "hex_decode hx (hex_encode hx bs) = Some bs"
  using codec by (simp add: prefix_hex_ok_def)

lemma no_colon: "CHR '':'' \<notin> set (hex_encode hx bs)"
  using codec by (simp add: prefix_hex_ok_def)

lemma from_str_display: "address_from_str hx (address_display hx a) = Ok a"
  by (simp add: address_from_str_def address_display_def decode_encode)

lemma parse_of_qualified: "parse_module_ref hx (qualify hx a n) = Some (a, n)"
  using split_once_colons_append [OF no_colon, of "address_bytes a" n] from_str_display [of a]
  by (simp add: parse_module_ref_def qualify_def address_display_def)

lemma qualified_inj: "qualify hx a n = qualify hx b m \<longleftrightarrow> a = b \<and> n = m"
  using parse_of_qualified by (metis option.inject prod.inject)

end

section \<open>A codec with the documented format\<close>

text \<open>
  \<open>0x\<close> and two lower-case digits per byte; decoding accepts both cases and refuses an odd
  number of digits.  It serves to show that the contract can be met and to run the model on
  concrete modules.
\<close>

definition hex_digit :: "nat \<Rightarrow> char" where
  "hex_digit n = (if n < 10 then char_of (48 + n) else char_of (87 + n))"

definition hex_value :: "char \<Rightarrow> nat option" where
  "hex_value c =
     (let n = of_char c :: nat in
      if 48 \<le> n \<and> n < 58 then Some (n - 48)
      else if 97 \<le> n \<and> n < 103 then Some (n - 87)
      else if 65 \<le> n \<and> n < 71 then Some (n - 55)
      else None)"

fun hex_pairs :: "string \<Rightarrow> bytes option" where
  "hex_pairs [] = Some []"
| "hex_pairs [c] = None"
| "hex_pairs (c # d # cs) =
     (case (hex_value c, hex_value d, hex_pairs cs) of
        (Some h, Some l, Some bs) \<Rightarrow> Some (word_of_nat (16 * h + l) # bs)
      | _ \<Rightarrow> None)"

definition std_hex_codec :: hex_codec where
  "std_hex_codec =
     \<lparr>hex_encode = (\<lambda>bs. ''0x'' @
          concat (map (\<lambda>b. [hex_digit (unat b div 16), hex_digit (unat b mod 16)]) bs)),
      hex_decode = (\<lambda>s. if take 2 s = ''0x'' then hex_pairs (drop 2 s) else hex_pairs s)\<rparr>"

lemma hex_value_digit: "n < 16 \<Longrightarrow> hex_value (hex_digit n) = Some n"
  by (auto simp: hex_value_def hex_digit_def Let_def)

lemma hex_digit_no_colon: "n < 16 \<Longrightarrow> hex_digit n \<noteq> CHR '':''"
proof
  assume n: "n < 16" and "hex_digit n = CHR '':''"
  then have "(of_char (hex_digit n) :: nat) = of_char (CHR '':'')" by simp
  with n show False by (auto simp: hex_digit_def split: if_splits)
qed

lemma unat_byte_less: "unat (b :: 8 word) < 256"
  using unat_bound [of b] by simp

lemma hex_pairs_encode:
  "hex_pairs (concat (map (\<lambda>b. [hex_digit (unat b div 16), hex_digit (unat b mod 16)]) bs))
     = Some bs"
proof (induction bs)
  case Nil
  then show ?case by simp
next
  case (Cons b bs)
  have "unat b div 16 < 16" using unat_byte_less [of b] by (simp add: less_mult_imp_div_less)
  with Cons show ?case by (simp add: hex_value_digit)
qed

interpretation std_hex: prefix_hex std_hex_codec
proof
  have "CHR '':'' \<notin> set (hex_encode std_hex_codec bs)" for bs
  proof -
    have "hex_digit (unat b div 16) \<noteq> CHR '':''" "hex_digit (unat b mod 16) \<noteq> CHR '':''"
      for b :: "8 word"
      using unat_byte_less [of b] by (auto intro!: hex_digit_no_colon less_mult_imp_div_less)
    then show ?thesis by (fastforce simp: std_hex_codec_def dest: sym)
  qed
  then show "prefix_hex_ok std_hex_codec"
    by (simp add: prefix_hex_ok_def std_hex_codec_def hex_pairs_encode)
qed

end
