(* ===== verification/Vm_Types.thy ===== *)
theory Vm_Types
  imports Module_Ref
begin

text \<open>
  The types, values, instructions, modules, native signatures and limits shared by the
  compiler, the verifier and the virtual machine (crate \<open>meow-vm-types\<close>).  Rust strings are
  HOL strings, one character per UTF-8 byte; \<open>usize\<close> lengths and limits are natural numbers;
  \<open>u8\<close>, \<open>u64\<close> and \<open>i32\<close> operands keep their width.
\<close>

section \<open>Types\<close>

datatype vtype =
    TBool
  | TU64
  | TAddress
  | TStr
  | TStruct string
  | TTuple "vtype list"

definition type_from_name :: "string \<Rightarrow> vtype" where
  "type_from_name s =
     (if s = ''bool'' then TBool
      else if s = ''u64'' then TU64
      else if s = ''address'' then TAddress
      else if s = ''string'' then TStr
      else TStruct s)"

fun vtype_name :: "vtype \<Rightarrow> string" where
  "vtype_name TBool = ''bool''"
| "vtype_name TU64 = ''u64''"
| "vtype_name TAddress = ''address''"
| "vtype_name TStr = ''string''"
| "vtype_name (TStruct n) = n"
| "vtype_name (TTuple ts) = ''('' @ join_with '', '' (map vtype_name ts) @ '')''"

fun is_primitive :: "vtype \<Rightarrow> bool" where
  "is_primitive TBool = True"
| "is_primitive TU64 = True"
| "is_primitive TAddress = True"
| "is_primitive TStr = True"
| "is_primitive (TStruct _) = False"
| "is_primitive (TTuple _) = False"

definition is_struct_type :: "vtype \<Rightarrow> bool" where
  "is_struct_type t = (case t of TStruct _ \<Rightarrow> True | _ \<Rightarrow> False)"

definition is_valid_field_type :: "vtype \<Rightarrow> bool" where
  "is_valid_field_type t = (is_primitive t \<or> is_struct_type t)"

fun type_is_linear :: "vtype \<Rightarrow> bool" where
  "type_is_linear (TStruct _) = True"
| "type_is_linear (TTuple ts) = list_ex type_is_linear ts"
| "type_is_linear TBool = False"
| "type_is_linear TU64 = False"
| "type_is_linear TAddress = False"
| "type_is_linear TStr = False"

definition is_cross_module :: "vtype \<Rightarrow> bool" where
  "is_cross_module t = (case t of TStruct name \<Rightarrow> is_qualified name | _ \<Rightarrow> False)"

lemma type_from_name_name:
  "is_primitive t \<Longrightarrow> type_from_name (vtype_name t) = t"
  by (cases t) (simp_all add: type_from_name_def)

lemma primitive_not_linear: "is_primitive t \<Longrightarrow> \<not> type_is_linear t"
  by (cases t) simp_all

section \<open>Values\<close>

datatype val =
    VBool bool
  | VU64 u64
  | VAddress address
  | VStr string
  | VVoid
  | VStruct string "(string \<times> val) list"
  | VTuple "val list"

fun value_type_name :: "val \<Rightarrow> string" where
  "value_type_name (VBool _) = ''bool''"
| "value_type_name (VU64 _) = ''u64''"
| "value_type_name (VAddress _) = ''address''"
| "value_type_name (VStr _) = ''str''"
| "value_type_name VVoid = ''void''"
| "value_type_name (VStruct type_name _) = type_name"
| "value_type_name (VTuple _) = ''tuple''"

definition as_u64 :: "val \<Rightarrow> u64 option" where
  "as_u64 v = (case v of VU64 n \<Rightarrow> Some n | _ \<Rightarrow> None)"

definition as_bool :: "val \<Rightarrow> bool option" where
  "as_bool v = (case v of VBool b \<Rightarrow> Some b | _ \<Rightarrow> None)"

definition as_address :: "val \<Rightarrow> address option" where
  "as_address v = (case v of VAddress a \<Rightarrow> Some a | _ \<Rightarrow> None)"

text \<open>\<open>as_str\<close> and \<open>into_str\<close>.\<close>

definition as_str :: "val \<Rightarrow> string option" where
  "as_str v = (case v of VStr s \<Rightarrow> Some s | _ \<Rightarrow> None)"

definition as_tuple :: "val \<Rightarrow> val list option" where
  "as_tuple v = (case v of VTuple vs \<Rightarrow> Some vs | _ \<Rightarrow> None)"

definition is_void :: "val \<Rightarrow> bool" where
  "is_void v = (v = VVoid)"

text \<open>\<open>fields.iter().find(|(k, _)| k == name)\<close>: the first entry with the name.\<close>

definition value_field :: "string \<Rightarrow> val \<Rightarrow> val option" where
  "value_field name v = (case v of VStruct _ flds \<Rightarrow> map_of flds name | _ \<Rightarrow> None)"

definition field_u64 :: "string \<Rightarrow> val \<Rightarrow> u64 option" where
  "field_u64 name v = Option.bind (value_field name v) as_u64"

definition field_str :: "string \<Rightarrow> val \<Rightarrow> string option" where
  "field_str name v = Option.bind (value_field name v) as_str"

definition field_bool :: "string \<Rightarrow> val \<Rightarrow> bool option" where
  "field_bool name v = Option.bind (value_field name v) as_bool"

definition field_address :: "string \<Rightarrow> val \<Rightarrow> address option" where
  "field_address name v = Option.bind (value_field name v) as_address"

fun value_is_linear :: "val \<Rightarrow> bool" where
  "value_is_linear (VStruct _ _) = True"
| "value_is_linear (VTuple vs) = list_ex value_is_linear vs"
| "value_is_linear (VBool _) = False"
| "value_is_linear (VU64 _) = False"
| "value_is_linear (VAddress _) = False"
| "value_is_linear (VStr _) = False"
| "value_is_linear VVoid = False"

text \<open>\<open>Display for Value\<close>.\<close>

fun value_display :: "hex_codec \<Rightarrow> val \<Rightarrow> string" where
  "value_display hx (VBool b) = (if b then ''true'' else ''false'')"
| "value_display hx (VU64 n) = show_nat (unat n)"
| "value_display hx (VAddress a) = address_display hx a"
| "value_display hx (VStr s) = [CHR 0x22] @ s @ [CHR 0x22]"
| "value_display hx VVoid = ''void''"
| "value_display hx (VStruct type_name flds) =
     type_name @ '' { '' @
     join_with '', '' (map (\<lambda>(name, v). name @ '': '' @ value_display hx v) flds) @ '' }''"
| "value_display hx (VTuple vs) = ''('' @ join_with '', '' (map (value_display hx) vs) @ '')''"

section \<open>Struct definitions\<close>

record field_def =
  fd_name :: string
  fd_ty :: vtype

record struct_def =
  sd_name :: string
  sd_fields :: "field_def list"
  sd_is_public :: bool

definition field_index :: "struct_def \<Rightarrow> string \<Rightarrow> nat option" where
  "field_index sd field_name =
     map_option fst (find (\<lambda>(i, f). fd_name f = field_name) (enumerate 0 (sd_fields sd)))"

text \<open>\<open>fields.iter().find(|f| f.name == name)\<close>, the lookup the verifier makes.\<close>

definition find_field :: "string \<Rightarrow> field_def list \<Rightarrow> field_def option" where
  "find_field name fs = find (\<lambda>f. fd_name f = name) fs"

section \<open>Instructions\<close>

datatype (plugins only: code size) instruction =
    PushBool bool
  | PushU64 u64
  | PushAddress address
  | PushStr string
  | Load u8
  | Store u8
  | LoadField u8 "string list"
  | StoreField u8 "string list"
  | Add
  | Sub
  | Mul
  | Div
  | Mod
  | Eq
  | Ne
  | Lt
  | Le
  | Gt
  | Ge
  | NotB
  | And
  | Or
  | NewStruct string "string list"
  | GetField string
  | UnpackStruct string "string list"
  | Pop
  | Dup
  | Jump i32
  | JumpIf i32
  | JumpIfNot i32
  | Call string
  | Return
  | MakeTuple u8
  | UnpackTuple u8

section \<open>Functions and modules\<close>

record fn =
  fn_name :: string
  fn_is_public :: bool
  fn_params :: "(string \<times> vtype) list"
  fn_return_type :: "vtype option"
  fn_local_count :: u8
  fn_code :: "instruction list"

record module =
  md_name :: string
  md_imports :: "address list"
  md_structs :: "struct_def list"
  md_functions :: "fn list"

definition module_new :: "string \<Rightarrow> module" where
  "module_new name = \<lparr>md_name = name, md_imports = [], md_structs = [], md_functions = []\<rparr>"

definition get_struct :: "module \<Rightarrow> string \<Rightarrow> struct_def option" where
  "get_struct m name = find (\<lambda>s. sd_name s = name) (md_structs m)"

definition get_function :: "module \<Rightarrow> string \<Rightarrow> fn option" where
  "get_function m name = find (\<lambda>f. fn_name f = name) (md_functions m)"

text \<open>\<open>HashMap<Address, Module>\<close>: a map with at most one entry per key, kept as a list so that
  its size is computable.\<close>

type_synonym module_map = "(address \<times> module) list"

section \<open>Native functions\<close>

datatype native_param =
    Concrete vtype
  | AnyStruct
  | LocalStruct

text \<open>
  A native's closure captures shared state of its host; it is a function of the arguments and
  of that state, and returns the state it leaves.  \<open>NativePanic\<close> is a Rust panic in its body.
\<close>

datatype native_result =
    NativeReturn "val option"
  | NativeAbort u64 string
  | NativeErr string
  | NativePanic

record 's native_fn_entry =
  ne_name :: string
  ne_params :: "native_param list"
  ne_return_type :: "vtype option"
  ne_gas_cost :: u64
  ne_func :: "val list \<Rightarrow> 's \<Rightarrow> native_result \<times> 's"

record native_sig =
  ns_name :: string
  ns_params :: "native_param list"
  ns_return_type :: "vtype option"

definition meow_vm_abort :: string where
  "meow_vm_abort = ''meow_vm_abort''"

definition meow_vm_abort_sig :: native_sig where
  "meow_vm_abort_sig =
     \<lparr>ns_name = meow_vm_abort,
      ns_params = [Concrete TBool, Concrete TU64, Concrete TStr],
      ns_return_type = None\<rparr>"

definition builtin_natives :: "native_sig list" where
  "builtin_natives = [meow_vm_abort_sig]"

text \<open>The closure of \<open>meow_vm_abort_entry\<close>: \<open>args[0]\<close>, \<open>args[1]\<close> and \<open>args.remove(2)\<close> panic
  out of range.\<close>

definition meow_vm_abort_func :: "val list \<Rightarrow> native_result" where
  "meow_vm_abort_func args =
     (if args = [] then NativePanic
      else case args ! 0 of
        VBool condition \<Rightarrow>
          if condition then NativeReturn None
          else if length args < 3 then NativePanic
          else NativeAbort
                 (case as_u64 (args ! 1) of Some n \<Rightarrow> n | None \<Rightarrow> 0)
                 (case as_str (args ! 2) of Some s \<Rightarrow> s | None \<Rightarrow> ''aborted'')
      | _ \<Rightarrow> NativeErr ''meow_vm_abort: first argument must be bool'')"

definition meow_vm_abort_entry :: "'s native_fn_entry" where
  "meow_vm_abort_entry =
     \<lparr>ne_name = meow_vm_abort,
      ne_params = [Concrete TBool, Concrete TU64, Concrete TStr],
      ne_return_type = None,
      ne_gas_cost = 0,
      ne_func = (\<lambda>args s. (meow_vm_abort_func args, s))\<rparr>"

section \<open>Limits\<close>

record compiler_config =
  max_identifier_len :: nat
  max_structs :: nat
  max_functions :: nat
  max_fields :: nat
  max_params :: u8
  max_tuple_elements :: u8
  max_locals :: u8
  max_fun_code_size :: nat
  max_imports :: nat
  cc_max_dep_modules :: nat
  reserved_function_names :: "string list"

definition compiler_config_default :: compiler_config where
  "compiler_config_default =
     \<lparr>max_identifier_len = 128, max_structs = 128, max_functions = 256, max_fields = 32,
      max_params = 16, max_tuple_elements = 16, max_locals = 255, max_fun_code_size = 65536,
      max_imports = 64, cc_max_dep_modules = 64, reserved_function_names = []\<rparr>"

record vm_config =
  max_call_depth :: nat
  vc_max_dep_modules :: nat
  enable_call_private_functions :: bool

definition vm_config_default :: vm_config where
  "vm_config_default =
     \<lparr>max_call_depth = 256, vc_max_dep_modules = 64, enable_call_private_functions = False\<rparr>"

section \<open>Identifiers\<close>

definition RESERVED_FUNCTION_NAMES :: "string list" where
  "RESERVED_FUNCTION_NAMES = [''meow_vm_abort'']"

definition is_ascii_alphabetic :: "char \<Rightarrow> bool" where
  "is_ascii_alphabetic c =
     (let n = of_char c :: nat in 65 \<le> n \<and> n \<le> 90 \<or> 97 \<le> n \<and> n \<le> 122)"

definition is_ascii_alphanumeric :: "char \<Rightarrow> bool" where
  "is_ascii_alphanumeric c =
     (is_ascii_alphabetic c \<or> (let n = of_char c :: nat in 48 \<le> n \<and> n \<le> 57))"

definition is_valid_identifier :: "string \<Rightarrow> compiler_config \<Rightarrow> bool" where
  "is_valid_identifier name config =
     (if name = [] \<or> length name > max_identifier_len config then False
      else case name of
        [] \<Rightarrow> False
      | first # chars \<Rightarrow>
          if is_ascii_alphabetic first \<or> first = CHR ''_''
          then list_all (\<lambda>c. is_ascii_alphanumeric c \<or> c = CHR ''_'') chars
          else False)"

subsection \<open>Identifiers never look like module references\<close>

lemma alphanumeric_no_colon: "is_ascii_alphanumeric c \<or> c = CHR ''_'' \<Longrightarrow> c \<noteq> CHR '':''"
  by (auto simp: is_ascii_alphanumeric_def is_ascii_alphabetic_def Let_def)

lemma split_once_colons_None: "CHR '':'' \<notin> set s \<Longrightarrow> split_once_colons s = None"
  by (induction s rule: split_once_colons.induct) auto

lemma valid_identifier_Cons:
  "is_valid_identifier (c # cs) config \<Longrightarrow>
     (is_ascii_alphabetic c \<or> c = CHR ''_'') \<and>
     (\<forall>d \<in> set cs. is_ascii_alphanumeric d \<or> d = CHR ''_'')"
  unfolding is_valid_identifier_def list_all_iff by (simp split: if_splits)

lemma alphabetic_not_at: "is_ascii_alphabetic c \<or> c = CHR ''_'' \<Longrightarrow> c \<noteq> CHR ''@''"
  by (auto simp: is_ascii_alphabetic_def Let_def)

lemma valid_identifier_nonempty: "is_valid_identifier name config \<Longrightarrow> name \<noteq> []"
  by (auto simp: is_valid_identifier_def)

lemma valid_identifier_no_colon:
  "is_valid_identifier name config \<Longrightarrow> CHR '':'' \<notin> set name"
proof (cases name)
  case (Cons c cs)
  assume "is_valid_identifier name config"
  with Cons have "is_ascii_alphanumeric c \<or> c = CHR ''_''"
    "\<forall>d \<in> set cs. is_ascii_alphanumeric d \<or> d = CHR ''_''"
    using valid_identifier_Cons [of c cs config] by (auto simp: is_ascii_alphanumeric_def)
  with Cons show ?thesis by (metis alphanumeric_no_colon set_ConsD)
qed simp

lemma valid_identifier_no_at:
  "is_valid_identifier name config \<Longrightarrow> hd name \<noteq> CHR ''@''"
  using valid_identifier_Cons [of "hd name" "tl name" config] valid_identifier_nonempty
    alphabetic_not_at by (metis list.collapse)

lemma valid_identifier_not_qualified:
  "is_valid_identifier name config \<Longrightarrow> \<not> is_qualified name"
  by (simp add: is_qualified_def split_once_colons_None valid_identifier_no_colon)

lemma valid_identifier_not_module_ref:
  "is_valid_identifier name config \<Longrightarrow> parse_module_ref hx name = None"
  using parse_module_ref_is_qualified valid_identifier_not_qualified
  by (metis option.exhaust surj_pair)

lemma get_struct_SomeD: "get_struct m n = Some s \<Longrightarrow> s \<in> set (md_structs m) \<and> sd_name s = n"
  by (auto simp: get_struct_def dest: find_SomeD)

lemma get_function_SomeD:
  "get_function m n = Some f \<Longrightarrow> f \<in> set (md_functions m) \<and> fn_name f = n"
  by (auto simp: get_function_def dest: find_SomeD)

lemma find_field_SomeD: "find_field n fs = Some f \<Longrightarrow> f \<in> set fs \<and> fd_name f = n"
  by (auto simp: find_field_def dest: find_SomeD)

text \<open>C10. Names of structs and functions.  A qualified name parses back to the address and the name
  it was made from, also when the name contains colons, so different definitions have different
  qualified names; and a valid identifier is never read as a qualified name.\<close>

theorem qualified_names_roundtrip:
  assumes "prefix_hex_ok hx"
  shows "parse_module_ref hx (qualify hx a n) = Some (a, n) \<and>
    is_qualified (qualify hx a n) \<and>
    (qualify hx a n = qualify hx b k \<longleftrightarrow> a = b \<and> n = k) \<and>
    (is_valid_identifier n cfg \<longrightarrow> parse_module_ref hx n = None)"
proof -
  note hx = prefix_hex.intro [OF assms]
  show ?thesis
    using parse_module_ref_is_qualified [OF prefix_hex.parse_of_qualified [OF hx]]
      valid_identifier_not_module_ref [of n cfg hx]
    by (simp add: prefix_hex.parse_of_qualified [OF hx] prefix_hex.qualified_inj [OF hx])
qed

theorem qualified_names_roundtrip_witness:
  "parse_module_ref std_hex_codec (qualify std_hex_codec (address_suffixed 32) ''Balance'') =
     Some (address_suffixed 32, ''Balance'')"
  using qualified_names_roundtrip [OF std_hex.codec, of "address_suffixed 32" "''Balance''"] by (rule conjunct1)

end
