(* ===== verification/Gas.thy ===== *)
theory Gas
  imports Vm_Types
begin

text \<open>
  Errors of the virtual machine (\<open>meow-vm/src/error.rs\<close>) and gas: the meter
  (\<open>gas_meter.rs\<close>) and the cost schedule (\<open>gas_schedule.rs\<close>).
\<close>

section \<open>Errors\<close>

datatype (plugins only: code size) vm_error =
    Aborted u64 string
  | ArithmeticOverflow
  | ArityMismatch string nat nat
  | CallStackOverflow nat
  | DivisionByZero
  | EqOnLinearType string
  | InvalidJumpTarget nat i32
  | LinearFieldOverwrite string
  | NativeError string
  | NativeFunctionCallDirect string
  | OutOfGas u64 u64
  | PrivateFunction string
  | SlotOverwrite u8
  | StackUnderflow
  | TooManyDepModules nat
  | TypeError string
  | UndefinedField string string
  | UndefinedFunction string
  | UndefinedStruct string
  | UndefinedVariable u8
  | UseAfterMove string

section \<open>The gas meter\<close>

record gas_meter =
  gm_limit :: u64
  gm_spent :: u64

definition gas_meter_new :: "u64 \<Rightarrow> gas_meter" where
  "gas_meter_new limit = \<lparr>gm_limit = limit, gm_spent = 0\<rparr>"

definition gas_meter_unlimited :: gas_meter where
  "gas_meter_unlimited = gas_meter_new (- 1)"

text \<open>\<open>charge\<close> mutates the meter also when it fails, so it returns it in both cases.\<close>

definition charge :: "u64 \<Rightarrow> gas_meter \<Rightarrow> (vm_error + unit) \<times> gas_meter" where
  "charge cost gm =
     (let spent = saturating_add (gm_spent gm) cost in
      if spent > gm_limit gm
      then (Err (OutOfGas (gm_limit gm) (gm_limit gm)), gm\<lparr>gm_spent := gm_limit gm\<rparr>)
      else (Ok (), gm\<lparr>gm_spent := spent\<rparr>))"

definition remaining :: "gas_meter \<Rightarrow> u64" where
  "remaining gm = saturating_sub (gm_limit gm) (gm_spent gm)"

text \<open>The invariant of a meter: it never reports more than its limit.\<close>

definition gas_wf :: "gas_meter \<Rightarrow> bool" where
  "gas_wf gm = (gm_spent gm \<le> gm_limit gm)"

lemma gas_wf_new [simp, intro]: "gas_wf (gas_meter_new l)"
  by (simp add: gas_wf_def gas_meter_new_def)

lemma charge_limit [simp]: "gm_limit (snd (charge c gm)) = gm_limit gm"
  by (simp add: charge_def Let_def)

lemma charge_wf [intro]: "gas_wf (snd (charge c gm))"
  by (auto simp: charge_def gas_wf_def Let_def not_less)

lemma charge_OkD:
  assumes "charge c gm = (Inr u, gm')" and "gm_limit gm \<noteq> - 1"
  shows "unat (gm_spent gm') = unat (gm_spent gm) + unat c" and "gas_wf gm'"
    and "gm_limit gm' = gm_limit gm"
proof -
  have le: "saturating_add (gm_spent gm) c \<le> gm_limit gm"
    and gm': "gm' = gm\<lparr>gm_spent := saturating_add (gm_spent gm) c\<rparr>"
    using assms(1) by (auto simp: charge_def Let_def not_less split: if_splits)
  then have "saturating_add (gm_spent gm) c \<noteq> - 1"
    using assms(2) by (metis word_order.extremum_unique)
  then have "unat (saturating_add (gm_spent gm) c) \<noteq> unat (- 1 :: u64)"
    using word_unat_eq_iff by blast
  then have "unat (saturating_add (gm_spent gm) c) \<noteq> 2 ^ 64 - 1"
    unfolding unat_minus_one_word by simp
  then show "unat (gm_spent gm') = unat (gm_spent gm) + unat c"
    using gm' by (simp add: rust_int min_def split: if_splits)
  show "gas_wf gm'" "gm_limit gm' = gm_limit gm" using le gm' by (auto simp: gas_wf_def)
qed

lemma charge_unlimited:
  "gm_limit gm = - 1 \<Longrightarrow> fst (charge c gm) = Ok ()"
  by (auto simp: charge_def Let_def)

lemma charge_cases:
  obtains (ok) gm' where "charge c gm = (Inr (), gm')"
  | (out) "charge c gm = (Inl (OutOfGas (gm_limit gm) (gm_limit gm)), gm\<lparr>gm_spent := gm_limit gm\<rparr>)"
  by (cases "charge c gm") (auto simp: charge_def Let_def split: if_splits)

section \<open>The gas schedule\<close>

record gas_schedule =
  push_primitive :: u64
  push_str :: u64
  load_store :: u64
  load_field :: u64
  store_field :: u64
  add_sub_mul :: u64
  gs_div :: u64
  gs_mod :: u64
  compare :: u64
  logic :: u64
  new_struct_base :: u64
  new_struct_per_field :: u64
  get_field :: u64
  gs_stack :: u64
  gs_jump :: u64
  gs_call :: u64
  gs_return :: u64
  make_tuple_per_element :: u64
  unpack_tuple_per_element :: u64
  unpack_struct_per_field :: u64

definition gas_schedule_default :: gas_schedule where
  "gas_schedule_default =
     \<lparr>push_primitive = 1, push_str = 2, load_store = 1, load_field = 2, store_field = 5,
      add_sub_mul = 2, gs_div = 5, gs_mod = 5, compare = 2, logic = 1, new_struct_base = 10,
      new_struct_per_field = 2, get_field = 3, gs_stack = 1, gs_jump = 2, gs_call = 20,
      gs_return = 2, make_tuple_per_element = 1, unpack_tuple_per_element = 1,
      unpack_struct_per_field = 1\<rparr>"

text \<open>\<open>len() as u64\<close> and the \<open>u64\<close> products wrap, as in a release build.\<close>

fun cost_of :: "gas_schedule \<Rightarrow> instruction \<Rightarrow> u64" where
  "cost_of gs (PushBool _) = push_primitive gs"
| "cost_of gs (PushU64 _) = push_primitive gs"
| "cost_of gs (PushAddress _) = push_primitive gs"
| "cost_of gs (PushStr _) = push_str gs"
| "cost_of gs (Load _) = load_store gs"
| "cost_of gs (Store _) = load_store gs"
| "cost_of gs (LoadField _ _) = load_field gs"
| "cost_of gs (StoreField _ _) = store_field gs"
| "cost_of gs Add = add_sub_mul gs"
| "cost_of gs Sub = add_sub_mul gs"
| "cost_of gs Mul = add_sub_mul gs"
| "cost_of gs Div = gs_div gs"
| "cost_of gs Mod = gs_mod gs"
| "cost_of gs Eq = compare gs"
| "cost_of gs Ne = compare gs"
| "cost_of gs Lt = compare gs"
| "cost_of gs Le = compare gs"
| "cost_of gs Gt = compare gs"
| "cost_of gs Ge = compare gs"
| "cost_of gs NotB = logic gs"
| "cost_of gs And = logic gs"
| "cost_of gs Or = logic gs"
| "cost_of gs (NewStruct _ field_names) =
     new_struct_base gs + word_of_nat (length field_names) * new_struct_per_field gs"
| "cost_of gs (GetField _) = get_field gs"
| "cost_of gs Pop = gs_stack gs"
| "cost_of gs Dup = gs_stack gs"
| "cost_of gs (Jump _) = gs_jump gs"
| "cost_of gs (JumpIf _) = gs_jump gs"
| "cost_of gs (JumpIfNot _) = gs_jump gs"
| "cost_of gs (Call _) = gs_call gs"
| "cost_of gs Return = gs_return gs"
| "cost_of gs (MakeTuple n) = ucast n * make_tuple_per_element gs"
| "cost_of gs (UnpackTuple n) = ucast n * unpack_tuple_per_element gs"
| "cost_of gs (UnpackStruct _ field_names) =
     word_of_nat (length field_names) * unpack_struct_per_field gs"

text \<open>Under the default schedule a jump and a call are never free.\<close>

fun is_jump :: "instruction \<Rightarrow> bool" where
  "is_jump (Jump _) = True"
| "is_jump (JumpIf _) = True"
| "is_jump (JumpIfNot _) = True"
| "is_jump _ = False"

lemma cost_of_jump_pos: "is_jump i \<Longrightarrow> 0 < unat (cost_of gas_schedule_default i)"
  by (cases i) (simp_all add: gas_schedule_default_def)

lemma cost_of_call_pos: "0 < unat (cost_of gas_schedule_default (Call n))"
  by (simp add: gas_schedule_default_def)

end
