(* ===== verification/Vm.thy ===== *)
theory Vm
  imports Gas
begin

text \<open>
  The virtual machine (\<open>meow-vm/src/lib.rs\<close>).  A frame's operand stack is a list whose head is
  the top of the \<open>Vec\<close>; a panic (failed assertion, index out of range) is a stop of its own,
  distinct from every \<open>VmError\<close>.

  \<open>exec_instr\<close> is the body of the interpreter loop for every instruction but \<open>Call\<close> and
  \<open>Return\<close>; \<open>frame_step\<close> is one whole iteration; \<open>call_inner\<close> and \<open>run_frame\<close> are the recursive
  call and the loop, with a fuel that counts iterations and calls along one path: \<open>None\<close> is
  "not finished within the fuel".
\<close>

section \<open>Frames\<close>

datatype vm_stop = VmErr vm_error | Panic string

record frame =
  fr_locals :: "val option list"
  fr_stack :: "val list"
  fr_pc :: nat
  fr_code :: "instruction list"

text \<open>\<open>Frame::new\<close>: \<open>locals[i] = Some(v)\<close> panics when there are more arguments than slots.\<close>

definition frame_new :: "instruction list \<Rightarrow> val list \<Rightarrow> u8 \<Rightarrow> vm_stop + frame" where
  "frame_new code args local_count =
     (if length args > unat local_count then Err (Panic ''index out of bounds'')
      else Ok \<lparr>fr_locals = map Some args @ replicate (unat local_count - length args) None,
               fr_stack = [], fr_pc = 0, fr_code = code\<rparr>)"

definition frame_push :: "val \<Rightarrow> frame \<Rightarrow> frame" where
  "frame_push v fr = fr\<lparr>fr_stack := v # fr_stack fr\<rparr>"

definition frame_pop :: "frame \<Rightarrow> vm_stop + val \<times> frame" where
  "frame_pop fr =
     (case fr_stack fr of
        [] \<Rightarrow> Err (VmErr StackUnderflow)
      | v # st \<Rightarrow> Ok (v, fr\<lparr>fr_stack := st\<rparr>))"

definition frame_peek :: "frame \<Rightarrow> vm_stop + val" where
  "frame_peek fr =
     (case fr_stack fr of [] \<Rightarrow> Err (VmErr StackUnderflow) | v # _ \<Rightarrow> Ok v)"

text \<open>\<open>(0..n).map(|_| frame.pop()).collect()\<close>: the values in the order they are popped.\<close>

fun pop_n :: "nat \<Rightarrow> frame \<Rightarrow> vm_stop + val list \<times> frame" where
  "pop_n 0 fr = Ok ([], fr)"
| "pop_n (Suc n) fr =
     and_then (frame_pop fr) (\<lambda>(v, fr).
     and_then (pop_n n fr) (\<lambda>(vs, fr). Ok (v # vs, fr)))"

section \<open>Helpers\<close>

definition jump_target :: "nat \<Rightarrow> i32 \<Rightarrow> vm_stop + nat" where
  "jump_target pc offset =
     (let target = int pc - 1 + sint offset in
      if target < 0 then Err (VmErr (InvalidJumpTarget pc offset)) else Ok (nat target))"

definition expect_u64 :: "val \<Rightarrow> vm_stop + u64" where
  "expect_u64 v = ok_or (as_u64 v) (VmErr (TypeError (''expected integer, got '' @ value_type_name v)))"

definition expect_bool :: "val \<Rightarrow> vm_stop + bool" where
  "expect_bool v = ok_or (as_bool v) (VmErr (TypeError (''expected bool, got '' @ value_type_name v)))"

definition arith_op :: "val \<Rightarrow> val \<Rightarrow> (u64 \<Rightarrow> u64 \<Rightarrow> u64 option) \<Rightarrow> vm_stop + val" where
  "arith_op l r f =
     and_then (expect_u64 l) (\<lambda>a.
     and_then (expect_u64 r) (\<lambda>b.
       ok_or (map_option VU64 (f a b)) (VmErr ArithmeticOverflow)))"

text \<open>The loop of \<open>read_field_path\<close> from path step \<open>i\<close>.\<close>

fun read_field_path :: "nat \<Rightarrow> val \<Rightarrow> string list \<Rightarrow> vm_stop + val" where
  "read_field_path i current [] = Ok current"
| "read_field_path i current (field # path) =
     (case current of
        VStruct type_name flds \<Rightarrow>
          and_then (ok_or (map_of flds field) (VmErr (UndefinedField type_name field)))
            (\<lambda>v. read_field_path (Suc i) v path)
      | other \<Rightarrow> Err (VmErr (TypeError (''LoadField: expected struct at path step '' @ show_nat i
                     @ '', got '' @ value_type_name other))))"

text \<open>\<open>iter_mut().find(|(n, _)| n == field)\<close> followed by an assignment.\<close>

fun set_field :: "string \<Rightarrow> val \<Rightarrow> (string \<times> val) list \<Rightarrow> (string \<times> val) list" where
  "set_field n v [] = []"
| "set_field n v ((k, w) # kvs) = (if k = n then (k, v) # kvs else (k, w) # set_field n v kvs)"

text \<open>The loop of \<open>write_field_path\<close> from path step \<open>i\<close>; it returns the root it leaves.\<close>

fun write_field_path :: "nat \<Rightarrow> val \<Rightarrow> string list \<Rightarrow> val \<Rightarrow> vm_stop + val" where
  "write_field_path i current [] v =
     Err (VmErr (TypeError ''StoreField: path must not be empty''))"
| "write_field_path i current [field] v =
     (case current of
        VStruct type_name flds \<Rightarrow>
          (case map_of flds field of
             None \<Rightarrow> Err (VmErr (UndefinedField type_name field))
           | Some old \<Rightarrow>
               if value_is_linear old then Err (VmErr (LinearFieldOverwrite field))
               else Ok (VStruct type_name (set_field field v flds)))
      | other \<Rightarrow> Err (VmErr (TypeError
                    (''StoreField: expected struct for terminal write, got '' @ value_type_name other))))"
| "write_field_path i current (field # f # path) v =
     (case current of
        VStruct type_name flds \<Rightarrow>
          (case map_of flds field of
             None \<Rightarrow> Err (VmErr (UndefinedField type_name field))
           | Some sub \<Rightarrow>
               and_then (write_field_path (Suc i) sub (f # path) v)
                 (\<lambda>sub'. Ok (VStruct type_name (set_field field sub' flds))))
      | other \<Rightarrow> Err (VmErr (TypeError (''StoreField: expected struct at path step '' @ show_nat i
                     @ '', got '' @ value_type_name other))))"

definition linear_type_name :: "val \<Rightarrow> val \<Rightarrow> vm_stop + string" where
  "linear_type_name l r =
     (case (if value_is_linear l then l else r) of
        VStruct type_name _ \<Rightarrow> Ok type_name
      | VTuple _ \<Rightarrow> Ok ''tuple''
      | _ \<Rightarrow> Err (Panic ''unreachable''))"

definition cmp_values :: "val \<Rightarrow> val \<Rightarrow> vm_stop + bool" where
  "cmp_values l r =
     and_then (expect_u64 l) (\<lambda>a. and_then (expect_u64 r) (\<lambda>b. Ok (a < b)))"

fun check_struct_qualified :: "hex_codec \<Rightarrow> val \<Rightarrow> bool" where
  "check_struct_qualified hx (VStruct type_name flds) =
     (if parse_module_ref hx type_name = None then False
      else list_all (\<lambda>(_, v). check_struct_qualified hx v) flds)"
| "check_struct_qualified hx (VBool _) = True"
| "check_struct_qualified hx (VU64 _) = True"
| "check_struct_qualified hx (VAddress _) = True"
| "check_struct_qualified hx (VStr _) = True"
| "check_struct_qualified hx VVoid = True"
| "check_struct_qualified hx (VTuple _) = True"

text \<open>The field loop of \<open>UnpackStruct\<close>: \<open>fm\<close> is the \<open>HashMap\<close> built from the fields.\<close>

fun unpack_fields ::
    "string \<Rightarrow> string list \<Rightarrow> (string \<times> val) list \<Rightarrow> frame \<Rightarrow> vm_stop + frame" where
  "unpack_fields type_name [] fm fr = Ok fr"
| "unpack_fields type_name (name # names) fm fr =
     (case map_of fm name of
        None \<Rightarrow> Err (VmErr (UndefinedField type_name name))
      | Some v \<Rightarrow>
          unpack_fields type_name names (filter (\<lambda>(k, _). k \<noteq> name) fm) (frame_push v fr))"

section \<open>Instructions\<close>

record 's vm =
  vm_module :: module
  vm_module_addr :: address
  vm_deps :: module_map
  vm_natives :: "(string \<times> 's native_fn_entry) list"
  vm_gas_schedule :: gas_schedule
  vm_cfg :: vm_config

text \<open>The message of a moved-out slot.\<close>

definition moved_msg :: "u8 \<Rightarrow> string" where
  "moved_msg slot = ''local slot '' @ show_nat (unat slot) @ '' has already been moved''"

definition exec_load :: "u8 \<Rightarrow> frame \<Rightarrow> vm_stop + frame" where
  "exec_load slot fr =
     (let idx = unat slot in
      if idx \<ge> length (fr_locals fr) then Err (VmErr (UndefinedVariable slot))
      else case fr_locals fr ! idx of
        Some v \<Rightarrow>
          if value_is_linear v
          then Ok (frame_push v (fr\<lparr>fr_locals := (fr_locals fr)[idx := None]\<rparr>))
          else Ok (frame_push v fr)
      | None \<Rightarrow> Err (VmErr (UseAfterMove (moved_msg slot))))"

text \<open>\<open>resize(idx + 1, None)\<close> when the slot is beyond the frame.\<close>

definition resize_locals :: "nat \<Rightarrow> val option list \<Rightarrow> val option list" where
  "resize_locals n xs = (if n \<le> length xs then xs else xs @ replicate (n - length xs) None)"

definition exec_store :: "u8 \<Rightarrow> frame \<Rightarrow> vm_stop + frame" where
  "exec_store slot fr =
     and_then (frame_pop fr) (\<lambda>(v, fr).
       let idx = unat slot;
           locals = resize_locals (idx + 1) (fr_locals fr)
       in (case locals ! idx of
             Some existing \<Rightarrow>
               if value_is_linear existing then Err (VmErr (SlotOverwrite slot))
               else Ok (fr\<lparr>fr_locals := locals[idx := Some v]\<rparr>)
           | None \<Rightarrow> Ok (fr\<lparr>fr_locals := locals[idx := Some v]\<rparr>)))"

text \<open>\<open>locals.get(idx).and_then(|o| o.as_ref())\<close>.\<close>

definition local_value :: "u8 \<Rightarrow> frame \<Rightarrow> vm_stop + val" where
  "local_value slot fr =
     (let idx = unat slot in
      ok_or (if idx < length (fr_locals fr) then fr_locals fr ! idx else None)
        (VmErr (UseAfterMove (moved_msg slot))))"

definition exec_load_field :: "u8 \<Rightarrow> string list \<Rightarrow> frame \<Rightarrow> vm_stop + frame" where
  "exec_load_field slot path fr =
     and_then (local_value slot fr) (\<lambda>root.
     and_then (read_field_path 0 root path) (\<lambda>field_val.
       Ok (frame_push field_val fr)))"

definition exec_store_field :: "u8 \<Rightarrow> string list \<Rightarrow> frame \<Rightarrow> vm_stop + frame" where
  "exec_store_field slot path fr =
     and_then (frame_pop fr) (\<lambda>(new_val, fr).
     and_then (local_value slot fr) (\<lambda>root.
     and_then (write_field_path 0 root path new_val) (\<lambda>root'.
       Ok (fr\<lparr>fr_locals := (fr_locals fr)[unat slot := Some root']\<rparr>))))"

text \<open>\<open>let r = frame.pop()?; let l = frame.pop()?;\<close> and a push of the result.\<close>

definition exec_binop :: "(val \<Rightarrow> val \<Rightarrow> vm_stop + val) \<Rightarrow> frame \<Rightarrow> vm_stop + frame" where
  "exec_binop f fr =
     and_then (frame_pop fr) (\<lambda>(r, fr).
     and_then (frame_pop fr) (\<lambda>(l, fr).
     and_then (f l r) (\<lambda>v. Ok (frame_push v fr))))"

definition div_op :: "(u64 \<Rightarrow> u64 \<Rightarrow> u64 option) \<Rightarrow> val \<Rightarrow> val \<Rightarrow> vm_stop + val" where
  "div_op f l r =
     (if as_u64 r = Some 0 then Err (VmErr DivisionByZero) else arith_op l r f)"

definition eq_op :: "(val \<Rightarrow> val \<Rightarrow> bool) \<Rightarrow> val \<Rightarrow> val \<Rightarrow> vm_stop + val" where
  "eq_op f l r =
     (if value_is_linear l \<or> value_is_linear r
      then and_then (linear_type_name l r) (\<lambda>n. Err (VmErr (EqOnLinearType n)))
      else Ok (VBool (f l r)))"

definition bool_op :: "(bool \<Rightarrow> bool \<Rightarrow> bool) \<Rightarrow> val \<Rightarrow> val \<Rightarrow> vm_stop + val" where
  "bool_op f l r =
     and_then (expect_bool l) (\<lambda>a. and_then (expect_bool r) (\<lambda>b. Ok (VBool (f a b))))"

definition exec_new_struct ::
    "hex_codec \<Rightarrow> 's vm \<Rightarrow> module \<Rightarrow> address \<Rightarrow> string \<Rightarrow> string list \<Rightarrow> frame \<Rightarrow> vm_stop + frame" where
  "exec_new_struct hx vm context_module context_module_addr type_name field_names fr =
     and_then
       (case parse_module_ref hx type_name of
          Some (dep_addr, struct_name) \<Rightarrow>
            and_then (ok_or (Option.bind (map_of (vm_deps vm) dep_addr) (\<lambda>m. get_struct m struct_name))
                        (VmErr (UndefinedStruct type_name)))
              (\<lambda>_. Ok type_name)
        | None \<Rightarrow>
            and_then (ok_or (get_struct context_module type_name) (VmErr (UndefinedStruct type_name)))
              (\<lambda>_. Ok (qualify hx context_module_addr type_name)))
       (\<lambda>qualified_type_name.
     and_then (pop_n (length field_names) fr) (\<lambda>(vs, fr).
       Ok (frame_push (VStruct qualified_type_name (rev (zip (rev field_names) vs))) fr)))"

definition exec_get_field :: "string \<Rightarrow> frame \<Rightarrow> vm_stop + frame" where
  "exec_get_field field fr =
     and_then (frame_pop fr) (\<lambda>(v, fr).
       case v of
         VStruct type_name flds \<Rightarrow>
           and_then (ok_or (map_of flds field) (VmErr (UndefinedField type_name field)))
             (\<lambda>fv. Ok (frame_push fv fr))
       | other \<Rightarrow> Err (VmErr (TypeError (''expected struct, got '' @ value_type_name other))))"

definition exec_unpack_struct :: "string list \<Rightarrow> frame \<Rightarrow> vm_stop + frame" where
  "exec_unpack_struct field_names fr =
     and_then (frame_pop fr) (\<lambda>(v, fr).
       case v of
         VStruct type_name flds \<Rightarrow> unpack_fields type_name (rev field_names) (rev flds) fr
       | other \<Rightarrow> Err (VmErr (TypeError
                    (''UnpackStruct: expected struct, got '' @ value_type_name other))))"

definition exec_jump :: "i32 \<Rightarrow> frame \<Rightarrow> vm_stop + frame" where
  "exec_jump offset fr =
     and_then (jump_target (fr_pc fr) offset) (\<lambda>target. Ok (fr\<lparr>fr_pc := target\<rparr>))"

definition exec_jump_cond :: "bool \<Rightarrow> i32 \<Rightarrow> frame \<Rightarrow> vm_stop + frame" where
  "exec_jump_cond expected offset fr =
     and_then (frame_pop fr) (\<lambda>(v, fr).
     and_then (expect_bool v) (\<lambda>cond.
       if cond = expected then exec_jump offset fr else Ok fr))"

definition exec_make_tuple :: "u8 \<Rightarrow> frame \<Rightarrow> vm_stop + frame" where
  "exec_make_tuple n fr =
     and_then (pop_n (unat n) fr) (\<lambda>(vs, fr). Ok (frame_push (VTuple (rev vs)) fr))"

definition exec_unpack_tuple :: "u8 \<Rightarrow> frame \<Rightarrow> vm_stop + frame" where
  "exec_unpack_tuple n fr =
     and_then (frame_pop fr) (\<lambda>(v, fr).
       case v of
         VTuple vs \<Rightarrow>
           if length vs \<noteq> unat n
           then Err (VmErr (TypeError (''UnpackTuple: expected tuple of size '' @ show_nat (unat n)
                       @ '', got size '' @ show_nat (length vs))))
           else Ok (foldl (\<lambda>fr v. frame_push v fr) fr (rev vs))
       | other \<Rightarrow> Err (VmErr (TypeError
                    (''UnpackTuple: expected tuple, got '' @ value_type_name other))))"

text \<open>One iteration of the loop for an instruction that neither calls nor returns; the program
  counter has been advanced past it.\<close>

fun exec_instr ::
    "hex_codec \<Rightarrow> 's vm \<Rightarrow> module \<Rightarrow> address \<Rightarrow> instruction \<Rightarrow> frame \<Rightarrow> vm_stop + frame" where
  "exec_instr hx vm m a (PushBool v) fr = Ok (frame_push (VBool v) fr)"
| "exec_instr hx vm m a (PushU64 v) fr = Ok (frame_push (VU64 v) fr)"
| "exec_instr hx vm m a (PushAddress v) fr = Ok (frame_push (VAddress v) fr)"
| "exec_instr hx vm m a (PushStr s) fr = Ok (frame_push (VStr s) fr)"
| "exec_instr hx vm m a (Load slot) fr = exec_load slot fr"
| "exec_instr hx vm m a (Store slot) fr = exec_store slot fr"
| "exec_instr hx vm m a (LoadField slot path) fr = exec_load_field slot path fr"
| "exec_instr hx vm m a (StoreField slot path) fr = exec_store_field slot path fr"
| "exec_instr hx vm m a Add fr = exec_binop (\<lambda>l r. arith_op l r checked_add) fr"
| "exec_instr hx vm m a Sub fr = exec_binop (\<lambda>l r. arith_op l r checked_sub) fr"
| "exec_instr hx vm m a Mul fr = exec_binop (\<lambda>l r. arith_op l r checked_mul) fr"
| "exec_instr hx vm m a Div fr = exec_binop (div_op checked_div) fr"
| "exec_instr hx vm m a Mod fr = exec_binop (div_op checked_rem) fr"
| "exec_instr hx vm m a Eq fr = exec_binop (eq_op (\<lambda>l r. l = r)) fr"
| "exec_instr hx vm m a Ne fr = exec_binop (eq_op (\<lambda>l r. l \<noteq> r)) fr"
| "exec_instr hx vm m a Lt fr =
     exec_binop (\<lambda>l r. and_then (cmp_values l r) (\<lambda>b. Ok (VBool b))) fr"
| "exec_instr hx vm m a Le fr =
     exec_binop (\<lambda>l r. and_then (cmp_values r l) (\<lambda>b. Ok (VBool (\<not> b)))) fr"
| "exec_instr hx vm m a Gt fr =
     exec_binop (\<lambda>l r. and_then (cmp_values r l) (\<lambda>b. Ok (VBool b))) fr"
| "exec_instr hx vm m a Ge fr =
     exec_binop (\<lambda>l r. and_then (cmp_values l r) (\<lambda>b. Ok (VBool (\<not> b)))) fr"
| "exec_instr hx vm m a NotB fr =
     and_then (frame_pop fr) (\<lambda>(v, fr).
     and_then (expect_bool v) (\<lambda>b. Ok (frame_push (VBool (\<not> b)) fr)))"
| "exec_instr hx vm m a And fr = exec_binop (bool_op (\<and>)) fr"
| "exec_instr hx vm m a Or fr = exec_binop (bool_op (\<or>)) fr"
| "exec_instr hx vm m a (NewStruct type_name field_names) fr =
     exec_new_struct hx vm m a type_name field_names fr"
| "exec_instr hx vm m a (GetField field) fr = exec_get_field field fr"
| "exec_instr hx vm m a (UnpackStruct _ field_names) fr = exec_unpack_struct field_names fr"
| "exec_instr hx vm m a Pop fr = and_then (frame_pop fr) (\<lambda>(_, fr). Ok fr)"
| "exec_instr hx vm m a Dup fr = and_then (frame_peek fr) (\<lambda>v. Ok (frame_push v fr))"
| "exec_instr hx vm m a (Jump offset) fr = exec_jump offset fr"
| "exec_instr hx vm m a (JumpIf offset) fr = exec_jump_cond True offset fr"
| "exec_instr hx vm m a (JumpIfNot offset) fr = exec_jump_cond False offset fr"
| "exec_instr hx vm m a (MakeTuple n) fr = exec_make_tuple n fr"
| "exec_instr hx vm m a (UnpackTuple n) fr = exec_unpack_tuple n fr"
| "exec_instr hx vm m a (Call _) fr = Ok fr"
| "exec_instr hx vm m a Return fr = Ok fr"

section \<open>Calls\<close>

text \<open>What \<open>Call(name)\<close> resolves to, in the order the code tries: a reference into a dependency,
  a function of the calling module, a native.\<close>

datatype 's call_target =
    ToModule string module address nat
  | ToNative "'s native_fn_entry"

definition resolve_call ::
    "hex_codec \<Rightarrow> 's vm \<Rightarrow> module \<Rightarrow> address \<Rightarrow> string \<Rightarrow> vm_stop + 's call_target" where
  "resolve_call hx vm context_module context_module_addr name =
     (case parse_module_ref hx name of
        Some (dep_addr, fn_name_in_dep) \<Rightarrow>
          and_then (ok_or (map_of (vm_deps vm) dep_addr) (VmErr (UndefinedFunction name))) (\<lambda>dep.
          and_then (ok_or (get_function dep fn_name_in_dep) (VmErr (UndefinedFunction name))) (\<lambda>dep_func.
            if \<not> fn_is_public dep_func then Err (VmErr (PrivateFunction name))
            else Ok (ToModule fn_name_in_dep dep dep_addr (length (fn_params dep_func)))))
      | None \<Rightarrow>
          (case get_function context_module name of
             Some callee \<Rightarrow>
               Ok (ToModule name context_module context_module_addr (length (fn_params callee)))
           | None \<Rightarrow>
               (case map_of (vm_natives vm) name of
                  Some native \<Rightarrow> Ok (ToNative native)
                | None \<Rightarrow> Err (VmErr (UndefinedFunction name)))))"

text \<open>A native call after resolution: its gas, its arguments, its result.\<close>

definition call_native ::
    "hex_codec \<Rightarrow> 's native_fn_entry \<Rightarrow> frame \<Rightarrow> gas_meter \<Rightarrow> 's
       \<Rightarrow> (vm_stop + frame) \<times> gas_meter \<times> 's" where
  "call_native hx native fr gas w =
     (case charge (ne_gas_cost native) gas of
        (Inl e, gas) \<Rightarrow> (Err (VmErr e), gas, w)
      | (Inr _, gas) \<Rightarrow>
          (case pop_n (length (ne_params native)) fr of
             Inl e \<Rightarrow> (Err e, gas, w)
           | Inr (vs, fr) \<Rightarrow>
               (case ne_func native (rev vs) w of
                  (NativeReturn v, w) \<Rightarrow>
                    (case v of
                       Some x \<Rightarrow>
                         if check_struct_qualified hx x then (Ok (frame_push x fr), gas, w)
                         else (Err (Panic ''native returned a struct with unqualified type name''), gas, w)
                     | None \<Rightarrow> (Ok (frame_push VVoid fr), gas, w))
                | (NativeAbort code message, w) \<Rightarrow> (Err (VmErr (Aborted code message)), gas, w)
                | (NativeErr msg, w) \<Rightarrow> (Err (VmErr (NativeError msg)), gas, w)
                | (NativePanic, w) \<Rightarrow> (Err (Panic ''native''), gas, w))))"

fun call_name :: "instruction \<Rightarrow> string option" where
  "call_name (Call name) = Some name"
| "call_name _ = None"

text \<open>\<open>frame.stack.pop()\<close>.\<close>

definition stack_top :: "frame \<Rightarrow> val option" where
  "stack_top fr = (case fr_stack fr of [] \<Rightarrow> None | v # _ \<Rightarrow> Some v)"

type_synonym 's outcome = "(vm_stop + val option) \<times> gas_meter \<times> 's"

text \<open>
  One iteration of the loop.  It ends the call (the code is exhausted, a \<open>Return\<close>, an error),
  goes on with the next frame state, or needs the result of an inner call, whose value is pushed
  on the frame it carries.
\<close>

datatype 's frame_next =
    Done "'s outcome"
  | Continue frame gas_meter 's
  | CallOut string module address "val list" frame gas_meter 's

definition frame_step ::
    "hex_codec \<Rightarrow> 's vm \<Rightarrow> module \<Rightarrow> address \<Rightarrow> frame \<Rightarrow> gas_meter \<Rightarrow> 's \<Rightarrow> 's frame_next" where
  "frame_step hx vm m a fr gas w =
     (if fr_pc fr \<ge> length (fr_code fr) then Done (Ok (stack_top fr), gas, w)
      else
        let instr = fr_code fr ! fr_pc fr in
        (case charge (cost_of (vm_gas_schedule vm) instr) gas of
           (Inl e, gas) \<Rightarrow> Done (Err (VmErr e), gas, w)
         | (Inr _, gas) \<Rightarrow>
             let fr = fr\<lparr>fr_pc := fr_pc fr + 1\<rparr> in
             if instr = Return then Done (Ok (stack_top fr), gas, w)
             else case call_name instr of
               None \<Rightarrow>
                 (case exec_instr hx vm m a instr fr of
                    Inl e \<Rightarrow> Done (Err e, gas, w)
                  | Inr fr \<Rightarrow> Continue fr gas w)
             | Some name \<Rightarrow>
                 (case resolve_call hx vm m a name of
                    Inl e \<Rightarrow> Done (Err e, gas, w)
                  | Inr (ToModule f m' a' arg_count) \<Rightarrow>
                      (case pop_n arg_count fr of
                         Inl e \<Rightarrow> Done (Err e, gas, w)
                       | Inr (vs, fr) \<Rightarrow> CallOut f m' a' (rev vs) fr gas w)
                  | Inr (ToNative native) \<Rightarrow>
                      (case call_native hx native fr gas w of
                         (Inl e, gas, w) \<Rightarrow> Done (Err e, gas, w)
                       | (Inr fr, gas, w) \<Rightarrow> Continue fr gas w))))"

text \<open>\<open>call_inner\<close> up to the loop: the frame the function starts in.\<close>

definition enter_function ::
    "'s vm \<Rightarrow> string \<Rightarrow> module \<Rightarrow> val list \<Rightarrow> nat \<Rightarrow> vm_stop + frame" where
  "enter_function vm f m args depth =
     (if depth \<ge> max_call_depth (vm_cfg vm)
      then Err (VmErr (CallStackOverflow (max_call_depth (vm_cfg vm))))
      else
        and_then (ok_or (get_function m f) (VmErr (UndefinedFunction f))) (\<lambda>func.
          if length args > unat (fn_local_count func)
          then Err (VmErr (ArityMismatch f (length args) (unat (fn_local_count func))))
          else frame_new (fn_code func) args (fn_local_count func)))"

fun call_inner ::
    "nat \<Rightarrow> hex_codec \<Rightarrow> 's vm \<Rightarrow> string \<Rightarrow> module \<Rightarrow> address \<Rightarrow> val list \<Rightarrow> gas_meter \<Rightarrow> 's \<Rightarrow> nat
       \<Rightarrow> 's outcome option"
and run_frame ::
    "nat \<Rightarrow> hex_codec \<Rightarrow> 's vm \<Rightarrow> module \<Rightarrow> address \<Rightarrow> frame \<Rightarrow> gas_meter \<Rightarrow> 's \<Rightarrow> nat
       \<Rightarrow> 's outcome option"
where
  "call_inner 0 hx vm f m a args gas w depth = None"
| "call_inner (Suc k) hx vm f m a args gas w depth =
     (case enter_function vm f m args depth of
        Inl e \<Rightarrow> Some (Err e, gas, w)
      | Inr fr \<Rightarrow> run_frame k hx vm m a fr gas w depth)"
| "run_frame 0 hx vm m a fr gas w depth = None"
| "run_frame (Suc k) hx vm m a fr gas w depth =
     (case frame_step hx vm m a fr gas w of
        Done r \<Rightarrow> Some r
      | Continue fr gas w \<Rightarrow> run_frame k hx vm m a fr gas w depth
      | CallOut f m' a' args fr gas w \<Rightarrow>
          (case call_inner k hx vm f m' a' args gas w (depth + 1) of
             None \<Rightarrow> None
           | Some (Inl e, gas, w) \<Rightarrow> Some (Err e, gas, w)
           | Some (Inr ret, gas, w) \<Rightarrow>
               run_frame k hx vm m a (frame_push (case ret of Some v \<Rightarrow> v | None \<Rightarrow> VVoid) fr)
                 gas w depth))"

section \<open>The public interface\<close>

text \<open>The native table of \<open>Vm::new\<close>: duplicates and a wrongly typed override panic, and the default
  \<open>meow_vm_abort\<close> is injected when none is given.\<close>

fun native_table :: "'s native_fn_entry list \<Rightarrow> (string \<times> 's native_fn_entry) list
    \<Rightarrow> vm_stop + (string \<times> 's native_fn_entry) list" where
  "native_table [] tab = Ok tab"
| "native_table (e # es) tab =
     (if map_of tab (ne_name e) \<noteq> None
      then Err (Panic (''duplicate native function name: '' @ ne_name e))
      else native_table es ((ne_name e, e) # tab))"

definition vm_new ::
    "address \<times> module \<Rightarrow> 's native_fn_entry list \<Rightarrow> gas_schedule \<Rightarrow> module_map \<Rightarrow> vm_config
       \<Rightarrow> vm_stop + 's vm" where
  "vm_new am natives gs deps cfg =
     and_then (native_table natives []) (\<lambda>tab.
     and_then
       (case map_of tab meow_vm_abort of
          Some e \<Rightarrow>
            if ne_params e \<noteq> ns_params meow_vm_abort_sig
            then Err (Panic ''meow_vm_abort override has wrong parameter types'')
            else if ne_return_type e \<noteq> None
            then Err (Panic ''meow_vm_abort override must return void'')
            else Ok tab
        | None \<Rightarrow> Ok ((meow_vm_abort, meow_vm_abort_entry) # tab))
       (\<lambda>tab.
          Ok \<lparr>vm_module = snd am, vm_module_addr = fst am, vm_deps = deps, vm_natives = tab,
              vm_gas_schedule = gs, vm_cfg = cfg\<rparr>))"

definition vm_call ::
    "nat \<Rightarrow> hex_codec \<Rightarrow> 's vm \<Rightarrow> string \<Rightarrow> val list \<Rightarrow> gas_meter \<Rightarrow> 's \<Rightarrow> 's outcome option" where
  "vm_call k hx vm f args gas w =
     (if length (vm_deps vm) > vc_max_dep_modules (vm_cfg vm)
      then Some (Err (VmErr (TooManyDepModules (vc_max_dep_modules (vm_cfg vm)))), gas, w)
      else if map_of (vm_natives vm) f \<noteq> None
      then Some (Err (VmErr (NativeFunctionCallDirect f)), gas, w)
      else case get_function (vm_module vm) f of
        None \<Rightarrow> Some (Err (VmErr (UndefinedFunction f)), gas, w)
      | Some func \<Rightarrow>
          if \<not> fn_is_public func \<and> \<not> enable_call_private_functions (vm_cfg vm)
          then Some (Err (VmErr (PrivateFunction f)), gas, w)
          else if \<not> list_all (check_struct_qualified hx) args
          then Some (Err (Panic ''struct argument has unqualified type name''), gas, w)
          else call_inner k hx vm f (vm_module vm) (vm_module_addr vm) args gas w 0)"

end
