(* ===== verification/Vm_Props.thy ===== *)
theory Vm_Props
  imports Vm
begin

text \<open>
  Facts about the machine that hold for every module, verified or not: closed forms of the stack
  operations, fuel monotonicity, gas accounting, absence of panics, and termination whenever
  the gas limit is finite.
\<close>

section \<open>Stack operations in closed form\<close>

lemma frame_pop_simps [simp]:
  "fr_stack fr = [] \<Longrightarrow> frame_pop fr = Err (VmErr StackUnderflow)"
  "fr_stack fr = v # st \<Longrightarrow> frame_pop fr = Ok (v, fr\<lparr>fr_stack := st\<rparr>)"
  by (simp_all add: frame_pop_def)

lemma frame_peek_simps [simp]:
  "fr_stack fr = [] \<Longrightarrow> frame_peek fr = Err (VmErr StackUnderflow)"
  "fr_stack fr = v # st \<Longrightarrow> frame_peek fr = Ok v"
  by (simp_all add: frame_peek_def)

lemma frame_push_sel [simp]:
  "fr_stack (frame_push v fr) = v # fr_stack fr"
  "fr_locals (frame_push v fr) = fr_locals fr"
  "fr_pc (frame_push v fr) = fr_pc fr"
  "fr_code (frame_push v fr) = fr_code fr"
  by (simp_all add: frame_push_def)

lemma frame_pop_Inr_iff [exec_simps]:
  "frame_pop fr = Inr (v, fr') \<longleftrightarrow> (\<exists>st. fr_stack fr = v # st \<and> fr' = fr\<lparr>fr_stack := st\<rparr>)"
  by (cases "fr_stack fr") auto

lemma frame_peek_Inr_iff [exec_simps]:
  "frame_peek fr = Inr v \<longleftrightarrow> (\<exists>st. fr_stack fr = v # st)"
  by (cases "fr_stack fr") auto

lemma pop_n_eq:
  "pop_n n fr = (if n \<le> length (fr_stack fr)
                 then Ok (take n (fr_stack fr), fr\<lparr>fr_stack := drop n (fr_stack fr)\<rparr>)
                 else Err (VmErr StackUnderflow))"
proof (induction n arbitrary: fr)
  case 0
  then show ?case by simp
next
  case (Suc n)
  then show ?case by (cases "fr_stack fr") simp_all
qed

lemma pop_n_Inr_iff [exec_simps]:
  "pop_n n fr = Inr (vs, fr') \<longleftrightarrow>
     n \<le> length (fr_stack fr) \<and> vs = take n (fr_stack fr) \<and>
     fr' = fr\<lparr>fr_stack := drop n (fr_stack fr)\<rparr>"
  by (auto simp: pop_n_eq)

lemma foldl_frame_push:
  "foldl (\<lambda>fr v. frame_push v fr) fr vs = fr\<lparr>fr_stack := rev vs @ fr_stack fr\<rparr>"
  by (induction vs arbitrary: fr) (simp_all add: frame_push_def)

lemma unpack_fields_frame:
  "unpack_fields tn names fm fr = Inr fr' \<Longrightarrow>
     fr_code fr' = fr_code fr \<and> fr_pc fr' = fr_pc fr \<and> fr_locals fr' = fr_locals fr"
  by (induction names arbitrary: fm fr) (force split: option.splits)+

lemma ok_or_Inl_iff: "ok_or x e = Inl e' \<longleftrightarrow> x = None \<and> e' = e"
  by (cases x) auto

lemma exec_get_field_Inr_iff [exec_simps]:
  "exec_get_field f fr = Inr fr' \<longleftrightarrow>
     (\<exists>tn flds st v. fr_stack fr = VStruct tn flds # st \<and> map_of flds f = Some v \<and>
        fr' = frame_push v (fr\<lparr>fr_stack := st\<rparr>))"
proof (cases "fr_stack fr")
  case (Cons v st)
  then show ?thesis
    by (cases v) (auto simp: exec_get_field_def and_then_Inr_iff ok_or_Inr_iff)
qed (simp add: exec_get_field_def)

lemma exec_unpack_struct_Inr_iff [exec_simps]:
  "exec_unpack_struct names fr = Inr fr' \<longleftrightarrow>
     (\<exists>tn flds st. fr_stack fr = VStruct tn flds # st \<and>
        unpack_fields tn (rev names) (rev flds) (fr\<lparr>fr_stack := st\<rparr>) = Inr fr')"
proof (cases "fr_stack fr")
  case (Cons v st)
  then show ?thesis by (cases v) (auto simp: exec_unpack_struct_def)
qed (simp add: exec_unpack_struct_def)

lemma exec_unpack_tuple_Inr_iff [exec_simps]:
  "exec_unpack_tuple n fr = Inr fr' \<longleftrightarrow>
     (\<exists>vs st. fr_stack fr = VTuple vs # st \<and> length vs = unat n \<and>
        fr' = fr\<lparr>fr_stack := vs @ st\<rparr>)"
proof (cases "fr_stack fr")
  case (Cons v st)
  then show ?thesis by (cases v) (auto simp: exec_unpack_tuple_def foldl_frame_push)
qed (simp add: exec_unpack_tuple_def)

lemma jump_target_Inr_iff [exec_simps]:
  "jump_target pc off = Inr t \<longleftrightarrow> 0 \<le> int pc - 1 + sint off \<and> t = nat (int pc - 1 + sint off)"
  by (auto simp: jump_target_def Let_def)

lemmas exec_defs =
  exec_load_def exec_store_def exec_load_field_def exec_store_field_def exec_binop_def
  exec_new_struct_def exec_jump_def exec_jump_cond_def exec_make_tuple_def

section \<open>What one instruction can change\<close>

lemma exec_instr_code:
  "exec_instr hx vm m a i fr = Inr fr' \<Longrightarrow> fr_code fr' = fr_code fr"
  by (cases i)
    (auto simp: exec_defs exec_simps and_then_Inr_iff Let_def
      dest: unpack_fields_frame split: if_splits option.splits)

lemma exec_instr_pc:
  "exec_instr hx vm m a i fr = Inr fr' \<Longrightarrow> \<not> is_jump i \<Longrightarrow> fr_pc fr' = fr_pc fr"
  by (cases i)
    (auto simp: exec_defs exec_simps and_then_Inr_iff Let_def
      dest: unpack_fields_frame split: if_splits option.splits)

section \<open>Fuel\<close>

text \<open>More fuel never changes a result.\<close>

lemma run_mono:
  "call_inner k hx vm f m a args gas w d = Some r \<Longrightarrow> k \<le> k' \<Longrightarrow>
     call_inner k' hx vm f m a args gas w d = Some r"
  "run_frame k hx vm m a fr gas w d = Some r \<Longrightarrow> k \<le> k' \<Longrightarrow>
     run_frame k' hx vm m a fr gas w d = Some r"
proof (induction k arbitrary: k' f m a args gas w d fr r)
  case 0
  { case 1 then show ?case by simp }
  { case 2 then show ?case by simp }
next
  case (Suc k)
  { case 1
    then obtain j where "k' = Suc j" "k \<le> j" by (cases k') auto
    with 1(1) show ?case
      by (auto split: sum.splits intro: Suc.IH(2)) }
  { case 2
    then obtain j where j: "k' = Suc j" "k \<le> j" by (cases k') auto
    show ?case
    proof (cases "frame_step hx vm m a fr gas w")
      case (Done x)
      then show ?thesis using 2(1) j by simp
    next
      case (Continue fr' gas' w')
      then show ?thesis using 2(1) j by (auto intro: Suc.IH(2))
    next
      case (CallOut f' m' a' args' fr' gas' w')
      then obtain r' where r': "call_inner k hx vm f' m' a' args' gas' w' (d + 1) = Some r'"
        using 2(1) by (auto split: option.splits)
      have "call_inner j hx vm f' m' a' args' gas' w' (d + 1) = Some r'"
        using Suc.IH(1) [OF r' j(2)] .
      then show ?thesis
        using 2(1) j CallOut r' by (auto split: sum.splits prod.splits intro: Suc.IH(2))
    qed }
qed

text \<open>
  A property of outcomes that every step preserves holds of every run: \<open>I\<close> is what holds of the
  gas and the host state between steps, \<open>Q\<close> of the outcome of a call.
\<close>

lemma run_post:
  assumes enter: "\<And>f m args d e gas w. enter_function vm f m args d = Inl e \<Longrightarrow> I gas w \<Longrightarrow>
      Q (Inl e, gas, w)"
    and fin: "\<And>m a fr gas w r. frame_step hx vm m a fr gas w = Done r \<Longrightarrow> I gas w \<Longrightarrow> Q r"
    and cont: "\<And>m a fr gas w fr' gas' w'.
      frame_step hx vm m a fr gas w = Continue fr' gas' w' \<Longrightarrow> I gas w \<Longrightarrow> I gas' w'"
    and call: "\<And>m a fr gas w f m' a' args fr' gas' w'.
      frame_step hx vm m a fr gas w = CallOut f m' a' args fr' gas' w' \<Longrightarrow> I gas w \<Longrightarrow> I gas' w'"
    and ret: "\<And>v gas w. Q (Inr v, gas, w) \<Longrightarrow> I gas w"
  shows "call_inner k hx vm f m a args gas w d = Some r \<Longrightarrow> I gas w \<Longrightarrow> Q r"
    and "run_frame k hx vm m a fr gas w d = Some r \<Longrightarrow> I gas w \<Longrightarrow> Q r"
proof (induction k arbitrary: f m a args gas w d fr r)
  case 0
  { case 1 then show ?case by simp }
  { case 2 then show ?case by simp }
next
  case (Suc k)
  { case 1
    then show ?case by (auto split: sum.splits intro: Suc.IH(2) enter) }
  { case 2
    show ?case
    proof (cases "frame_step hx vm m a fr gas w")
      case (Done x)
      then show ?thesis using 2 fin by auto
    next
      case (Continue fr' gas' w')
      then show ?thesis using 2 cont [OF Continue] by (auto intro: Suc.IH(2))
    next
      case (CallOut f' m' a' args' fr' gas' w')
      then obtain x gas2 w2 where
        r': "call_inner k hx vm f' m' a' args' gas' w' (d + 1) = Some (x, gas2, w2)"
        using 2(1) by (auto split: option.splits)
      then have "Q (x, gas2, w2)"
        using Suc.IH(1) call [OF CallOut 2(2)] by blast
      then show ?thesis
        using 2(1) CallOut r' by (auto split: sum.splits intro: Suc.IH(2) ret)
    qed }
qed

section \<open>One iteration, case by case\<close>

lemma charge_Inr_snd: "charge c gas = (Inr u, gas') \<Longrightarrow> gas' = snd (charge c gas)"
  by simp

text \<open>How an iteration can go on: after an instruction, after a native, or with an inner call.\<close>

lemma frame_step_Continue:
  assumes "frame_step hx vm m a fr gas w = Continue fr' gas' w'"
  obtains (instr) i u where "fr_pc fr < length (fr_code fr)" "i = fr_code fr ! fr_pc fr"
      "i \<noteq> Return" "call_name i = None" "charge (cost_of (vm_gas_schedule vm) i) gas = (Inr u, gas')"
      "exec_instr hx vm m a i (fr\<lparr>fr_pc := fr_pc fr + 1\<rparr>) = Inr fr'" "w' = w"
    | (native) name native u gas1 where "fr_pc fr < length (fr_code fr)"
      "fr_code fr ! fr_pc fr = Call name"
      "charge (cost_of (vm_gas_schedule vm) (Call name)) gas = (Inr u, gas1)"
      "resolve_call hx vm m a name = Inr (ToNative native)"
      "call_native hx native (fr\<lparr>fr_pc := fr_pc fr + 1\<rparr>) gas1 w = (Inr fr', gas', w')"
proof -
  let ?i = "fr_code fr ! fr_pc fr"
  have pc: "fr_pc fr < length (fr_code fr)"
    using assms by (simp add: frame_step_def split: if_splits)
  obtain u gas1 where ch: "charge (cost_of (vm_gas_schedule vm) ?i) gas = (Inr u, gas1)"
    using assms pc by (cases rule: charge_cases [of "cost_of (vm_gas_schedule vm) ?i" gas])
      (auto simp: frame_step_def)
  have nr: "?i \<noteq> Return"
    using assms pc ch by (auto simp: frame_step_def)
  show ?thesis
  proof (cases "call_name ?i")
    case None
    then show ?thesis
      using assms pc ch nr instr by (auto simp: frame_step_def Let_def split: sum.splits)
  next
    case (Some name)
    then have "?i = Call name" by (cases ?i) auto
    then show ?thesis
      using assms pc ch nr native
      by (auto simp: frame_step_def Let_def split: sum.splits call_target.splits prod.splits)
  qed
qed

lemma frame_step_CallOut:
  assumes "frame_step hx vm m a fr gas w = CallOut f m' a' args fr' gas' w'"
  obtains name u n vs where "fr_pc fr < length (fr_code fr)" "fr_code fr ! fr_pc fr = Call name"
      "charge (cost_of (vm_gas_schedule vm) (Call name)) gas = (Inr u, gas')"
      "resolve_call hx vm m a name = Inr (ToModule f m' a' n)"
      "pop_n n (fr\<lparr>fr_pc := fr_pc fr + 1\<rparr>) = Inr (vs, fr')" "args = rev vs" "w' = w"
proof -
  let ?i = "fr_code fr ! fr_pc fr"
  have pc: "fr_pc fr < length (fr_code fr)"
    using assms by (simp add: frame_step_def split: if_splits)
  obtain u gas1 where ch: "charge (cost_of (vm_gas_schedule vm) ?i) gas = (Inr u, gas1)"
    using assms pc by (cases rule: charge_cases [of "cost_of (vm_gas_schedule vm) ?i" gas])
      (auto simp: frame_step_def)
  have nr: "?i \<noteq> Return"
    using assms pc ch by (auto simp: frame_step_def)
  obtain name where "call_name ?i = Some name"
    using assms pc ch nr by (cases "call_name ?i") (auto simp: frame_step_def Let_def split: sum.splits)
  moreover from this have "?i = Call name" by (cases ?i) auto
  ultimately show ?thesis
    using assms pc ch nr that
    by (auto simp: frame_step_def Let_def split: sum.splits call_target.splits prod.splits)
qed

lemma frame_step_Done:
  assumes "frame_step hx vm m a fr gas w = Done r"
  obtains (exhausted) "length (fr_code fr) \<le> fr_pc fr" "r = (Inr (stack_top fr), gas, w)"
    | (out_of_gas) l gas' where "r = (Inl (VmErr (OutOfGas l l)), gas', w)"
    | (return) u gas' where "fr_pc fr < length (fr_code fr)" "fr_code fr ! fr_pc fr = Return"
      "charge (cost_of (vm_gas_schedule vm) Return) gas = (Inr u, gas')"
      "r = (Inr (stack_top fr), gas', w)"
    | (instr) i u e gas' where "fr_pc fr < length (fr_code fr)" "i = fr_code fr ! fr_pc fr"
      "i \<noteq> Return" "call_name i = None" "charge (cost_of (vm_gas_schedule vm) i) gas = (Inr u, gas')"
      "exec_instr hx vm m a i (fr\<lparr>fr_pc := fr_pc fr + 1\<rparr>) = Inl e" "r = (Inl e, gas', w)"
    | (unresolved) name e gas' where "fr_pc fr < length (fr_code fr)"
      "fr_code fr ! fr_pc fr = Call name" "resolve_call hx vm m a name = Inl e" "r = (Inl e, gas', w)"
    | (underflow) name f m' a' n e gas' where "fr_pc fr < length (fr_code fr)"
      "fr_code fr ! fr_pc fr = Call name" "resolve_call hx vm m a name = Inr (ToModule f m' a' n)"
      "pop_n n (fr\<lparr>fr_pc := fr_pc fr + 1\<rparr>) = Inl e" "r = (Inl e, gas', w)"
    | (native) name n u gas1 e gas' w' where "fr_pc fr < length (fr_code fr)"
      "fr_code fr ! fr_pc fr = Call name" "resolve_call hx vm m a name = Inr (ToNative n)"
      "charge (cost_of (vm_gas_schedule vm) (Call name)) gas = (Inr u, gas1)"
      "call_native hx n (fr\<lparr>fr_pc := fr_pc fr + 1\<rparr>) gas1 w = (Inl e, gas', w')" "r = (Inl e, gas', w')"
proof (cases "fr_pc fr < length (fr_code fr)")
  case False
  then show ?thesis using assms exhausted by (simp add: frame_step_def)
next
  case pc: True
  let ?i = "fr_code fr ! fr_pc fr"
  have top: "stack_top (fr\<lparr>fr_pc := x\<rparr>) = stack_top fr" for x by (simp add: stack_top_def)
  show ?thesis
  proof (cases rule: charge_cases [of "cost_of (vm_gas_schedule vm) ?i" gas])
    case out
    then show ?thesis using assms pc out_of_gas by (auto simp: frame_step_def)
  next
    case ch: (ok gas1)
    consider (ret) "?i = Return" | (call) name where "?i = Call name"
      | (other) "?i \<noteq> Return" "call_name ?i = None"
      by (cases ?i) auto
    then show ?thesis
    proof cases
      case ret
      then show ?thesis using assms pc ch return by (simp add: frame_step_def Let_def top)
    next
      case (call name)
      show ?thesis
      proof (cases "resolve_call hx vm m a name")
        case (Inl e)
        then show ?thesis using assms pc ch call unresolved by (auto simp: frame_step_def Let_def)
      next
        case (Inr t)
        then show ?thesis
          using assms pc ch call underflow native
          by (cases t) (auto simp: frame_step_def Let_def split: sum.splits prod.splits)
      qed
    next
      case other
      then show ?thesis
        using assms pc ch instr by (auto simp: frame_step_def Let_def split: sum.splits)
    qed
  qed
qed

section \<open>Gas accounting\<close>

text \<open>\<open>gas_le g g'\<close>: the limit is the same, and from a well-formed meter the spending only grows
  and stays within the limit.\<close>

definition gas_le :: "gas_meter \<Rightarrow> gas_meter \<Rightarrow> bool" where
  "gas_le g g' \<longleftrightarrow> gm_limit g' = gm_limit g \<and>
     (gas_wf g \<longrightarrow> gas_wf g' \<and> gm_spent g \<le> gm_spent g')"

lemma gas_le_refl [simp, intro]: "gas_le g g"
  by (simp add: gas_le_def)

lemma gas_le_trans: "gas_le g1 g2 \<Longrightarrow> gas_le g2 g3 \<Longrightarrow> gas_le g1 g3"
  by (auto simp: gas_le_def)

lemma saturating_add_ge: "a \<le> saturating_add a b"
  by (simp add: word_le_nat_alt rust_int) (use unat_bound [of a] in linarith)

lemma charge_gas_le: "gas_le g (snd (charge c g))"
  using saturating_add_ge [of "gm_spent g" c]
  by (auto simp: gas_le_def gas_wf_def charge_def Let_def)

lemma charge_eq_gas_le: "charge c g = (r, g') \<Longrightarrow> gas_le g g'"
  using charge_gas_le [of g c] by simp

lemma call_native_gas_le:
  "call_native hx n fr g w = (r, g', w') \<Longrightarrow> gas_le g g'"
  by (cases "charge (ne_gas_cost n) g")
    (auto simp: call_native_def dest: charge_eq_gas_le
      split: sum.splits prod.splits native_result.splits option.splits if_splits)

primrec next_gas :: "'s frame_next \<Rightarrow> gas_meter" where
  "next_gas (Done r) = fst (snd r)"
| "next_gas (Continue fr g w) = g"
| "next_gas (CallOut f m a args fr g w) = g"

lemma frame_step_gas_le: "gas_le gas (next_gas (frame_step hx vm m a fr gas w))"
proof (cases "fr_pc fr < length (fr_code fr)")
  case True
  let ?i = "fr_code fr ! fr_pc fr"
  obtain x gas1 where ch: "charge (cost_of (vm_gas_schedule vm) ?i) gas = (x, gas1)" by fastforce
  then have "gas_le gas gas1" by (rule charge_eq_gas_le)
  moreover have "gas_le gas1 (next_gas (frame_step hx vm m a fr gas w))"
    using True ch
    by (auto simp: frame_step_def Let_def dest: call_native_gas_le
        split: sum.splits option.splits call_target.splits prod.splits)
  ultimately show ?thesis by (rule gas_le_trans)
qed (simp add: frame_step_def)

lemma run_gas_le:
  "call_inner k hx vm f m a args gas w d = Some r \<Longrightarrow> gas_le gas (fst (snd r))"
  "run_frame k hx vm m a fr gas w d = Some r \<Longrightarrow> gas_le gas (fst (snd r))"
proof -
  let ?I = "\<lambda>g (w :: 'a). gas_le gas g" and ?Q = "\<lambda>r :: 'a outcome. gas_le gas (fst (snd r))"
  have step: "gas_le gas (next_gas n)"
    if "frame_step hx vm m a fr g w = n" "gas_le gas g" for m a fr g w n
    using frame_step_gas_le [of g hx vm m a fr w] that gas_le_trans by blast
  show "call_inner k hx vm f m a args gas w d = Some r \<Longrightarrow> gas_le gas (fst (snd r))"
    by (erule run_post(1) [where I = ?I and Q = ?Q, rotated 5]) (auto dest: step)
  show "run_frame k hx vm m a fr gas w d = Some r \<Longrightarrow> gas_le gas (fst (snd r))"
    by (erule run_post(2) [where I = ?I and Q = ?Q, rotated 5]) (auto dest: step)
qed

section \<open>Absence of panics\<close>

definition not_panic :: "vm_stop + 'a \<Rightarrow> bool" where
  "not_panic r \<longleftrightarrow> (\<forall>s. r \<noteq> Inl (Panic s))"

lemma not_panic_simps [simp]:
  "not_panic (Inr u)" "not_panic (Inl (VmErr e))" "\<not> not_panic (Inl (Panic s))"
  "not_panic (and_then x f) \<longleftrightarrow> not_panic x \<and> (\<forall>v. x = Inr v \<longrightarrow> not_panic (f v))"
  "not_panic (ok_or y (VmErr e))"
  by (auto simp: not_panic_def ok_or_Inl_iff and_then_Inl_iff)

lemma not_panic_Inl: "not_panic (Inl e) \<longleftrightarrow> (\<exists>x. e = VmErr x)"
  by (cases e) auto

lemma not_panic_helpers [simp]:
  "not_panic (frame_pop fr)" "not_panic (frame_peek fr)" "not_panic (pop_n n fr)"
  "not_panic (jump_target pc off)" "not_panic (expect_u64 v)" "not_panic (expect_bool v)"
  "not_panic (local_value slot fr)" "not_panic (cmp_values l r)" "not_panic (arith_op l r f)"
  "not_panic (bool_op b l r)" "not_panic (div_op f l r)"
  by (simp_all add: frame_pop_def frame_peek_def pop_n_eq jump_target_def expect_u64_def
      expect_bool_def local_value_def cmp_values_def arith_op_def bool_op_def div_op_def Let_def
      split: list.splits)

lemma not_panic_eq_op [simp]: "not_panic (eq_op f l r)"
proof -
  have "not_panic (linear_type_name l r)" if "value_is_linear l \<or> value_is_linear r"
    using that by (cases l; cases r) (auto simp: linear_type_name_def)
  then show ?thesis by (simp add: eq_op_def)
qed

lemma not_panic_paths [simp]:
  "not_panic (read_field_path i v path)"
  "not_panic (write_field_path i v path x)"
  "not_panic (unpack_fields tn names fm fr)"
proof -
  show "not_panic (read_field_path i v path)"
    by (induction i v path rule: read_field_path.induct) (auto split: val.splits)
  show "not_panic (write_field_path i v path x)"
    by (induction i v path x rule: write_field_path.induct) (auto split: val.splits option.splits)
  show "not_panic (unpack_fields tn names fm fr)"
    by (induction names arbitrary: fm fr) (auto split: option.splits)
qed

lemma exec_instr_not_panic [simp]: "not_panic (exec_instr hx vm m a i fr)"
  by (cases i)
    (auto simp: exec_defs exec_get_field_def exec_unpack_struct_def exec_unpack_tuple_def Let_def
      split: val.splits option.splits)

lemma enter_function_not_panic: "not_panic (enter_function vm f m args d)"
  by (auto simp: enter_function_def frame_new_def)

lemma resolve_call_not_panic [simp]: "not_panic (resolve_call hx vm m a name)"
  by (auto simp: resolve_call_def split: option.splits)

text \<open>What a host promises of a native: called with as many arguments as it declares it does not
  panic, and a struct it returns has a qualified type name.\<close>

definition native_safe :: "hex_codec \<Rightarrow> 's native_fn_entry \<Rightarrow> bool" where
  "native_safe hx n \<longleftrightarrow>
     (\<forall>args w. length args = length (ne_params n) \<longrightarrow>
        fst (ne_func n args w) \<noteq> NativePanic \<and>
        (\<forall>v. fst (ne_func n args w) = NativeReturn (Some v) \<longrightarrow> check_struct_qualified hx v))"

lemma call_native_not_panic:
  assumes "native_safe hx n"
  shows "not_panic (fst (call_native hx n fr gas w))"
proof -
  have "not_panic (fst (call_native hx n fr gas w))"
    if "pop_n (length (ne_params n)) fr = Inr (vs, fr')" for vs fr'
  proof -
    have len: "length (rev vs) = length (ne_params n)"
      using that by (auto simp: pop_n_Inr_iff)
    obtain x w' where f: "ne_func n (rev vs) w = (x, w')" by fastforce
    then have "x \<noteq> NativePanic" "\<And>v. x = NativeReturn (Some v) \<Longrightarrow> check_struct_qualified hx v"
      using assms len unfolding native_safe_def by (metis fst_conv)+
    then show ?thesis
      using that f
      by (auto simp: call_native_def split: prod.splits sum.splits native_result.splits option.splits)
  qed
  moreover have "not_panic (pop_n (length (ne_params n)) fr)" by simp
  ultimately show ?thesis
    by (cases "pop_n (length (ne_params n)) fr")
      (auto simp: call_native_def not_panic_Inl split: prod.splits sum.splits)
qed

definition natives_safe :: "hex_codec \<Rightarrow> 's vm \<Rightarrow> bool" where
  "natives_safe hx vm \<longleftrightarrow> (\<forall>(n, e) \<in> set (vm_natives vm). native_safe hx e)"

lemma resolve_call_ToNative:
  "resolve_call hx vm m a name = Inr (ToNative n) \<Longrightarrow> map_of (vm_natives vm) name = Some n"
  by (auto simp: resolve_call_def and_then_Inr_iff split: option.splits if_splits)

lemma not_panic_eq: "x = Inl e \<Longrightarrow> not_panic x \<Longrightarrow> not_panic (Inl e)"
  by (simp add: not_panic_Inl)

lemma frame_step_not_panic:
  assumes "natives_safe hx vm" "frame_step hx vm m a fr gas w = Done r"
  shows "not_panic (fst r)"
  using assms(2)
proof (cases rule: frame_step_Done)
  case (native name n u gas1 e gas' w')
  then have "native_safe hx n"
    using assms(1) by (auto simp: natives_safe_def dest!: resolve_call_ToNative map_of_SomeD)
  then show ?thesis
    using call_native_not_panic [of hx n "fr\<lparr>fr_pc := fr_pc fr + 1\<rparr>" gas1 w] native
    by (simp add: not_panic_Inl)
qed (auto dest: not_panic_eq)

lemma run_not_panic:
  assumes "natives_safe hx vm"
  shows "call_inner k hx vm f m a args gas w d = Some r \<Longrightarrow> not_panic (fst r)"
proof (erule run_post(1) [where I = "\<lambda>_ _. True" and Q = "\<lambda>r. not_panic (fst r)", rotated 5])
  show "enter_function vm f m args d = Inl e \<Longrightarrow> True \<Longrightarrow> not_panic (fst (Inl e, gas, w))"
    for f m args d e gas and w :: 'a
    using enter_function_not_panic [of vm f m args d] by (simp add: not_panic_Inl)
qed (use frame_step_not_panic [OF assms] in auto)

section \<open>Termination under a finite gas limit\<close>

text \<open>Gas left, in units.\<close>

definition gas_left :: "gas_meter \<Rightarrow> nat" where
  "gas_left g = unat (gm_limit g) - unat (gm_spent g)"

lemma gas_le_left: "gas_le g g' \<Longrightarrow> gas_wf g \<Longrightarrow> gas_left g' \<le> gas_left g"
  by (auto simp: gas_le_def gas_left_def word_le_nat_alt)

lemma charge_left:
  "charge c g = (Inr u, g') \<Longrightarrow> gm_limit g \<noteq> - 1 \<Longrightarrow> gas_wf g \<Longrightarrow> 0 < unat c \<Longrightarrow>
     gas_left g' < gas_left g"
  using charge_OkD [of c g u g'] by (auto simp: gas_left_def gas_wf_def word_le_nat_alt)

lemma frame_step_progress:
  assumes gs: "vm_gas_schedule vm = gas_schedule_default"
    and fin: "gm_limit gas \<noteq> - 1" and wf: "gas_wf gas"
  shows "frame_step hx vm m a fr gas w = Continue fr' gas' w' \<Longrightarrow>
      gas_left gas' < gas_left gas \<or>
      gas_left gas' \<le> gas_left gas \<and>
      length (fr_code fr') - fr_pc fr' < length (fr_code fr) - fr_pc fr"
    and "frame_step hx vm m a fr gas w = CallOut f m' a' args fr' gas' w' \<Longrightarrow>
      gas_left gas' < gas_left gas"
proof -
  assume "frame_step hx vm m a fr gas w = Continue fr' gas' w'"
  then show "gas_left gas' < gas_left gas \<or>
      gas_left gas' \<le> gas_left gas \<and>
      length (fr_code fr') - fr_pc fr' < length (fr_code fr) - fr_pc fr"
  proof (cases rule: frame_step_Continue)
    case (instr i u)
    show ?thesis
    proof (cases "is_jump i")
      case True
      then show ?thesis
        using charge_left [OF _ fin wf] instr(5) cost_of_jump_pos gs by metis
    next
      case False
      then have "fr_pc fr' = fr_pc fr + 1" "fr_code fr' = fr_code fr"
        using exec_instr_pc [OF instr(6)] exec_instr_code [OF instr(6)] by simp_all
      then show ?thesis
        using instr(1) gas_le_left [OF charge_eq_gas_le [OF instr(5)] wf] by auto
    qed
  next
    case (native name n u gas1)
    have 1: "gas_left gas1 < gas_left gas"
      using charge_left [OF native(3) fin wf] cost_of_call_pos gs by simp
    have "gas_wf gas1"
      using charge_OkD [OF native(3) fin] by simp
    then show ?thesis
      using 1 gas_le_left [OF call_native_gas_le [OF native(5)]] by simp
  qed
next
  assume "frame_step hx vm m a fr gas w = CallOut f m' a' args fr' gas' w'"
  then show "gas_left gas' < gas_left gas"
    by (rule frame_step_CallOut) (use charge_left [OF _ fin wf] cost_of_call_pos gs in metis)
qed

lemma call_inner_of_run:
  "(\<And>fr. \<exists>k. run_frame k hx vm m a fr gas w d \<noteq> None) \<Longrightarrow>
     \<exists>k. call_inner k hx vm f m a args gas w d \<noteq> None"
proof (cases "enter_function vm f m args d")
  case (Inl e)
  then have "call_inner (Suc 0) hx vm f m a args gas w d \<noteq> None" by simp
  then show ?thesis by blast
next
  case (Inr fr)
  assume "\<And>fr. \<exists>k. run_frame k hx vm m a fr gas w d \<noteq> None"
  then obtain k where "run_frame k hx vm m a fr gas w d \<noteq> None" by blast
  with Inr have "call_inner (Suc k) hx vm f m a args gas w d \<noteq> None" by simp
  then show ?thesis by blast
qed

lemma run_frame_terminates:
  assumes gs: "vm_gas_schedule vm = gas_schedule_default"
  shows "gm_limit gas \<noteq> - 1 \<Longrightarrow> gas_wf gas \<Longrightarrow> \<exists>k. run_frame k hx vm m a fr gas w d \<noteq> None"
proof (induction "(gas_left gas, length (fr_code fr) - fr_pc fr)"
    arbitrary: m a fr gas w d rule: wf_induct_rule [OF wf_lex_prod [OF wf_less_than wf_less_than]])
  case 1
  note IH = 1(1) and fin = 1(2) and wf = 1(3)
  have IH': "\<exists>k. run_frame k hx vm m2 a2 fr2 gas2 w2 d2 \<noteq> None"
    if "gas_left gas2 < gas_left gas \<or>
        gas_left gas2 \<le> gas_left gas \<and>
        length (fr_code fr2) - fr_pc fr2 < length (fr_code fr) - fr_pc fr"
      and "gas_le gas gas2" for m2 a2 fr2 gas2 w2 d2
    by (rule IH) (use that fin wf in \<open>auto simp: gas_le_def\<close>)
  have le: "gas_le gas (next_gas (frame_step hx vm m a fr gas w))" by (rule frame_step_gas_le)
  show ?case
  proof (cases "frame_step hx vm m a fr gas w")
    case (Done r)
    then have "run_frame (Suc 0) hx vm m a fr gas w d \<noteq> None" by simp
    then show ?thesis by blast
  next
    case (Continue fr' gas' w')
    then obtain k where "run_frame k hx vm m a fr' gas' w' d \<noteq> None"
      using IH' frame_step_progress(1) [OF gs fin wf Continue] le by fastforce
    then have "run_frame (Suc k) hx vm m a fr gas w d \<noteq> None" using Continue by simp
    then show ?thesis by blast
  next
    case (CallOut f m' a' args fr' gas' w')
    note less = frame_step_progress(2) [OF gs fin wf CallOut]
    have le': "gas_le gas gas'" using le CallOut by simp
    obtain k1 r gas2 w2 where
      c: "call_inner k1 hx vm f m' a' args gas' w' (d + 1) = Some (r, gas2, w2)"
      using call_inner_of_run [of hx vm m' a' gas' w' "d + 1" f args] IH' less le' by fastforce
    then have le2: "gas_le gas' gas2" using run_gas_le(1) by fastforce
    have "gas_wf gas'" using le' wf by (simp add: gas_le_def)
    then have "gas_left gas2 < gas_left gas" using gas_le_left [OF le2] less by simp
    then obtain k2 where
      k2: "run_frame k2 hx vm m a
             (frame_push (case r of Inr (Some v) \<Rightarrow> v | _ \<Rightarrow> VVoid) fr') gas2 w2 d \<noteq> None"
      using IH' gas_le_trans [OF le' le2] by blast
    let ?k = "max k1 k2"
    have "call_inner ?k hx vm f m' a' args gas' w' (d + 1) = Some (r, gas2, w2)"
      using run_mono(1) [OF c] by simp
    moreover have "run_frame ?k hx vm m a
             (frame_push (case r of Inr (Some v) \<Rightarrow> v | _ \<Rightarrow> VVoid) fr') gas2 w2 d \<noteq> None"
      using k2 run_mono(2) by fastforce
    ultimately have "run_frame (Suc ?k) hx vm m a fr gas w d \<noteq> None"
      using CallOut by (cases r) auto
    then show ?thesis by blast
  qed
qed

end
