(* ===== verification/Verifier_Structural.thy ===== *)
theory Verifier_Structural
  imports Vm_Types
begin

text \<open>
  Phase 1 of the bytecode verifier: \<open>meow-vm-bytecode-verifier/src/structural.rs\<close> and the error type of
  \<open>error.rs\<close>.  Each check returns the errors it pushes, in the order it pushes them; a constructor
  whose name the machine's errors already use carries the suffix \<open>V\<close>.
\<close>

section \<open>Verification errors\<close>

datatype (plugins only: code size) verification_error =
    InvalidIdentifier string string
  | DuplicateFunctionName string
  | DuplicateStructName string
  | TooManyStructs nat nat
  | TooManyFunctions nat nat
  | TooManyImports nat nat
  | EmptyStruct string
  | TooManyFields string nat nat
  | CyclicStructDefinition string
  | TupleFieldType string string
  | TupleTooLarge string nat nat
  | LocalCountTooSmall string u8 nat
  | TooManyParams string nat nat
  | FunctionTooLarge string nat nat
  | TooManyLocals string u8 u8
  | BackwardJump string nat i32
  | JumpOutOfBounds string nat nat nat
  | SlotOutOfRange string nat u8 u8
  | EmptyFieldPath string nat
  | UnresolvedTypeReference string string
  | UndefinedStructType string nat string
  | StructFieldMismatch string nat string
  | CrossModuleCallToPrivateFunction string nat string
  | CrossModuleStructAccess string nat string
  | CrossModulePrivateStructReference string string
  | CrossModulePrivateFieldRead string nat string string
  | CrossModuleFieldWrite string nat string string
  | StackUnderflowV string nat string
  | TypeMismatch string nat string string
  | StackMergeConflict string nat
  | LivenessMergeConflict string nat u8
  | SlotTypeMergeConflict string nat u8
  | ReturnTypeMismatch string string string
  | MissingReturn string
  | StructTypedFieldLoaded string nat string
  | StructTypedFieldWritten string nat string
  | GetFieldDropsLinearField string nat string string
  | UseAfterMoveV string nat u8
  | PopOnStruct string nat
  | DupOnStruct string nat
  | EqOnLinearTypeV string nat
  | SlotOverwriteV string nat u8
  | UnconsumedStruct string u8
  | UnconsumedStructOnStack string
  | UndefinedFunctionV string nat string
  | NativeArgCountMismatch string nat string nat nat
  | NativeArgTypeMismatch string nat string nat string string

text \<open>\<open>if cond { errors.push(e) }\<close>.\<close>

definition err_if :: "bool \<Rightarrow> verification_error \<Rightarrow> verification_error list" where
  "err_if c e = (if c then [e] else [])"

lemma err_if_Nil [simp]: "err_if c e = [] \<longleftrightarrow> \<not> c"
  by (simp add: err_if_def)

section \<open>Type references\<close>

fun validate_type_ref ::
    "hex_codec \<Rightarrow> vtype \<Rightarrow> module \<Rightarrow> module_map \<Rightarrow> string \<Rightarrow> verification_error list" where
  "validate_type_ref hx TBool m deps ctx = []"
| "validate_type_ref hx TU64 m deps ctx = []"
| "validate_type_ref hx TAddress m deps ctx = []"
| "validate_type_ref hx TStr m deps ctx = []"
| "validate_type_ref hx (TStruct name) m deps ctx =
     (case parse_module_ref hx name of
        Some (dep_addr, struct_name) \<Rightarrow>
          if dep_addr \<notin> set (md_imports m) then [UnresolvedTypeReference ctx name]
          else (case map_of deps dep_addr of
                  Some dep_mod \<Rightarrow>
                    (case get_struct dep_mod struct_name of
                       None \<Rightarrow> [UnresolvedTypeReference ctx name]
                     | Some def \<Rightarrow>
                         err_if (\<not> sd_is_public def) (CrossModulePrivateStructReference ctx name))
                | None \<Rightarrow> [])
      | None \<Rightarrow> err_if (get_struct m name = None) (UnresolvedTypeReference ctx name))"
| "validate_type_ref hx (TTuple ts) m deps ctx =
     concat (map (\<lambda>t. validate_type_ref hx t m deps ctx) ts)"

section \<open>Cyclic struct definitions\<close>

text \<open>The local struct a field refers to, when it refers to one.\<close>

definition local_struct_ref :: "hex_codec \<Rightarrow> string set \<Rightarrow> field_def \<Rightarrow> string option" where
  "local_struct_ref hx local_structs field =
     (case fd_ty field of
        TStruct ty_name \<Rightarrow>
          if parse_module_ref hx ty_name = None \<and> ty_name \<in> local_structs then Some ty_name else None
      | _ \<Rightarrow> None)"

lemma local_struct_ref_mem: "local_struct_ref hx ls fd = Some t \<Longrightarrow> t \<in> ls"
  by (auto simp: local_struct_ref_def split: vtype.splits if_splits)

definition struct_fields_of :: "module \<Rightarrow> string \<Rightarrow> field_def list" where
  "struct_fields_of m name = (case get_struct m name of Some def \<Rightarrow> sd_fields def | None \<Rightarrow> [])"

text \<open>
  \<open>struct_dfs\<close> removes \<open>name\<close> from \<open>visiting\<close> before it returns, and its caller has checked that
  \<open>name\<close> was not there: the caller's set is the same after the call, so it is passed down, while
  \<open>visited\<close> and the errors are threaded.  \<open>dfs_fields\<close> is the loop over the fields.
\<close>

function struct_dfs ::
    "hex_codec \<Rightarrow> module \<Rightarrow> string list \<Rightarrow> string set \<Rightarrow> string \<Rightarrow> string set
       \<Rightarrow> string set \<times> verification_error list"
and dfs_fields ::
    "hex_codec \<Rightarrow> module \<Rightarrow> string list \<Rightarrow> string set \<Rightarrow> field_def list \<Rightarrow> string set
       \<Rightarrow> string set \<times> verification_error list"
where
  "struct_dfs hx m local_structs visiting name visited =
     (let (visited, errors) =
        dfs_fields hx m local_structs (insert name visiting) (struct_fields_of m name) visited
      in (insert name visited, errors))"
| "dfs_fields hx m local_structs visiting [] visited = (visited, [])"
| "dfs_fields hx m local_structs visiting (field # flds) visited =
     (case local_struct_ref hx (set local_structs) field of
        None \<Rightarrow> dfs_fields hx m local_structs visiting flds visited
      | Some ty_name \<Rightarrow>
          if ty_name \<in> visiting then
            (let (visited, errors) = dfs_fields hx m local_structs visiting flds visited
             in (visited, CyclicStructDefinition ty_name # errors))
          else if ty_name \<notin> visited then
            (let (visited, errors) = struct_dfs hx m local_structs visiting ty_name visited;
                 (visited, errors') = dfs_fields hx m local_structs visiting flds visited
             in (visited, errors @ errors'))
          else dfs_fields hx m local_structs visiting flds visited)"
  by pat_completeness auto

termination
proof (relation "measures [
    case_sum (\<lambda>(hx, m, ls, visiting, name, visited). 2 * card (set ls - insert name visiting) + 1)
             (\<lambda>(hx, m, ls, visiting, flds, visited). 2 * card (set ls - visiting)),
    case_sum (\<lambda>_. 0) (\<lambda>(hx, m, ls, visiting, flds, visited). length flds)]")
  fix hx m ls visiting name visited
  show "(Inr (hx, m, ls, insert name visiting, struct_fields_of m name, visited),
         Inl (hx, m, ls, visiting, name, visited))
        \<in> measures [
    case_sum (\<lambda>(hx, m, ls, visiting, name, visited). 2 * card (set ls - insert name visiting) + 1)
             (\<lambda>(hx, m, ls, visiting, flds, visited). 2 * card (set ls - visiting)),
    case_sum (\<lambda>_. 0) (\<lambda>(hx, m, ls, visiting, flds, visited). length flds)]"
    by simp
next
  fix hx m ls visiting field flds and visited :: "string set" and t
  assume "local_struct_ref hx (set ls) field = Some t" "t \<notin> visiting"
  then have "t \<in> set ls - visiting" by (simp add: local_struct_ref_mem)
  moreover have "set ls - insert t visiting = (set ls - visiting) - {t}" by auto
  ultimately have "Suc (card (set ls - insert t visiting)) = card (set ls - visiting)"
    by (metis card_Suc_Diff1 finite_Diff finite_set)
  then show "(Inl (hx, m, ls, visiting, t, visited),
         Inr (hx, m, ls, visiting, field # flds, visited))
        \<in> measures [
    case_sum (\<lambda>(hx, m, ls, visiting, name, visited). 2 * card (set ls - insert name visiting) + 1)
             (\<lambda>(hx, m, ls, visiting, flds, visited). 2 * card (set ls - visiting)),
    case_sum (\<lambda>_. 0) (\<lambda>(hx, m, ls, visiting, flds, visited). length flds)]"
    by simp
qed auto

fun cycles_loop ::
    "hex_codec \<Rightarrow> module \<Rightarrow> string list \<Rightarrow> struct_def list \<Rightarrow> string set \<Rightarrow> verification_error list" where
  "cycles_loop hx m local_structs [] visited = []"
| "cycles_loop hx m local_structs (s # ss) visited =
     (if sd_name s \<notin> visited
      then (let (visited, errors) = struct_dfs hx m local_structs {} (sd_name s) visited
            in errors @ cycles_loop hx m local_structs ss visited)
      else cycles_loop hx m local_structs ss visited)"

definition check_struct_cycles :: "hex_codec \<Rightarrow> module \<Rightarrow> verification_error list" where
  "check_struct_cycles hx m = cycles_loop hx m (map sd_name (md_structs m)) (md_structs m) {}"

section \<open>Module checks\<close>

text \<open>The field rules of one struct.\<close>

definition check_field ::
    "hex_codec \<Rightarrow> module \<Rightarrow> module_map \<Rightarrow> compiler_config \<Rightarrow> struct_def \<Rightarrow> field_def
       \<Rightarrow> verification_error list" where
  "check_field hx m deps cfg s field =
     err_if (\<not> is_valid_identifier (fd_name field) cfg)
       (InvalidIdentifier (fd_name field) (''field in struct '' @ [CHR 0x27] @ sd_name s @ [CHR 0x27])) @
     err_if (\<not> is_valid_field_type (fd_ty field)) (TupleFieldType (sd_name s) (fd_name field)) @
     validate_type_ref hx (fd_ty field) m deps
       (''field '' @ [CHR 0x27] @ fd_name field @ [CHR 0x27] @ '' in struct ''
        @ [CHR 0x27] @ sd_name s @ [CHR 0x27])"

text \<open>The loop over the structs, with the names seen so far.\<close>

fun check_structs ::
    "hex_codec \<Rightarrow> module \<Rightarrow> module_map \<Rightarrow> compiler_config \<Rightarrow> string list \<Rightarrow> struct_def list
       \<Rightarrow> verification_error list" where
  "check_structs hx m deps cfg seen [] = []"
| "check_structs hx m deps cfg seen (s # ss) =
     err_if (\<not> is_valid_identifier (sd_name s) cfg)
       (InvalidIdentifier (sd_name s) ''struct definition'') @
     err_if (sd_name s \<in> set seen) (DuplicateStructName (sd_name s)) @
     err_if (length (sd_fields s) = 0) (EmptyStruct (sd_name s)) @
     err_if (length (sd_fields s) > max_fields cfg)
       (TooManyFields (sd_name s) (length (sd_fields s)) (max_fields cfg)) @
     concat (map (check_field hx m deps cfg s) (sd_fields s)) @
     check_structs hx m deps cfg (sd_name s # seen) ss"

definition check_slot :: "fn \<Rightarrow> nat \<Rightarrow> u8 \<Rightarrow> verification_error list" where
  "check_slot f pc slot =
     err_if (slot \<ge> fn_local_count f) (SlotOutOfRange (fn_name f) pc slot (fn_local_count f))"

definition check_path :: "fn \<Rightarrow> nat \<Rightarrow> string list \<Rightarrow> verification_error list" where
  "check_path f pc path = err_if (path = []) (EmptyFieldPath (fn_name f) pc)"

definition check_jump :: "fn \<Rightarrow> nat \<Rightarrow> i32 \<Rightarrow> verification_error list" where
  "check_jump f pc offset =
     (if sint offset \<le> 0 then [BackwardJump (fn_name f) pc offset]
      else
        let target = int pc + sint offset in
        err_if (target > int (length (fn_code f)))
          (JumpOutOfBounds (fn_name f) pc (nat target) (length (fn_code f))))"

text \<open>The shared rule of \<open>NewStruct\<close> and \<open>UnpackStruct\<close>: a local struct with exactly its fields.\<close>

definition check_struct_instr ::
    "hex_codec \<Rightarrow> module \<Rightarrow> fn \<Rightarrow> nat \<Rightarrow> string \<Rightarrow> string list \<Rightarrow> verification_error list" where
  "check_struct_instr hx m f pc type_name field_names =
     (if parse_module_ref hx type_name \<noteq> None
      then [CrossModuleStructAccess (fn_name f) pc type_name]
      else case get_struct m type_name of
        None \<Rightarrow> [UndefinedStructType (fn_name f) pc type_name]
      | Some def \<Rightarrow>
          err_if (map fd_name (sd_fields def) \<noteq> field_names)
            (StructFieldMismatch (fn_name f) pc type_name))"

definition check_call_visibility ::
    "hex_codec \<Rightarrow> module_map \<Rightarrow> fn \<Rightarrow> nat \<Rightarrow> string \<Rightarrow> verification_error list" where
  "check_call_visibility hx deps f pc name =
     (case parse_module_ref hx name of
        None \<Rightarrow> []
      | Some (dep_addr, callee_name) \<Rightarrow>
          (case map_of deps dep_addr of
             None \<Rightarrow> []
           | Some dep_mod \<Rightarrow>
               (case get_function dep_mod callee_name of
                  None \<Rightarrow> []
                | Some callee \<Rightarrow>
                    err_if (\<not> fn_is_public callee)
                      (CrossModuleCallToPrivateFunction (fn_name f) pc name))))"

definition check_tuple_size :: "compiler_config \<Rightarrow> fn \<Rightarrow> nat \<Rightarrow> verification_error list" where
  "check_tuple_size cfg f n =
     err_if (n > unat (max_tuple_elements cfg))
       (TupleTooLarge (fn_name f) n (unat (max_tuple_elements cfg)))"

fun check_instr ::
    "hex_codec \<Rightarrow> module \<Rightarrow> module_map \<Rightarrow> compiler_config \<Rightarrow> fn \<Rightarrow> nat \<Rightarrow> instruction
       \<Rightarrow> verification_error list" where
  "check_instr hx m deps cfg f pc (Load slot) = check_slot f pc slot"
| "check_instr hx m deps cfg f pc (Store slot) = check_slot f pc slot"
| "check_instr hx m deps cfg f pc (LoadField slot path) = check_slot f pc slot @ check_path f pc path"
| "check_instr hx m deps cfg f pc (StoreField slot path) = check_slot f pc slot @ check_path f pc path"
| "check_instr hx m deps cfg f pc (Jump offset) = check_jump f pc offset"
| "check_instr hx m deps cfg f pc (JumpIf offset) = check_jump f pc offset"
| "check_instr hx m deps cfg f pc (JumpIfNot offset) = check_jump f pc offset"
| "check_instr hx m deps cfg f pc (NewStruct type_name field_names) =
     check_struct_instr hx m f pc type_name field_names"
| "check_instr hx m deps cfg f pc (Call name) = check_call_visibility hx deps f pc name"
| "check_instr hx m deps cfg f pc (UnpackStruct type_name field_names) =
     check_struct_instr hx m f pc type_name field_names"
| "check_instr hx m deps cfg f pc (MakeTuple n) = check_tuple_size cfg f (unat n)"
| "check_instr hx m deps cfg f pc (UnpackTuple n) = check_tuple_size cfg f (unat n)"
| "check_instr hx m deps cfg f pc _ = []"

definition check_code ::
    "hex_codec \<Rightarrow> module \<Rightarrow> module_map \<Rightarrow> compiler_config \<Rightarrow> fn \<Rightarrow> verification_error list" where
  "check_code hx m deps cfg f =
     concat (map (\<lambda>(pc, instr). check_instr hx m deps cfg f pc instr) (enumerate 0 (fn_code f)))"

text \<open>The declaration of one function: identifier, types, limits.\<close>

definition check_signature ::
    "hex_codec \<Rightarrow> module \<Rightarrow> module_map \<Rightarrow> compiler_config \<Rightarrow> string list \<Rightarrow> fn
       \<Rightarrow> verification_error list" where
  "check_signature hx m deps cfg seen f =
     err_if (\<not> is_valid_identifier (fn_name f) cfg \<or> fn_name f \<in> set RESERVED_FUNCTION_NAMES
             \<or> fn_name f \<in> set (reserved_function_names cfg))
       (InvalidIdentifier (fn_name f) ''function definition'') @
     err_if (fn_name f \<in> set seen) (DuplicateFunctionName (fn_name f)) @
     concat (map (\<lambda>(param_name, param_ty). validate_type_ref hx param_ty m deps
       (''param '' @ [CHR 0x27] @ param_name @ [CHR 0x27] @ '' of function ''
        @ [CHR 0x27] @ fn_name f @ [CHR 0x27])) (fn_params f)) @
     (case fn_return_type f of
        Some ret_ty \<Rightarrow> validate_type_ref hx ret_ty m deps
          (''return type of function '' @ [CHR 0x27] @ fn_name f @ [CHR 0x27])
      | None \<Rightarrow> []) @
     (case fn_return_type f of
        Some (TTuple types) \<Rightarrow> check_tuple_size cfg f (length types)
      | _ \<Rightarrow> []) @
     err_if (unat (fn_local_count f) < length (fn_params f))
       (LocalCountTooSmall (fn_name f) (fn_local_count f) (length (fn_params f))) @
     err_if (length (fn_params f) > unat (max_params cfg))
       (TooManyParams (fn_name f) (length (fn_params f)) (unat (max_params cfg))) @
     err_if (length (fn_code f) > max_fun_code_size cfg)
       (FunctionTooLarge (fn_name f) (length (fn_code f)) (max_fun_code_size cfg)) @
     err_if (fn_local_count f > max_locals cfg)
       (TooManyLocals (fn_name f) (fn_local_count f) (max_locals cfg))"

fun check_functions ::
    "hex_codec \<Rightarrow> module \<Rightarrow> module_map \<Rightarrow> compiler_config \<Rightarrow> string list \<Rightarrow> fn list
       \<Rightarrow> verification_error list" where
  "check_functions hx m deps cfg seen [] = []"
| "check_functions hx m deps cfg seen (f # fs) =
     check_signature hx m deps cfg seen f @
     check_code hx m deps cfg f @
     check_functions hx m deps cfg (fn_name f # seen) fs"

definition check_module ::
    "hex_codec \<Rightarrow> module \<Rightarrow> module_map \<Rightarrow> compiler_config \<Rightarrow> verification_error list" where
  "check_module hx m deps cfg =
     err_if (\<not> is_valid_identifier (md_name m) cfg)
       (InvalidIdentifier (md_name m) ''module declaration'') @
     err_if (length (md_structs m) > max_structs cfg)
       (TooManyStructs (length (md_structs m)) (max_structs cfg)) @
     err_if (length (md_functions m) > max_functions cfg)
       (TooManyFunctions (length (md_functions m)) (max_functions cfg)) @
     err_if (length (md_imports m) > max_imports cfg)
       (TooManyImports (length (md_imports m)) (max_imports cfg)) @
     check_structs hx m deps cfg [] (md_structs m) @
     check_struct_cycles hx m @
     check_functions hx m deps cfg [] (md_functions m)"

section \<open>The cycle check is exact\<close>

text \<open>The reference graph between local structs.\<close>

definition struct_edges :: "hex_codec \<Rightarrow> module \<Rightarrow> (string \<times> string) set" where
  "struct_edges hx m =
     {(s, t). \<exists>field \<in> set (struct_fields_of m s).
        local_struct_ref hx (set (map sd_name (md_structs m))) field = Some t}"

text \<open>A set of structs is settled when it is closed under references and free of cycles.\<close>

definition settled :: "(string \<times> string) set \<Rightarrow> string set \<Rightarrow> bool" where
  "settled E V \<longleftrightarrow> E `` V \<subseteq> V \<and> acyclic (E \<inter> V \<times> V)"

lemma settled_insert:
  assumes "settled E V" "x \<notin> V" "E `` {x} \<subseteq> V"
  shows "settled E (insert x V)"
proof -
  let ?R = "E \<inter> insert x V \<times> insert x V"
  have "(y, z) \<in> ?R\<^sup>+ \<Longrightarrow> z \<in> V \<and> (y \<in> V \<longrightarrow> (y, z) \<in> (E \<inter> V \<times> V)\<^sup>+)" for y z
  proof (induction rule: trancl.induct)
    case (r_into_trancl y z)
    then show ?case using assms unfolding settled_def by auto
  next
    case (trancl_into_trancl y z u)
    then have "(z, u) \<in> E \<inter> V \<times> V" using assms(1) unfolding settled_def by auto
    with trancl_into_trancl.IH show ?case by (meson IntD2 SigmaE2 trancl.trancl_into_trancl)
  qed
  then have "acyclic ?R"
    using assms unfolding settled_def acyclic_def by blast
  then show ?thesis using assms unfolding settled_def by auto
qed

lemma dfs_sound:
  "struct_dfs hx m ls visiting name visited = (visited', []) \<Longrightarrow>
      ls = map sd_name (md_structs m) \<Longrightarrow> settled (struct_edges hx m) visited \<Longrightarrow>
      name \<notin> visiting \<Longrightarrow> visited \<inter> visiting = {} \<Longrightarrow> name \<notin> visited \<Longrightarrow>
      settled (struct_edges hx m) visited' \<and> insert name visited \<subseteq> visited' \<and>
      visited' \<inter> visiting = {}"
  "dfs_fields hx m ls visiting flds visited = (visited', []) \<Longrightarrow>
      ls = map sd_name (md_structs m) \<Longrightarrow> settled (struct_edges hx m) visited \<Longrightarrow>
      visited \<inter> visiting = {} \<Longrightarrow>
      settled (struct_edges hx m) visited' \<and> visited \<subseteq> visited' \<and> visited' \<inter> visiting = {} \<and>
      (\<forall>field \<in> set flds. \<forall>t. local_struct_ref hx (set ls) field = Some t \<longrightarrow> t \<in> visited')"
proof (induction hx m ls visiting name visited and hx m ls visiting flds visited
    arbitrary: visited' and visited' rule: struct_dfs_dfs_fields.induct)
  case (1 hx m ls visiting name visited)
  then obtain v1 where v1: "dfs_fields hx m ls (insert name visiting) (struct_fields_of m name) visited = (v1, [])"
    and visited': "visited' = insert name v1"
    by (auto split: prod.splits)
  have "visited \<inter> insert name visiting = {}" using 1(6,7) by simp
  from 1(1) [OF v1 1(3,4) this]
  have IH: "settled (struct_edges hx m) v1" "visited \<subseteq> v1" "v1 \<inter> insert name visiting = {}"
    "struct_edges hx m `` {name} \<subseteq> v1"
    using 1(3) by (auto simp: struct_edges_def)
  then show ?case
    using settled_insert [of _ v1 name] 1(5) visited' by auto
next
  case (2 hx m ls visiting visited)
  then show ?case by simp
next
  case (3 hx m ls visiting field flds visited)
  show ?case
  proof (cases "local_struct_ref hx (set ls) field")
    case None
    then show ?thesis using 3(1) [OF None _ 3(7-9)] 3(6) by simp
  next
    case (Some t)
    consider (visiting) "t \<in> visiting" | (fresh) "t \<notin> visiting" "t \<notin> visited"
      | (seen) "t \<notin> visiting" "t \<in> visited" by blast
    then show ?thesis
    proof cases
      case visiting
      then show ?thesis using 3(6) Some by (auto split: prod.splits)
    next
      case fresh
      then obtain v1 where v1: "struct_dfs hx m ls visiting t visited = (v1, [])"
        and fl: "dfs_fields hx m ls visiting flds v1 = (visited', [])"
        using 3(6) Some by (auto split: prod.splits)
      have IH: "settled (struct_edges hx m) v1" "insert t visited \<subseteq> v1" "v1 \<inter> visiting = {}"
        using 3(3) [OF Some fresh v1 3(7,8) fresh(1) 3(9) fresh(2)] by auto
      show ?thesis
        using 3(4) [OF Some fresh v1 [symmetric] refl fl 3(7) IH(1,3)] IH(2) Some by auto
    next
      case seen
      then show ?thesis using 3(5) [OF Some seen(1) _ _ 3(7-9)] 3(6) Some by auto
    qed
  qed
qed

lemma dfs_complete:
  "ls = map sd_name (md_structs m) \<Longrightarrow> acyclic (struct_edges hx m) \<Longrightarrow>
     \<forall>v \<in> visiting. (v, name) \<in> (struct_edges hx m)\<^sup>* \<Longrightarrow>
     snd (struct_dfs hx m ls visiting name visited) = []"
  "ls = map sd_name (md_structs m) \<Longrightarrow> acyclic (struct_edges hx m) \<Longrightarrow>
     \<exists>n. (\<forall>v \<in> visiting. (v, n) \<in> (struct_edges hx m)\<^sup>*) \<and> set flds \<subseteq> set (struct_fields_of m n) \<Longrightarrow>
     snd (dfs_fields hx m ls visiting flds visited) = []"
proof (induction hx m ls visiting name visited and hx m ls visiting flds visited
    rule: struct_dfs_dfs_fields.induct)
  case (1 hx m ls visiting name visited)
  then have "snd (dfs_fields hx m ls (insert name visiting) (struct_fields_of m name) visited) = []"
    by (intro 1(1)) auto
  then show ?case by (auto split: prod.splits)
next
  case (3 hx m ls visiting field flds visited)
  from 3(8) obtain n where n: "\<forall>v \<in> visiting. (v, n) \<in> (struct_edges hx m)\<^sup>*"
    "set (field # flds) \<subseteq> set (struct_fields_of m n)" by blast
  then have ex: "\<exists>n. (\<forall>v \<in> visiting. (v, n) \<in> (struct_edges hx m)\<^sup>*) \<and>
      set flds \<subseteq> set (struct_fields_of m n)" by auto
  show ?case
  proof (cases "local_struct_ref hx (set ls) field")
    case None
    then show ?thesis using 3(1) [OF None 3(6,7) ex] by simp
  next
    case (Some t)
    then have "(n, t) \<in> struct_edges hx m" using n 3(6) by (auto simp: struct_edges_def)
    then have path: "\<forall>v \<in> visiting. (v, t) \<in> (struct_edges hx m)\<^sup>+"
      using n(1) by (meson rtrancl_into_trancl1)
    then have fresh: "t \<notin> visiting" using 3(7) by (auto simp: acyclic_def)
    have rest: "snd (dfs_fields hx m ls visiting flds v) = []" if "t \<in> visited \<Longrightarrow> v = visited"
      "t \<notin> visited \<Longrightarrow> v = fst (struct_dfs hx m ls visiting t visited)" for v
    proof (cases "t \<in> visited")
      case True
      then show ?thesis using 3(5) [OF Some fresh _ 3(6,7) ex] that(1) by simp
    next
      case False
      show ?thesis
        using 3(4) [OF Some fresh False _ _ 3(6,7) ex,
            of "struct_dfs hx m ls visiting t visited" v
               "snd (struct_dfs hx m ls visiting t visited)"] that(2) [OF False] by simp
    qed
    show ?thesis
    proof (cases "t \<in> visited")
      case True
      then show ?thesis using Some fresh rest by simp
    next
      case False
      have "snd (struct_dfs hx m ls visiting t visited) = []"
        using 3(3) [OF Some fresh False 3(6,7)] path by (auto intro: trancl_into_rtrancl)
      moreover have "snd (dfs_fields hx m ls visiting flds
          (fst (struct_dfs hx m ls visiting t visited))) = []"
        using rest False by simp
      ultimately show ?thesis using Some fresh False by (auto split: prod.splits)
    qed
  qed
qed simp

lemma cycles_loop_sound:
  "cycles_loop hx m (map sd_name (md_structs m)) ss visited = [] \<Longrightarrow>
     settled (struct_edges hx m) visited \<Longrightarrow>
     \<exists>V. settled (struct_edges hx m) V \<and> visited \<union> sd_name ` set ss \<subseteq> V"
proof (induction ss arbitrary: visited)
  case Nil
  then show ?case by auto
next
  case (Cons s ss)
  show ?case
  proof (cases "sd_name s \<in> visited")
    case True
    then show ?thesis using Cons.IH [of visited] Cons.prems by auto
  next
    case False
    then obtain v1 where v1: "struct_dfs hx m (map sd_name (md_structs m)) {} (sd_name s) visited = (v1, [])"
      and rest: "cycles_loop hx m (map sd_name (md_structs m)) ss v1 = []"
      using Cons.prems(1) by (auto split: prod.splits)
    then have "settled (struct_edges hx m) v1" "insert (sd_name s) visited \<subseteq> v1"
      using dfs_sound(1) [OF v1 refl Cons.prems(2)] False by auto
    then show ?thesis using Cons.IH [OF rest] by auto
  qed
qed

lemma cycles_loop_complete:
  "acyclic (struct_edges hx m) \<Longrightarrow>
     cycles_loop hx m (map sd_name (md_structs m)) ss visited = []"
proof (induction ss arbitrary: visited)
  case (Cons s ss)
  then have "snd (struct_dfs hx m (map sd_name (md_structs m)) {} (sd_name s) visited) = []"
    by (intro dfs_complete(1)) simp_all
  with Cons show ?case
    by (cases "struct_dfs hx m (map sd_name (md_structs m)) {} (sd_name s) visited") simp
qed simp

lemma struct_edges_names:
  "struct_edges hx m \<subseteq> sd_name ` set (md_structs m) \<times> sd_name ` set (md_structs m)"
proof
  fix p
  assume "p \<in> struct_edges hx m"
  then obtain s t fd where p: "p = (s, t)" "fd \<in> set (struct_fields_of m s)"
    "local_struct_ref hx (set (map sd_name (md_structs m))) fd = Some t"
    by (auto simp: struct_edges_def)
  from p(2) obtain d where "get_struct m s = Some d"
    by (cases "get_struct m s") (simp_all add: struct_fields_of_def)
  then have "s \<in> sd_name ` set (md_structs m)" using get_struct_SomeD by blast
  moreover have "t \<in> sd_name ` set (md_structs m)" using local_struct_ref_mem [OF p(3)] by simp
  ultimately show "p \<in> sd_name ` set (md_structs m) \<times> sd_name ` set (md_structs m)"
    by (simp add: p(1))
qed

text \<open>C6. The cycle check is exact: it reports nothing if and only if the reference graph between the
  local structs of the module has no cycle.\<close>

theorem check_struct_cycles_iff:
  "check_struct_cycles hx m = [] \<longleftrightarrow> acyclic (struct_edges hx m)"
proof
  assume "check_struct_cycles hx m = []"
  then obtain V where V: "settled (struct_edges hx m) V" "sd_name ` set (md_structs m) \<subseteq> V"
    using cycles_loop_sound [of hx m "md_structs m" "{}"]
    by (auto simp: check_struct_cycles_def settled_def acyclic_def)
  then have "struct_edges hx m \<inter> V \<times> V = struct_edges hx m"
    using struct_edges_names by blast
  then show "acyclic (struct_edges hx m)" using V(1) by (simp add: settled_def)
qed (simp add: check_struct_cycles_def cycles_loop_complete)

section \<open>What an empty error list establishes\<close>

lemma check_structs_all:
  "check_structs hx m deps cfg seen ss = [] \<Longrightarrow>
     distinct (map sd_name ss) \<and> set seen \<inter> set (map sd_name ss) = {} \<and>
     (\<forall>s \<in> set ss. is_valid_identifier (sd_name s) cfg \<and> sd_fields s \<noteq> [] \<and>
        length (sd_fields s) \<le> max_fields cfg \<and>
        (\<forall>f \<in> set (sd_fields s). check_field hx m deps cfg s f = []))"
proof (induction ss arbitrary: seen)
  case (Cons s ss)
  then have rest: "check_structs hx m deps cfg (sd_name s # seen) ss = []" by simp
  show ?case using Cons.prems Cons.IH [OF rest] by (simp add: not_less)
qed simp

lemma check_functions_all:
  "check_functions hx m deps cfg seen fs = [] \<Longrightarrow>
     distinct (map fn_name fs) \<and> set seen \<inter> set (map fn_name fs) = {} \<and>
     (\<forall>f \<in> set fs. \<exists>seen. check_signature hx m deps cfg seen f = [] \<and> check_code hx m deps cfg f = [])"
proof (induction fs arbitrary: seen)
  case (Cons f fs)
  then have rest: "check_functions hx m deps cfg (fn_name f # seen) fs = []"
    and f: "check_signature hx m deps cfg seen f = []" "check_code hx m deps cfg f = []" by simp_all
  moreover from f(1) have "fn_name f \<notin> set seen" by (simp add: check_signature_def)
  ultimately show ?case using Cons.IH [OF rest] by auto
qed simp

lemma check_module_structs:
  "check_module hx m deps cfg = [] \<Longrightarrow> s \<in> set (md_structs m) \<Longrightarrow> f \<in> set (sd_fields s) \<Longrightarrow>
     check_field hx m deps cfg s f = []"
  using check_structs_all [of hx m deps cfg "[]" "md_structs m"] by (simp add: check_module_def)

lemma check_module_signature:
  "check_module hx m deps cfg = [] \<Longrightarrow> f \<in> set (md_functions m) \<Longrightarrow>
     \<exists>seen. check_signature hx m deps cfg seen f = []"
  using check_functions_all [of hx m deps cfg "[]" "md_functions m"] by (auto simp: check_module_def)

lemma check_module_instr:
  assumes "check_module hx m deps cfg = []" "f \<in> set (md_functions m)" "pc < length (fn_code f)"
  shows "check_instr hx m deps cfg f pc (fn_code f ! pc) = []"
proof -
  have "check_code hx m deps cfg f = []"
    using assms(1,2) check_functions_all [of hx m deps cfg "[]" "md_functions m"]
    by (auto simp: check_module_def)
  moreover have "(pc, fn_code f ! pc) \<in> set (enumerate 0 (fn_code f))"
    using assms(3) by (simp add: in_set_enumerate_eq)
  ultimately show ?thesis by (force simp: check_code_def)
qed

end
