(* ===== verification/Verifier_AbsInt.thy ===== *)
theory Verifier_AbsInt
  imports Verifier_Structural
begin

text \<open>
  Phase 2 of the bytecode verifier, abstract interpretation of one function
  (\<open>meow-vm-bytecode-verifier/src/abstract_interpretation.rs\<close>), and the entry point \<open>verify\<close>
  (\<open>lib.rs\<close>).  Abstract stacks are lists whose head is the top; \<open>pending\<close> is a map from
  program counters to states.  Every operation returns the errors it pushes.
\<close>

section \<open>Abstract types and states\<close>

datatype atype =
    ABool
  | AU64
  | AAddress
  | AStr
  | AStruct string
  | AVoid
  | ATuple "atype list"

fun display_name :: "atype \<Rightarrow> string" where
  "display_name ABool = ''bool''"
| "display_name AU64 = ''u64''"
| "display_name AAddress = ''address''"
| "display_name AStr = ''str''"
| "display_name (AStruct n) = ''struct('' @ n @ '')''"
| "display_name AVoid = ''void''"
| "display_name (ATuple ts) = ''('' @ join_with '', '' (map display_name ts) @ '')''"

fun atype_is_linear :: "atype \<Rightarrow> bool" where
  "atype_is_linear (AStruct _) = True"
| "atype_is_linear (ATuple ts) = list_ex atype_is_linear ts"
| "atype_is_linear ABool = False"
| "atype_is_linear AU64 = False"
| "atype_is_linear AAddress = False"
| "atype_is_linear AStr = False"
| "atype_is_linear AVoid = False"

fun from_type :: "vtype \<Rightarrow> atype" where
  "from_type TBool = ABool"
| "from_type TU64 = AU64"
| "from_type TAddress = AAddress"
| "from_type TStr = AStr"
| "from_type (TStruct n) = AStruct n"
| "from_type (TTuple ts) = ATuple (map from_type ts)"

definition is_astruct :: "atype \<Rightarrow> bool" where
  "is_astruct t = (case t of AStruct _ \<Rightarrow> True | _ \<Rightarrow> False)"

datatype slot_state = Live atype | Dead

definition live_linear :: "slot_state \<Rightarrow> bool" where
  "live_linear s = (case s of Live t \<Rightarrow> atype_is_linear t | Dead \<Rightarrow> False)"

record abs_state =
  as_stack :: "atype list"
  as_locals :: "slot_state list"
  as_reachable :: bool

definition abs_state_new :: "nat \<Rightarrow> abs_state" where
  "abs_state_new n = \<lparr>as_stack = [], as_locals = replicate n Dead, as_reachable = True\<rparr>"

definition as_push :: "atype \<Rightarrow> abs_state \<Rightarrow> abs_state" where
  "as_push t st = st\<lparr>as_stack := t # as_stack st\<rparr>"

definition as_pop :: "abs_state \<Rightarrow> atype option \<times> abs_state" where
  "as_pop st = (case as_stack st of [] \<Rightarrow> (None, st) | t # ts \<Rightarrow> (Some t, st\<lparr>as_stack := ts\<rparr>))"

definition as_peek :: "abs_state \<Rightarrow> atype option" where
  "as_peek st = (case as_stack st of [] \<Rightarrow> None | t # _ \<Rightarrow> Some t)"

text \<open>\<open>for _ in xs { state.pop(); }\<close>.\<close>

definition as_pop_many :: "nat \<Rightarrow> abs_state \<Rightarrow> abs_state" where
  "as_pop_many n st = st\<lparr>as_stack := drop n (as_stack st)\<rparr>"

text \<open>Pushes in list order: the last one ends on top.\<close>

definition as_push_all :: "atype list \<Rightarrow> abs_state \<Rightarrow> abs_state" where
  "as_push_all ts st = st\<lparr>as_stack := rev ts @ as_stack st\<rparr>"

section \<open>Merging states at join points\<close>

text \<open>The loop over the local slots from slot \<open>i\<close>.\<close>

fun merge_locals ::
    "string \<Rightarrow> nat \<Rightarrow> nat \<Rightarrow> slot_state list \<Rightarrow> slot_state list
       \<Rightarrow> slot_state list option \<times> verification_error list" where
  "merge_locals f join_pc i (a # as) (b # bs) =
     (if a = b then
        (let (r, errs) = merge_locals f join_pc (Suc i) as bs in (map_option ((#) a) r, errs))
      else if live_linear a \<noteq> live_linear b then
        (None, [LivenessMergeConflict f join_pc (word_of_nat i)])
      else if live_linear a \<and> live_linear b then
        (None, [SlotTypeMergeConflict f join_pc (word_of_nat i)])
      else
        (let (r, errs) = merge_locals f join_pc (Suc i) as bs in (map_option ((#) Dead) r, errs)))"
| "merge_locals f join_pc i [] bs = (Some [], [])"
| "merge_locals f join_pc i as [] = (Some as, [])"

definition merge ::
    "abs_state \<Rightarrow> abs_state \<Rightarrow> nat \<Rightarrow> string \<Rightarrow> abs_state option \<times> verification_error list" where
  "merge current incoming join_pc f =
     (if \<not> as_reachable incoming then (Some current, [])
      else if \<not> as_reachable current then (Some incoming, [])
      else if as_stack current \<noteq> as_stack incoming then (None, [StackMergeConflict f join_pc])
      else
        (let (ls, errs) = merge_locals f join_pc 0 (as_locals current) (as_locals incoming) in
         (map_option (\<lambda>ls. current\<lparr>as_locals := ls\<rparr>) ls, errs)))"

type_synonym pending = "nat \<Rightarrow> abs_state option"

definition merge_at ::
    "pending \<Rightarrow> nat \<Rightarrow> abs_state \<Rightarrow> string \<Rightarrow> pending \<times> verification_error list" where
  "merge_at pending target incoming f =
     (case pending target of
        None \<Rightarrow> (pending(target := Some incoming), [])
      | Some cur \<Rightarrow>
          (case merge cur incoming target f of
             (Some merged, errs) \<Rightarrow> (pending(target := Some merged), errs)
           | (None, errs) \<Rightarrow> (pending, errs)))"

section \<open>Fields and type matching\<close>

definition resolve_field_type :: "hex_codec \<Rightarrow> atype \<Rightarrow> string \<Rightarrow> module \<Rightarrow> atype option" where
  "resolve_field_type hx ty field_name m =
     (case ty of
        AStruct type_name \<Rightarrow>
          if parse_module_ref hx type_name \<noteq> None then None
          else Option.bind (get_struct m type_name) (\<lambda>def.
                 map_option (\<lambda>fd. from_type (fd_ty fd)) (find_field field_name (sd_fields def)))
      | _ \<Rightarrow> None)"

fun resolve_field_path_type :: "hex_codec \<Rightarrow> atype \<Rightarrow> string list \<Rightarrow> module \<Rightarrow> atype option" where
  "resolve_field_path_type hx ty [] m = Some ty"
| "resolve_field_path_type hx ty (step # path) m =
     Option.bind (resolve_field_type hx ty step m) (\<lambda>t. resolve_field_path_type hx t path m)"

text \<open>The caller fills in the function and the program counter.\<close>

definition check_field_read_visibility ::
    "hex_codec \<Rightarrow> string \<Rightarrow> nat \<Rightarrow> atype \<Rightarrow> string \<Rightarrow> verification_error list" where
  "check_field_read_visibility hx f pc ty field_name =
     (case ty of
        AStruct type_name \<Rightarrow>
          err_if (parse_module_ref hx type_name \<noteq> None)
            (CrossModulePrivateFieldRead f pc type_name field_name)
      | _ \<Rightarrow> [])"

definition types_compatible :: "atype \<Rightarrow> atype \<Rightarrow> bool" where
  "types_compatible a b = (a = b)"

fun native_param_matches :: "hex_codec \<Rightarrow> native_param \<Rightarrow> atype \<Rightarrow> bool" where
  "native_param_matches hx (Concrete t) ty = (from_type t = ty)"
| "native_param_matches hx AnyStruct ty = is_astruct ty"
| "native_param_matches hx LocalStruct ty =
     (case ty of AStruct n \<Rightarrow> parse_module_ref hx n = None | _ \<Rightarrow> False)"

fun native_param_display :: "native_param \<Rightarrow> string" where
  "native_param_display (Concrete t) = display_name (from_type t)"
| "native_param_display AnyStruct = ''any struct''"
| "native_param_display LocalStruct = ''local struct''"

fun qualify_type :: "hex_codec \<Rightarrow> vtype \<Rightarrow> address \<Rightarrow> vtype" where
  "qualify_type hx (TStruct n) addr =
     (if parse_module_ref hx n = None then TStruct (qualify hx addr n) else TStruct n)"
| "qualify_type hx (TTuple ts) addr = TTuple (map (\<lambda>t. qualify_type hx t addr) ts)"
| "qualify_type hx TBool addr = TBool"
| "qualify_type hx TU64 addr = TU64"
| "qualify_type hx TAddress addr = TAddress"
| "qualify_type hx TStr addr = TStr"

section \<open>Transfer functions\<close>

type_synonym ai_result = "abs_state \<times> verification_error list"

definition ai_load :: "string \<Rightarrow> nat \<Rightarrow> u8 \<Rightarrow> abs_state \<Rightarrow> ai_result" where
  "ai_load f pc slot st =
     (let i = unat slot in
      if i \<ge> length (as_locals st) then (st, [])
      else case as_locals st ! i of
        Dead \<Rightarrow> (st, [UseAfterMoveV f pc slot])
      | Live ty \<Rightarrow>
          if atype_is_linear ty
          then (as_push ty (st\<lparr>as_locals := (as_locals st)[i := Dead]\<rparr>), [])
          else (as_push ty st, []))"

definition ai_store :: "string \<Rightarrow> nat \<Rightarrow> u8 \<Rightarrow> abs_state \<Rightarrow> ai_result" where
  "ai_store f pc slot st =
     (let i = unat slot in
      if i \<ge> length (as_locals st) then (st, [])
      else case as_pop st of
        (None, st) \<Rightarrow> (st, [StackUnderflowV f pc ''any''])
      | (Some v, st) \<Rightarrow>
          (st\<lparr>as_locals := (as_locals st)[i := Live v]\<rparr>,
           err_if (live_linear (as_locals st ! i)) (SlotOverwriteV f pc slot)))"

definition ai_load_field ::
    "hex_codec \<Rightarrow> module \<Rightarrow> string \<Rightarrow> nat \<Rightarrow> u8 \<Rightarrow> string list \<Rightarrow> abs_state \<Rightarrow> ai_result" where
  "ai_load_field hx m f pc slot path st =
     (let i = unat slot in
      if i \<ge> length (as_locals st) then (st, [])
      else case as_locals st ! i of
        Dead \<Rightarrow> (st, [UseAfterMoveV f pc slot])
      | Live root_ty \<Rightarrow>
          if path = [] then (st, [])
          else
            let terminal_ty = (case resolve_field_path_type hx root_ty path m of
                                 Some t \<Rightarrow> t | None \<Rightarrow> AAddress)
            in (as_push terminal_ty st,
                check_field_read_visibility hx f pc root_ty (hd path) @
                err_if (is_astruct terminal_ty) (StructTypedFieldLoaded f pc (last path))))"

definition ai_store_field ::
    "hex_codec \<Rightarrow> module \<Rightarrow> string \<Rightarrow> nat \<Rightarrow> u8 \<Rightarrow> string list \<Rightarrow> abs_state \<Rightarrow> ai_result" where
  "ai_store_field hx m f pc slot path st =
     (let i = unat slot in
      if i \<ge> length (as_locals st) then (st, [])
      else case as_pop st of
        (None, st) \<Rightarrow> (st, [StackUnderflowV f pc ''value to store''])
      | (Some v, st) \<Rightarrow>
          (case as_locals st ! i of
             Dead \<Rightarrow> (st, [UseAfterMoveV f pc slot])
           | Live root_ty \<Rightarrow>
               if path = [] then (st, [])
               else
                 (st,
                  case root_ty of
                    AStruct n \<Rightarrow>
                      if parse_module_ref hx n \<noteq> None then [CrossModuleFieldWrite f pc n (hd path)]
                      else (case resolve_field_path_type hx root_ty path m of
                              None \<Rightarrow> []
                            | Some expected_ty \<Rightarrow>
                                if is_astruct expected_ty then [StructTypedFieldWritten f pc (last path)]
                                else err_if (\<not> types_compatible v expected_ty)
                                       (TypeMismatch f pc (display_name expected_ty) (display_name v)))
                  | _ \<Rightarrow>
                      (case resolve_field_path_type hx root_ty path m of
                         None \<Rightarrow> []
                       | Some expected_ty \<Rightarrow>
                           if is_astruct expected_ty then [StructTypedFieldWritten f pc (last path)]
                           else err_if (\<not> types_compatible v expected_ty)
                                  (TypeMismatch f pc (display_name expected_ty) (display_name v))))))"

text \<open>Pop one operand and compare it with the expected type.\<close>

definition ai_expect :: "string \<Rightarrow> nat \<Rightarrow> atype \<Rightarrow> string \<Rightarrow> abs_state \<Rightarrow> ai_result" where
  "ai_expect f pc t what st =
     (case as_pop st of
        (None, st) \<Rightarrow> (st, [StackUnderflowV f pc what])
      | (Some ty, st) \<Rightarrow> (st, err_if (ty \<noteq> t) (TypeMismatch f pc (display_name t) (display_name ty))))"

text \<open>\<open>for side in ["right operand", "left operand"]\<close>, then a push of the result type.\<close>

definition ai_binop :: "string \<Rightarrow> nat \<Rightarrow> atype \<Rightarrow> atype \<Rightarrow> abs_state \<Rightarrow> ai_result" where
  "ai_binop f pc operand res st =
     (let (st, e1) = ai_expect f pc operand ''right operand'' st;
          (st, e2) = ai_expect f pc operand ''left operand'' st
      in (as_push res st, e1 @ e2))"

definition ai_eq :: "string \<Rightarrow> nat \<Rightarrow> abs_state \<Rightarrow> ai_result" where
  "ai_eq f pc st =
     (let (r, st) = as_pop st;
          (l, st) = as_pop st
      in (as_push ABool st,
          case (l, r) of
            (Some lt, Some rt) \<Rightarrow>
              if atype_is_linear lt \<or> atype_is_linear rt then [EqOnLinearTypeV f pc]
              else err_if (lt \<noteq> rt) (TypeMismatch f pc (display_name lt) (display_name rt))
          | _ \<Rightarrow> [StackUnderflowV f pc ''two comparable values'']))"

text \<open>The field loop of \<open>NewStruct\<close>, over the fields in the order they are popped.\<close>

fun ai_pop_fields :: "string \<Rightarrow> nat \<Rightarrow> field_def list \<Rightarrow> abs_state \<Rightarrow> ai_result" where
  "ai_pop_fields f pc [] st = (st, [])"
| "ai_pop_fields f pc (fd # fds) st =
     (let (ty, st) = as_pop st;
          errs = (case ty of
                    None \<Rightarrow> [StackUnderflowV f pc (''field '' @ [CHR 0x27] @ fd_name fd @ [CHR 0x27])]
                  | Some ty \<Rightarrow>
                      err_if (\<not> types_compatible ty (from_type (fd_ty fd)))
                        (TypeMismatch f pc (display_name (from_type (fd_ty fd))) (display_name ty)));
          (st, errs') = ai_pop_fields f pc fds st
      in (st, errs @ errs'))"

definition ai_new_struct ::
    "hex_codec \<Rightarrow> module \<Rightarrow> string \<Rightarrow> nat \<Rightarrow> string \<Rightarrow> string list \<Rightarrow> abs_state \<Rightarrow> ai_result" where
  "ai_new_struct hx m f pc type_name field_names st =
     (if parse_module_ref hx type_name \<noteq> None then (as_pop_many (length field_names) st, [])
      else case get_struct m type_name of
        Some def \<Rightarrow>
          (let (st, errs) = ai_pop_fields f pc (rev (sd_fields def)) st
           in (as_push (AStruct type_name) st, errs))
      | None \<Rightarrow> (as_push (AStruct type_name) (as_pop_many (length field_names) st), []))"

definition ai_get_field ::
    "hex_codec \<Rightarrow> module \<Rightarrow> string \<Rightarrow> nat \<Rightarrow> string \<Rightarrow> abs_state \<Rightarrow> ai_result" where
  "ai_get_field hx m f pc field_name st =
     (case as_pop st of
        (None, st) \<Rightarrow> (st, [StackUnderflowV f pc ''struct''])
      | (Some ty, st) \<Rightarrow>
          (case ty of
             AStruct type_name \<Rightarrow>
               (let field_ty = (case resolve_field_type hx ty field_name m of
                                  Some t \<Rightarrow> t | None \<Rightarrow> AAddress)
                in (as_push field_ty st,
                    check_field_read_visibility hx f pc ty field_name @
                    (if is_astruct field_ty then [StructTypedFieldLoaded f pc field_name]
                     else case get_struct m type_name of
                       None \<Rightarrow> []
                     | Some def \<Rightarrow>
                         (case find (\<lambda>fd. is_astruct (from_type (fd_ty fd))) (sd_fields def) of
                            None \<Rightarrow> []
                          | Some linear_field \<Rightarrow>
                              [GetFieldDropsLinearField f pc type_name (fd_name linear_field)]))))
           | other \<Rightarrow>
               (as_push AAddress st, [TypeMismatch f pc ''struct'' (display_name other)])))"

definition ai_pop :: "string \<Rightarrow> nat \<Rightarrow> abs_state \<Rightarrow> ai_result" where
  "ai_pop f pc st =
     (case as_pop st of
        (None, st) \<Rightarrow> (st, [StackUnderflowV f pc ''any''])
      | (Some ty, st) \<Rightarrow> (st, err_if (atype_is_linear ty) (PopOnStruct f pc)))"

definition ai_dup :: "string \<Rightarrow> nat \<Rightarrow> abs_state \<Rightarrow> ai_result" where
  "ai_dup f pc st =
     (case as_peek st of
        None \<Rightarrow> (st, [StackUnderflowV f pc ''any''])
      | Some ty \<Rightarrow> if atype_is_linear ty then (st, [DupOnStruct f pc]) else (as_push ty st, []))"

definition ai_unpack_struct ::
    "hex_codec \<Rightarrow> module \<Rightarrow> string \<Rightarrow> nat \<Rightarrow> string \<Rightarrow> string list \<Rightarrow> abs_state \<Rightarrow> ai_result" where
  "ai_unpack_struct hx m f pc type_name field_names st =
     (if parse_module_ref hx type_name \<noteq> None
      then (as_push_all (map (\<lambda>_. AU64) field_names) (snd (as_pop st)), [])
      else case as_pop st of
        (None, st) \<Rightarrow> (st, [StackUnderflowV f pc ''struct''])
      | (Some ty, st) \<Rightarrow>
          if ty = AStruct type_name then
            (case get_struct m type_name of
               Some def \<Rightarrow> (as_push_all (map (\<lambda>fd. from_type (fd_ty fd)) (rev (sd_fields def))) st, [])
             | None \<Rightarrow> (as_push_all (map (\<lambda>_. AU64) field_names) st, []))
          else
            (as_push_all (map (\<lambda>_. AU64) field_names) st,
             [TypeMismatch f pc (''struct('' @ type_name @ '')'') (display_name ty)]))"

definition ai_make_tuple :: "string \<Rightarrow> nat \<Rightarrow> u8 \<Rightarrow> abs_state \<Rightarrow> ai_result" where
  "ai_make_tuple f pc n st =
     (let n = unat n in
      if length (as_stack st) < n
      then (st\<lparr>as_stack := []\<rparr>, [StackUnderflowV f pc (show_nat n @ '' values for MakeTuple'')])
      else (as_push (ATuple (rev (take n (as_stack st)))) (as_pop_many n st), []))"

definition ai_unpack_tuple :: "string \<Rightarrow> nat \<Rightarrow> u8 \<Rightarrow> abs_state \<Rightarrow> ai_result" where
  "ai_unpack_tuple f pc n st =
     (let n = unat n in
      case as_pop st of
        (None, st) \<Rightarrow> (st, [StackUnderflowV f pc ''tuple''])
      | (Some ty, st) \<Rightarrow>
          (case ty of
             ATuple ts \<Rightarrow>
               if length ts \<noteq> n
               then (st, [TypeMismatch f pc (''tuple of size '' @ show_nat n)
                            (''tuple of size '' @ show_nat (length ts))])
               else (as_push_all (rev ts) st, [])
           | other \<Rightarrow>
               (as_push_all (replicate n AU64) st, [TypeMismatch f pc ''tuple'' (display_name other)])))"

section \<open>Calls and returns\<close>

definition pop_and_check_params ::
    "(string \<times> vtype) list \<Rightarrow> string \<Rightarrow> nat \<Rightarrow> string \<Rightarrow> abs_state \<Rightarrow> ai_result" where
  "pop_and_check_params params callee pc f st =
     (let n = length params in
      if length (as_stack st) < n
      then (as_pop_many (length (as_stack st)) st,
            [StackUnderflowV f pc (show_nat n @ '' args for '' @ [CHR 0x27] @ callee @ [CHR 0x27])])
      else
        let args = rev (take n (as_stack st)) in
        (as_pop_many n st,
         concat (map (\<lambda>((_, expected_ty), actual).
             err_if (\<not> types_compatible actual (from_type expected_ty))
               (TypeMismatch f pc (display_name (from_type expected_ty)) (display_name actual)))
           (zip params args))))"

definition push_return_type :: "vtype option \<Rightarrow> abs_state \<Rightarrow> abs_state" where
  "push_return_type rt st =
     as_push (case rt of Some ty \<Rightarrow> from_type ty | None \<Rightarrow> AVoid) st"

definition find_native :: "native_sig list \<Rightarrow> string \<Rightarrow> native_sig option" where
  "find_native natives name = find (\<lambda>n. ns_name n = name) natives"

text \<open>The native branch of \<open>check_call\<close>.\<close>

definition check_native_call ::
    "hex_codec \<Rightarrow> native_sig \<Rightarrow> string \<Rightarrow> nat \<Rightarrow> string \<Rightarrow> abs_state \<Rightarrow> ai_result" where
  "check_native_call hx native name pc f st =
     (let expected = length (ns_params native) in
      if length (as_stack st) < expected
      then (push_return_type (ns_return_type native) (as_pop_many (length (as_stack st)) st),
            [NativeArgCountMismatch f pc name expected (length (as_stack st))])
      else
        let args = rev (take expected (as_stack st)) in
        (push_return_type (ns_return_type native) (as_pop_many expected st),
         concat (map (\<lambda>(i, param, ty).
             err_if (\<not> native_param_matches hx param ty)
               (NativeArgTypeMismatch f pc name i (native_param_display param) (display_name ty)))
           (enumerate 0 (zip (ns_params native) args)))))"

definition check_call ::
    "hex_codec \<Rightarrow> string \<Rightarrow> nat \<Rightarrow> string \<Rightarrow> module \<Rightarrow> module_map \<Rightarrow> native_sig list \<Rightarrow> abs_state
       \<Rightarrow> ai_result" where
  "check_call hx name pc f m deps natives st =
     (case parse_module_ref hx name of
        Some (dep_addr, callee_name) \<Rightarrow>
          (case Option.bind (map_of deps dep_addr) (\<lambda>dep_mod. get_function dep_mod callee_name) of
             Some callee \<Rightarrow>
               (let params = map (\<lambda>(n, t). (n, qualify_type hx t dep_addr)) (fn_params callee);
                    ret = map_option (\<lambda>t. qualify_type hx t dep_addr) (fn_return_type callee);
                    (st, errs) = pop_and_check_params params name pc f st
                in (push_return_type ret st, errs))
           | None \<Rightarrow> (st, [UndefinedFunctionV f pc name]))
      | None \<Rightarrow>
          (case get_function m name of
             Some callee \<Rightarrow>
               (let (st, errs) = pop_and_check_params (fn_params callee) name pc f st
                in (push_return_type (fn_return_type callee) st, errs))
           | None \<Rightarrow>
               (case find_native natives name of
                  Some native \<Rightarrow> check_native_call hx native name pc f st
                | None \<Rightarrow> (st, [UndefinedFunctionV f pc name]))))"

text \<open>Slots from \<open>i\<close> on that still hold a linear value.\<close>

definition unconsumed :: "string \<Rightarrow> nat \<Rightarrow> slot_state list \<Rightarrow> verification_error list" where
  "unconsumed f i locals =
     concat (map (\<lambda>(slot, local). err_if (live_linear local) (UnconsumedStruct f (word_of_nat slot)))
       (enumerate i locals))"

definition check_return :: "fn \<Rightarrow> abs_state \<Rightarrow> verification_error list" where
  "check_return func st =
     (case fn_return_type func of
        None \<Rightarrow>
          (case as_peek st of
             None \<Rightarrow> []
           | Some t \<Rightarrow> err_if (t \<noteq> AVoid)
                         (ReturnTypeMismatch (fn_name func) ''void'' (display_name t)))
      | Some declared \<Rightarrow>
          (case as_peek st of
             None \<Rightarrow> [ReturnTypeMismatch (fn_name func) (display_name (from_type declared)) ''empty stack'']
           | Some actual \<Rightarrow>
               err_if (\<not> types_compatible actual (from_type declared))
                 (ReturnTypeMismatch (fn_name func) (display_name (from_type declared))
                    (display_name actual)))) @
     err_if (length (as_stack st) > 1 \<and> list_ex atype_is_linear (tl (as_stack st)))
       (UnconsumedStructOnStack (fn_name func)) @
     unconsumed (fn_name func) 0 (as_locals st)"

section \<open>The function checker\<close>

text \<open>One reachable instruction, up to the merge a jump makes.\<close>

fun ai_instr ::
    "hex_codec \<Rightarrow> module \<Rightarrow> module_map \<Rightarrow> native_sig list \<Rightarrow> fn \<Rightarrow> nat \<Rightarrow> instruction \<Rightarrow> abs_state
       \<Rightarrow> ai_result" where
  "ai_instr hx m deps ns func pc (PushBool _) st = (as_push ABool st, [])"
| "ai_instr hx m deps ns func pc (PushU64 _) st = (as_push AU64 st, [])"
| "ai_instr hx m deps ns func pc (PushAddress _) st = (as_push AAddress st, [])"
| "ai_instr hx m deps ns func pc (PushStr _) st = (as_push AStr st, [])"
| "ai_instr hx m deps ns func pc (Load slot) st = ai_load (fn_name func) pc slot st"
| "ai_instr hx m deps ns func pc (Store slot) st = ai_store (fn_name func) pc slot st"
| "ai_instr hx m deps ns func pc (LoadField slot path) st =
     ai_load_field hx m (fn_name func) pc slot path st"
| "ai_instr hx m deps ns func pc (StoreField slot path) st =
     ai_store_field hx m (fn_name func) pc slot path st"
| "ai_instr hx m deps ns func pc Add st = ai_binop (fn_name func) pc AU64 AU64 st"
| "ai_instr hx m deps ns func pc Sub st = ai_binop (fn_name func) pc AU64 AU64 st"
| "ai_instr hx m deps ns func pc Mul st = ai_binop (fn_name func) pc AU64 AU64 st"
| "ai_instr hx m deps ns func pc Div st = ai_binop (fn_name func) pc AU64 AU64 st"
| "ai_instr hx m deps ns func pc Mod st = ai_binop (fn_name func) pc AU64 AU64 st"
| "ai_instr hx m deps ns func pc Eq st = ai_eq (fn_name func) pc st"
| "ai_instr hx m deps ns func pc Ne st = ai_eq (fn_name func) pc st"
| "ai_instr hx m deps ns func pc Lt st = ai_binop (fn_name func) pc AU64 ABool st"
| "ai_instr hx m deps ns func pc Le st = ai_binop (fn_name func) pc AU64 ABool st"
| "ai_instr hx m deps ns func pc Gt st = ai_binop (fn_name func) pc AU64 ABool st"
| "ai_instr hx m deps ns func pc Ge st = ai_binop (fn_name func) pc AU64 ABool st"
| "ai_instr hx m deps ns func pc NotB st =
     (let (st, errs) = ai_expect (fn_name func) pc ABool ''bool'' st in (as_push ABool st, errs))"
| "ai_instr hx m deps ns func pc And st = ai_binop (fn_name func) pc ABool ABool st"
| "ai_instr hx m deps ns func pc Or st = ai_binop (fn_name func) pc ABool ABool st"
| "ai_instr hx m deps ns func pc (NewStruct type_name field_names) st =
     ai_new_struct hx m (fn_name func) pc type_name field_names st"
| "ai_instr hx m deps ns func pc (GetField field) st = ai_get_field hx m (fn_name func) pc field st"
| "ai_instr hx m deps ns func pc (UnpackStruct type_name field_names) st =
     ai_unpack_struct hx m (fn_name func) pc type_name field_names st"
| "ai_instr hx m deps ns func pc Pop st = ai_pop (fn_name func) pc st"
| "ai_instr hx m deps ns func pc Dup st = ai_dup (fn_name func) pc st"
| "ai_instr hx m deps ns func pc (Jump _) st = (st, [])"
| "ai_instr hx m deps ns func pc (JumpIf _) st = ai_expect (fn_name func) pc ABool ''bool'' st"
| "ai_instr hx m deps ns func pc (JumpIfNot _) st = ai_expect (fn_name func) pc ABool ''bool'' st"
| "ai_instr hx m deps ns func pc (Call name) st = check_call hx name pc (fn_name func) m deps ns st"
| "ai_instr hx m deps ns func pc Return st = (st\<lparr>as_reachable := False\<rparr>, check_return func st)"
| "ai_instr hx m deps ns func pc (MakeTuple n) st = ai_make_tuple (fn_name func) pc n st"
| "ai_instr hx m deps ns func pc (UnpackTuple n) st = ai_unpack_tuple (fn_name func) pc n st"

fun jump_offset :: "instruction \<Rightarrow> i32 option" where
  "jump_offset (Jump offset) = Some offset"
| "jump_offset (JumpIf offset) = Some offset"
| "jump_offset (JumpIfNot offset) = Some offset"
| "jump_offset _ = None"

fun is_uncond_jump :: "instruction \<Rightarrow> bool" where
  "is_uncond_jump (Jump _) = True"
| "is_uncond_jump _ = False"

text \<open>A whole instruction: a forward jump sends the state to its target, and an unconditional one
  leaves the next instruction unreachable.\<close>

definition ai_step ::
    "hex_codec \<Rightarrow> module \<Rightarrow> module_map \<Rightarrow> native_sig list \<Rightarrow> fn \<Rightarrow> nat \<Rightarrow> instruction
       \<Rightarrow> abs_state \<Rightarrow> pending \<Rightarrow> abs_state \<times> pending \<times> verification_error list" where
  "ai_step hx m deps ns func pc instr st pending =
     (let (st, errs) = ai_instr hx m deps ns func pc instr st;
          (pending, errs') =
            (case jump_offset instr of
               None \<Rightarrow> (pending, [])
             | Some offset \<Rightarrow>
                 if sint offset > 0
                 then merge_at pending (nat (int pc + sint offset)) st (fn_name func)
                 else (pending, []))
      in (if is_uncond_jump instr then st\<lparr>as_reachable := False\<rparr> else st, pending, errs @ errs'))"

text \<open>The state in which an instruction is reached: a state waiting for it is merged in.\<close>

definition ai_enter ::
    "string \<Rightarrow> nat \<Rightarrow> abs_state \<Rightarrow> pending \<Rightarrow> abs_state option \<times> verification_error list" where
  "ai_enter f pc st pending =
     (case pending pc of
        None \<Rightarrow> (Some st, [])
      | Some incoming \<Rightarrow> merge st incoming pc f)"

text \<open>The loop over the code; a failed merge breaks out of it.\<close>

fun ai_loop ::
    "hex_codec \<Rightarrow> module \<Rightarrow> module_map \<Rightarrow> native_sig list \<Rightarrow> fn \<Rightarrow> nat \<Rightarrow> instruction list
       \<Rightarrow> abs_state \<Rightarrow> pending \<Rightarrow> abs_state \<times> pending \<times> verification_error list" where
  "ai_loop hx m deps ns func pc [] st pending = (st, pending, [])"
| "ai_loop hx m deps ns func pc (instr # code) st pending =
     (let (merged, errs) = ai_enter (fn_name func) pc st pending;
          pending = pending(pc := None)
      in case merged of
           None \<Rightarrow> (st, pending, errs)
         | Some st \<Rightarrow>
             if \<not> as_reachable st then
               (let (st, pending, errs') = ai_loop hx m deps ns func (Suc pc) code st pending
                in (st, pending, errs @ errs'))
             else
               (let (st, pending, errs1) = ai_step hx m deps ns func pc instr st pending;
                    (st, pending, errs2) = ai_loop hx m deps ns func (Suc pc) code st pending
                in (st, pending, errs @ errs1 @ errs2)))"

definition initial_abs_state :: "fn \<Rightarrow> abs_state" where
  "initial_abs_state func =
     (let st = abs_state_new (unat (fn_local_count func)) in
      st\<lparr>as_locals := map (\<lambda>(_, ty). Live (from_type ty)) (fn_params func)
                       @ drop (length (fn_params func)) (as_locals st)\<rparr>)"

definition check_function ::
    "hex_codec \<Rightarrow> fn \<Rightarrow> module \<Rightarrow> module_map \<Rightarrow> native_sig list \<Rightarrow> verification_error list" where
  "check_function hx func m deps ns =
     (if unat (fn_local_count func) < length (fn_params func) then []
      else
        let (st, pending, errs) =
              ai_loop hx m deps ns func 0 (fn_code func) (initial_abs_state func) (\<lambda>_. None);
            jump_to_end = pending (length (fn_code func))
        in errs @
           (if as_reachable st \<or> jump_to_end \<noteq> None
            then MissingReturn (fn_name func) #
                 (case jump_to_end of
                    None \<Rightarrow> []
                  | Some escaped \<Rightarrow>
                      unconsumed (fn_name func) (length (fn_params func))
                        (drop (length (fn_params func)) (as_locals escaped)))
            else []))"

section \<open>The verifier\<close>

definition verify ::
    "hex_codec \<Rightarrow> module \<Rightarrow> module_map \<Rightarrow> native_sig list \<Rightarrow> compiler_config
       \<Rightarrow> verification_error list + unit" where
  "verify hx m deps natives cfg =
     (let all_natives = builtin_natives @ natives;
          errors = check_module hx m deps cfg @
                   concat (map (\<lambda>func. check_function hx func m deps all_natives) (md_functions m))
      in if errors = [] then Ok () else Err errors)"

lemma verify_Inr_iff:
  "verify hx m deps natives cfg = Inr u \<longleftrightarrow>
     check_module hx m deps cfg = [] \<and>
     (\<forall>f \<in> set (md_functions m). check_function hx f m deps (builtin_natives @ natives) = [])"
  by (auto simp: verify_def Let_def)

end
