(* ===== verification/Conformance.thy ===== *)
theory Conformance
  imports Vm_Props Verifier_AbsInt
begin

text \<open>
  When a run-time value conforms to an abstract type, and a frame to an abstract state.  A struct
  value conforms to a struct type when its qualified name denotes the same struct of the program
  and its fields are those of the definition, each conforming to its declared type; a struct of a
  module outside the program is opaque.  One instruction that the abstract interpreter accepts is
  then shown to preserve conformance or to stop for a benign reason.
\<close>

section \<open>Values\<close>

type_synonym program = "address \<Rightarrow> module option"

text \<open>The struct a type name denotes in the module at address \<open>a\<close>.\<close>

definition resolve_name :: "hex_codec \<Rightarrow> address \<Rightarrow> string \<Rightarrow> address \<times> string" where
  "resolve_name hx a n = (case parse_module_ref hx n of Some ref \<Rightarrow> ref | None \<Rightarrow> (a, n))"

definition struct_of :: "program \<Rightarrow> address \<times> string \<Rightarrow> struct_def option" where
  "struct_of P ref = Option.bind (P (fst ref)) (\<lambda>m. get_struct m (snd ref))"

inductive conf :: "hex_codec \<Rightarrow> program \<Rightarrow> address \<Rightarrow> val \<Rightarrow> atype \<Rightarrow> bool"
  for hx :: hex_codec and P :: program where
  conf_bool: "conf hx P a (VBool b) ABool"
| conf_u64: "conf hx P a (VU64 n) AU64"
| conf_address: "conf hx P a (VAddress x) AAddress"
| conf_str: "conf hx P a (VStr s) AStr"
| conf_void: "conf hx P a VVoid AVoid"
| conf_tuple: "list_all2 (conf hx P a) vs ts \<Longrightarrow> conf hx P a (VTuple vs) (ATuple ts)"
| conf_struct:
    "parse_module_ref hx tn = Some (resolve_name hx a n) \<Longrightarrow>
     struct_of P (resolve_name hx a n) = Some sd \<Longrightarrow>
     map fst flds = map fd_name (sd_fields sd) \<Longrightarrow>
     list_all2 (\<lambda>kv fd. conf hx P (fst (resolve_name hx a n)) (snd kv) (from_type (fd_ty fd)))
       flds (sd_fields sd) \<Longrightarrow>
     conf hx P a (VStruct tn flds) (AStruct n)"
| conf_opaque:
    "parse_module_ref hx tn = Some (resolve_name hx a n) \<Longrightarrow>
     struct_of P (resolve_name hx a n) = None \<Longrightarrow>
     conf hx P a (VStruct tn flds) (AStruct n)"

inductive_simps conf_type_simps [conf_simps]:
  "conf hx P a v ABool"
  "conf hx P a v AU64"
  "conf hx P a v AAddress"
  "conf hx P a v AStr"
  "conf hx P a v AVoid"
  "conf hx P a v (ATuple ts)"

inductive_simps conf_struct_iff: "conf hx P a v (AStruct n)"

inductive_cases conf_VStructE: "conf hx P a (VStruct tn flds) t"

lemma conf_linear: "conf hx P a v t \<Longrightarrow> value_is_linear v = atype_is_linear t"
proof (induction rule: conf.induct)
  case (conf_tuple a vs ts)
  then show ?case
    by (induction vs ts rule: list_all2_induct) auto
qed auto

lemma struct_of_local: "P a = Some m \<Longrightarrow> struct_of P (a, n) = get_struct m n"
  by (simp add: struct_of_def)

text \<open>A value of a local struct type: the definition is known.\<close>

lemma conf_local_structE:
  assumes "conf hx P a v (AStruct n)" "parse_module_ref hx n = None" "P a = Some m"
    "get_struct m n = Some sd"
  obtains tn flds where "v = VStruct tn flds" "parse_module_ref hx tn = Some (a, n)"
    "map fst flds = map fd_name (sd_fields sd)"
    "list_all2 (\<lambda>kv fd. conf hx P a (snd kv) (from_type (fd_ty fd))) flds (sd_fields sd)"
  using assms by (auto simp: conf_struct_iff resolve_name_def struct_of_local)

lemma conf_local_structI:
  assumes "parse_module_ref hx tn = Some (a, n)" "parse_module_ref hx n = None" "P a = Some m"
    "get_struct m n = Some sd" "map fst flds = map fd_name (sd_fields sd)"
    "list_all2 (\<lambda>kv fd. conf hx P a (snd kv) (from_type (fd_ty fd))) flds (sd_fields sd)"
  shows "conf hx P a (VStruct tn flds) (AStruct n)"
  using assms by (intro conf_struct) (simp_all add: resolve_name_def struct_of_local)

text \<open>Types cross a module boundary by qualification: a value conforms to the callee's declared
  type, read in the callee, exactly when it conforms to the qualified type, read in the caller.\<close>

lemma conf_qualify:
  assumes "prefix_hex_ok hx"
  shows "conf hx P a v (from_type (qualify_type hx t b)) \<longleftrightarrow> conf hx P b v (from_type t)"
proof (induction t arbitrary: v)
  case (TStruct n)
  have "parse_module_ref hx (qualify hx b n) = Some (b, n)"
    using prefix_hex.parse_of_qualified [OF prefix_hex.intro [OF assms]] .
  then have "resolve_name hx a (case qualify_type hx (TStruct n) b of TStruct n' \<Rightarrow> n') = resolve_name hx b n"
    by (simp add: resolve_name_def split: option.splits)
  then show ?case by (auto simp: conf_struct_iff)
next
  case (TTuple ts)
  have "list_all2 (conf hx P a) vs (map (from_type \<circ> (\<lambda>t. qualify_type hx t b)) ts) =
        list_all2 (conf hx P b) vs (map from_type ts)" for vs
    using TTuple
    by (auto simp: list_all2_conv_all_nth)
  then show ?case by (simp add: conf_simps)
qed (simp_all add: conf_simps)

section \<open>Fields\<close>

lemma find_field_map_of:
  assumes "find_field n fds = Some fd" "map fst flds = map fd_name fds"
    "list_all2 (\<lambda>kv fd. Q (snd kv) fd) flds fds"
  shows "\<exists>v. map_of flds n = Some v \<and> Q v fd"
  using assms
proof (induction fds arbitrary: flds)
  case Nil
  then show ?case by (simp add: find_field_def)
next
  case (Cons x fds)
  then obtain v kvs where "flds = (fd_name x, v) # kvs" by (cases flds) auto
  with Cons show ?case by (auto simp: find_field_def split: if_splits)
qed

lemma set_field_conf:
  assumes "find_field n fds = Some fd" "map fst flds = map fd_name fds"
    "list_all2 (\<lambda>kv fd. Q (snd kv) fd) flds fds" "Q v fd"
  shows "map fst (set_field n v flds) = map fd_name fds \<and>
    list_all2 (\<lambda>kv fd. Q (snd kv) fd) (set_field n v flds) fds"
  using assms
proof (induction fds arbitrary: flds)
  case Nil
  then show ?case by (simp add: find_field_def)
next
  case (Cons x fds)
  then obtain w kvs where "flds = (fd_name x, w) # kvs" by (cases flds) auto
  with Cons show ?case by (auto simp: find_field_def split: if_splits)
qed

lemma resolve_field_type_SomeE:
  assumes "resolve_field_type hx t f m = Some t'"
  obtains n sd fd where "t = AStruct n" "parse_module_ref hx n = None" "get_struct m n = Some sd"
    "find_field f (sd_fields sd) = Some fd" "t' = from_type (fd_ty fd)"
proof (cases t)
  case (AStruct n)
  with assms have "parse_module_ref hx n = None"
    by (cases "parse_module_ref hx n") (simp_all add: resolve_field_type_def)
  with AStruct assms that show ?thesis
    by (auto simp: resolve_field_type_def split: bind_splits)
qed (use assms in \<open>simp_all add: resolve_field_type_def\<close>)

lemma read_field_path_conf:
  assumes "P a = Some m"
  shows "resolve_field_path_type hx t path m = Some t' \<Longrightarrow> conf hx P a v t \<Longrightarrow>
    \<exists>v'. read_field_path i v path = Inr v' \<and> conf hx P a v' t'"
proof (induction path arbitrary: t v i)
  case (Cons f path)
  then obtain t1 where t1: "resolve_field_type hx t f m = Some t1"
    "resolve_field_path_type hx t1 path m = Some t'"
    by (auto split: bind_splits)
  from t1(1) obtain n sd fd where n: "t = AStruct n" "parse_module_ref hx n = None"
    "get_struct m n = Some sd" "find_field f (sd_fields sd) = Some fd" "t1 = from_type (fd_ty fd)"
    by (rule resolve_field_type_SomeE)
  with Cons.prems(2) assms obtain tn flds where v: "v = VStruct tn flds"
    "map fst flds = map fd_name (sd_fields sd)"
    "list_all2 (\<lambda>kv fd. conf hx P a (snd kv) (from_type (fd_ty fd))) flds (sd_fields sd)"
    by (metis conf_local_structE)
  then obtain w where "map_of flds f = Some w" "conf hx P a w t1"
    using find_field_map_of [OF n(4) v(2), of "\<lambda>v fd. conf hx P a v (from_type (fd_ty fd))"] n(5)
    by blast
  then show ?case using Cons.IH [OF t1(2)] v(1) by simp
qed simp

text \<open>A field write keeps the type of the root when the terminal field has a non-linear type.\<close>

lemma write_field_path_conf:
  assumes "P a = Some m"
  shows "resolve_field_path_type hx t path m = Some t' \<Longrightarrow> path \<noteq> [] \<Longrightarrow> \<not> atype_is_linear t' \<Longrightarrow>
    conf hx P a x t' \<Longrightarrow> conf hx P a v t \<Longrightarrow>
    \<exists>v'. write_field_path i v path x = Inr v' \<and> conf hx P a v' t"
proof (induction path arbitrary: t v i)
  case (Cons f path)
  then obtain t1 where t1: "resolve_field_type hx t f m = Some t1"
    "resolve_field_path_type hx t1 path m = Some t'"
    by (auto split: bind_splits)
  from t1(1) obtain n sd fd where n: "t = AStruct n" "parse_module_ref hx n = None"
    "get_struct m n = Some sd" "find_field f (sd_fields sd) = Some fd" "t1 = from_type (fd_ty fd)"
    by (rule resolve_field_type_SomeE)
  from Cons.prems(5) n assms obtain tn flds where v: "v = VStruct tn flds"
    "parse_module_ref hx tn = Some (a, n)" "map fst flds = map fd_name (sd_fields sd)"
    "list_all2 (\<lambda>kv fd. conf hx P a (snd kv) (from_type (fd_ty fd))) flds (sd_fields sd)"
    by (metis conf_local_structE)
  obtain w where w: "map_of flds f = Some w" "conf hx P a w t1"
    using find_field_map_of [OF n(4) v(3,4)] n(5) by blast
  have upd: "conf hx P a (VStruct tn (set_field f y flds)) t" if "conf hx P a y t1" for y
    using set_field_conf [OF n(4) v(3), of "\<lambda>v fd. conf hx P a v (from_type (fd_ty fd))" y]
      conf_local_structI [where P = P, OF v(2) n(2) assms n(3)] v(4) n(1,5) that by simp
  show ?case
  proof (cases path)
    case Nil
    then have "t1 = t'" using t1(2) by simp
    then show ?thesis
      using Nil v(1) w upd Cons.prems(3,4) conf_linear [OF w(2)] by simp
  next
    case (Cons g rest)
    then show ?thesis
      using Cons.IH [OF t1(2) _ Cons.prems(3,4) w(2), of "Suc i"] v(1) w(1) upd by fastforce
  qed
qed simp

section \<open>Frames\<close>

text \<open>A dead slot may still hold a value, but never a linear one.\<close>

definition conf_slot :: "hex_codec \<Rightarrow> program \<Rightarrow> address \<Rightarrow> val option \<Rightarrow> slot_state \<Rightarrow> bool" where
  "conf_slot hx P a vo s =
     (case s of
        Live t \<Rightarrow> (\<exists>v. vo = Some v \<and> conf hx P a v t)
      | Dead \<Rightarrow> (\<forall>v. vo = Some v \<longrightarrow> \<not> value_is_linear v))"

lemma conf_slot_simps [simp]:
  "conf_slot hx P a vo (Live t) \<longleftrightarrow> (\<exists>v. vo = Some v \<and> conf hx P a v t)"
  "conf_slot hx P a None Dead"
  "conf_slot hx P a (Some v) Dead \<longleftrightarrow> \<not> value_is_linear v"
  by (simp_all add: conf_slot_def)

definition conf_state :: "hex_codec \<Rightarrow> program \<Rightarrow> address \<Rightarrow> abs_state \<Rightarrow> frame \<Rightarrow> bool" where
  "conf_state hx P a st fr \<longleftrightarrow>
     list_all2 (conf hx P a) (fr_stack fr) (as_stack st) \<and>
     list_all2 (conf_slot hx P a) (fr_locals fr) (as_locals st)"

lemma conf_slot_linear: "conf_slot hx P a (Some v) s \<Longrightarrow> value_is_linear v = live_linear s"
  by (cases s) (auto simp: live_linear_def conf_linear)

lemma conf_slot_Dead: "conf_slot hx P a vo s \<Longrightarrow> \<not> live_linear s \<Longrightarrow> conf_slot hx P a vo Dead"
  by (cases vo) (simp_all add: conf_slot_linear)

subsection \<open>Merging keeps what either side describes\<close>

lemma merge_locals_conf:
  "merge_locals f pc i as bs = (Some ls, errs) \<Longrightarrow> length as = length bs \<Longrightarrow>
     list_all2 (conf_slot hx P a) xs as \<or> list_all2 (conf_slot hx P a) xs bs \<Longrightarrow>
     list_all2 (conf_slot hx P a) xs ls"
proof (induction f pc i as bs arbitrary: ls xs errs rule: merge_locals.induct)
  case (1 f pc i s as t bs)
  then obtain x xs' where xs: "xs = x # xs'" by (cases xs) auto
  from 1(3) obtain ls' l errs' where
    ls: "merge_locals f pc (Suc i) as bs = (Some ls', errs')" "ls = l # ls'"
    and l: "s = t \<and> l = s \<or> l = Dead \<and> \<not> live_linear s \<and> \<not> live_linear t"
    by (auto split: if_splits prod.splits)
  have "list_all2 (conf_slot hx P a) xs' ls'"
  proof (cases "s = t")
    case True
    then show ?thesis using 1(1) [OF True ls(1)] 1(4,5) xs by auto
  next
    case False
    then have "\<not> (live_linear s \<noteq> live_linear t)" "\<not> (live_linear s \<and> live_linear t)"
      using l by auto
    then show ?thesis using 1(2) [OF False _ _ ls(1)] 1(4,5) xs by auto
  qed
  moreover have "conf_slot hx P a x l"
    using l 1(5) xs conf_slot_Dead by auto
  ultimately show ?case using ls xs by simp
qed auto

text \<open>\<open>Reaching\<close> a frame: the state is reachable and describes it.\<close>

definition reaches :: "hex_codec \<Rightarrow> program \<Rightarrow> address \<Rightarrow> abs_state \<Rightarrow> frame \<Rightarrow> bool" where
  "reaches hx P a st fr \<longleftrightarrow> as_reachable st \<and> conf_state hx P a st fr"

lemma merge_reaches:
  assumes "merge cur inc pc f = (Some st, errs)"
    "length (as_locals cur) = length (as_locals inc)"
    "reaches hx P a cur fr \<or> reaches hx P a inc fr"
  shows "reaches hx P a st fr"
proof -
  consider "\<not> as_reachable inc" "st = cur" | "as_reachable inc" "\<not> as_reachable cur" "st = inc"
    | ls where "as_reachable inc" "as_reachable cur" "as_stack cur = as_stack inc"
      "merge_locals f pc 0 (as_locals cur) (as_locals inc) = (Some ls, errs)"
      "st = cur\<lparr>as_locals := ls\<rparr>"
    using assms(1) by (auto simp: merge_def split: if_splits prod.splits)
  then show ?thesis
  proof cases
    case 3
    then show ?thesis
      using merge_locals_conf [OF 3(4) assms(2), of hx P a "fr_locals fr"] assms(3)
      by (auto simp: reaches_def conf_state_def)
  qed (use assms(3) in \<open>auto simp: reaches_def\<close>)
qed

lemma merge_locals_length:
  "merge_locals f pc i as bs = (Some ls, errs) \<Longrightarrow> length as = length bs \<Longrightarrow> length ls = length as"
  by (induction f pc i as bs arbitrary: ls errs rule: merge_locals.induct)
    (auto split: if_splits prod.splits)

lemma merge_length:
  "merge cur inc pc f = (Some st, errs) \<Longrightarrow> length (as_locals cur) = length (as_locals inc) \<Longrightarrow>
     length (as_locals st) = length (as_locals cur)"
  by (auto simp: merge_def merge_locals_length split: if_splits prod.splits)

lemma merge_no_error: "merge cur inc pc f = (None, errs) \<Longrightarrow> errs \<noteq> []"
proof -
  have "merge_locals f pc i as bs = (None, errs) \<Longrightarrow> errs \<noteq> []" for i as bs
    by (induction f pc i as bs arbitrary: errs rule: merge_locals.induct)
      (auto split: if_splits prod.splits)
  then show "merge cur inc pc f = (None, errs) \<Longrightarrow> errs \<noteq> []"
    by (auto simp: merge_def split: if_splits prod.splits)
qed

end
