(* ===== verification/Step_Soundness.thy ===== *)
theory Step_Soundness
  imports Conformance
begin

text \<open>
  One instruction accepted by the abstract interpreter, run on a frame its state describes,
  either stops for a benign reason or gives a frame the next state describes.
\<close>

section \<open>Benign stops\<close>

text \<open>The stops that verified code may still make: resource limits, the arithmetic checks and
  what natives report.\<close>

fun benign :: "vm_stop \<Rightarrow> bool" where
  "benign (VmErr (OutOfGas _ _)) = True"
| "benign (VmErr ArithmeticOverflow) = True"
| "benign (VmErr DivisionByZero) = True"
| "benign (VmErr (CallStackOverflow _)) = True"
| "benign (VmErr (Aborted _ _)) = True"
| "benign (VmErr (NativeError _)) = True"
| "benign _ = False"

definition step_ok :: "hex_codec \<Rightarrow> program \<Rightarrow> address \<Rightarrow> abs_state \<Rightarrow> vm_stop + frame \<Rightarrow> bool" where
  "step_ok hx P a st r =
     (case r of Inl e \<Rightarrow> benign e | Inr fr \<Rightarrow> conf_state hx P a st fr)"

lemma step_ok_simps [simp]:
  "step_ok hx P a st (Inl e) = benign e"
  "step_ok hx P a st (Inr fr) = conf_state hx P a st fr"
  by (simp_all add: step_ok_def)

lemma conf_state_sel [simp]:
  "conf_state hx P a st (fr\<lparr>fr_pc := pc\<rparr>) = conf_state hx P a st fr"
  "conf_state hx P a (st\<lparr>as_reachable := r\<rparr>) fr = conf_state hx P a st fr"
  by (simp_all add: conf_state_def)

lemma conf_state_push [simp]:
  "conf_state hx P a (as_push t st) (frame_push v fr) \<longleftrightarrow>
     conf hx P a v t \<and> conf_state hx P a st fr"
  by (auto simp: conf_state_def as_push_def)

lemma conf_state_stackD:
  assumes "conf_state hx P a st fr" "as_stack st = t # ts"
  obtains v vs where "fr_stack fr = v # vs" "conf hx P a v t"
    "conf_state hx P a (st\<lparr>as_stack := ts\<rparr>) (fr\<lparr>fr_stack := vs\<rparr>)"
  using assms by (auto simp: conf_state_def list_all2_Cons2)

lemma conf_state_localD:
  assumes "conf_state hx P a st fr" "i < length (as_locals st)"
  shows "i < length (fr_locals fr)" "conf_slot hx P a (fr_locals fr ! i) (as_locals st ! i)"
  using assms by (auto simp: conf_state_def list_all2_conv_all_nth)

lemma conf_state_update:
  "conf_state hx P a st fr \<Longrightarrow> conf_slot hx P a vo s \<Longrightarrow>
     conf_state hx P a (st\<lparr>as_locals := (as_locals st)[i := s]\<rparr>)
       (fr\<lparr>fr_locals := (fr_locals fr)[i := vo]\<rparr>)"
  by (simp add: conf_state_def list_all2_update_cong)

text \<open>Writing a conforming value back into a live slot leaves the state as it is.\<close>

lemma conf_state_rewrite:
  assumes "conf_state hx P a st fr" "i < length (as_locals st)" "as_locals st ! i = Live t" "conf hx P a v t"
  shows "conf_state hx P a st (fr\<lparr>fr_locals := (fr_locals fr)[i := Some v]\<rparr>)"
proof -
  have "conf_state hx P a (st\<lparr>as_locals := (as_locals st)[i := Live t]\<rparr>)
      (fr\<lparr>fr_locals := (fr_locals fr)[i := Some v]\<rparr>)"
    using conf_state_update [OF assms(1)] assms(4) by simp
  moreover have "(as_locals st)[i := Live t] = as_locals st"
    using assms(2,3) by (metis list_update_id)
  ultimately show ?thesis by simp
qed

section \<open>Slots\<close>

lemma load_ok:
  assumes "ai_load f pc slot st = (st', [])" "unat slot < length (as_locals st)"
    "conf_state hx P a st fr"
  shows "step_ok hx P a st' (exec_load slot fr)"
proof -
  note slot = conf_state_localD [OF assms(3,2)]
  obtain t where t: "as_locals st ! unat slot = Live t"
    using assms(1,2) by (cases "as_locals st ! unat slot") (auto simp: ai_load_def)
  then obtain v where v: "fr_locals fr ! unat slot = Some v" "conf hx P a v t" using slot by auto
  have upd: "conf_state hx P a (st\<lparr>as_locals := (as_locals st)[unat slot := Dead]\<rparr>)
      (fr\<lparr>fr_locals := (fr_locals fr)[unat slot := None]\<rparr>)"
    using assms(3) by (rule conf_state_update) simp
  show ?thesis
    using assms slot(1) t v upd conf_linear [OF v(2)]
    by (auto simp: ai_load_def exec_load_def Let_def split: if_splits)
qed

lemma as_pop_simps [simp]:
  "as_stack st = [] \<Longrightarrow> as_pop st = (None, st)"
  "as_stack st = t # ts \<Longrightarrow> as_pop st = (Some t, st\<lparr>as_stack := ts\<rparr>)"
  by (simp_all add: as_pop_def)

lemma store_ok:
  assumes "ai_store f pc slot st = (st', [])" "unat slot < length (as_locals st)"
    "conf_state hx P a st fr"
  shows "step_ok hx P a st' (exec_store slot fr)"
proof -
  obtain t ts where st: "as_stack st = t # ts"
    using assms(1,2) by (cases "as_stack st") (auto simp: ai_store_def Let_def)
  with assms have st': "st' = st\<lparr>as_stack := ts, as_locals := (as_locals st)[unat slot := Live t]\<rparr>"
    and dead: "\<not> live_linear (as_locals st ! unat slot)"
    by (auto simp: ai_store_def Let_def)
  obtain v vs where v: "fr_stack fr = v # vs" "conf hx P a v t"
    "conf_state hx P a (st\<lparr>as_stack := ts\<rparr>) (fr\<lparr>fr_stack := vs\<rparr>)"
    using assms(3) st by (rule conf_state_stackD)
  note slot = conf_state_localD [OF assms(3,2)]
  have "\<not> value_is_linear w" if "fr_locals fr ! unat slot = Some w" for w
    using slot(2) dead conf_slot_linear that by metis
  moreover have "conf_state hx P a st' (fr\<lparr>fr_stack := vs, fr_locals := (fr_locals fr)[unat slot := Some v]\<rparr>)"
    using conf_state_update [OF v(3), of "Some v" "Live t" "unat slot"] v(2) st' by simp
  ultimately show ?thesis
    using v(1) slot(1)
    by (auto simp: exec_store_def resize_locals_def Let_def split: option.splits)
qed

section \<open>Field paths\<close>

text \<open>
  The verifier resolves the type of a field path inside the module only.  \<open>access_resolved\<close> says
  that it succeeds for the access an instruction makes: the hypothesis the soundness theorem
  needs and the verifier does not check.
\<close>

fun access_resolved :: "hex_codec \<Rightarrow> module \<Rightarrow> instruction \<Rightarrow> abs_state \<Rightarrow> bool" where
  "access_resolved hx m (LoadField slot path) st =
     (case as_locals st ! unat slot of
        Live t \<Rightarrow> resolve_field_path_type hx t path m \<noteq> None
      | Dead \<Rightarrow> True)"
| "access_resolved hx m (StoreField slot path) st =
     (case as_locals st ! unat slot of
        Live t \<Rightarrow> resolve_field_path_type hx t path m \<noteq> None
      | Dead \<Rightarrow> True)"
| "access_resolved hx m (GetField field) st =
     (case as_stack st of
        t # _ \<Rightarrow> resolve_field_type hx t field m \<noteq> None
      | [] \<Rightarrow> True)"
| "access_resolved hx m _ st = True"

lemma local_value_ok:
  "i = unat slot \<Longrightarrow> i < length (fr_locals fr) \<Longrightarrow> fr_locals fr ! i = Some v \<Longrightarrow> local_value slot fr = Inr v"
  by (simp add: local_value_def)

lemma load_field_ok:
  assumes "ai_load_field hx m f pc slot path st = (st', [])" "unat slot < length (as_locals st)"
    "path \<noteq> []" "access_resolved hx m (LoadField slot path) st" "P a = Some m"
    "conf_state hx P a st fr"
  shows "step_ok hx P a st' (exec_load_field slot path fr)"
proof -
  note slot = conf_state_localD [OF assms(6,2)]
  obtain t where t: "as_locals st ! unat slot = Live t"
    using assms(1,2) by (cases "as_locals st ! unat slot") (auto simp: ai_load_field_def)
  then obtain v where v: "fr_locals fr ! unat slot = Some v" "conf hx P a v t" using slot by auto
  obtain t' where t': "resolve_field_path_type hx t path m = Some t'" using assms(4) t by auto
  then obtain v' where "read_field_path 0 v path = Inr v'" "conf hx P a v' t'"
    using read_field_path_conf [OF assms(5) t' v(2)] by blast
  moreover have "st' = as_push t' st"
    using assms(1-3) t t' by (simp add: ai_load_field_def Let_def)
  ultimately show ?thesis
    using assms(6) local_value_ok [OF refl slot(1) v(1)] by (simp add: exec_load_field_def)
qed

text \<open>Field types are primitives or structs, so a field that is not a struct is not linear.\<close>

definition fields_valid :: "module \<Rightarrow> bool" where
  "fields_valid m \<longleftrightarrow>
     (\<forall>s \<in> set (md_structs m). \<forall>fd \<in> set (sd_fields s). is_valid_field_type (fd_ty fd))"

lemma field_not_linear:
  "is_valid_field_type t \<Longrightarrow> \<not> is_astruct (from_type t) \<Longrightarrow> \<not> atype_is_linear (from_type t)"
  by (cases t) (auto simp: is_valid_field_type_def is_struct_type_def is_astruct_def)

lemma resolve_field_type_not_linear:
  assumes "fields_valid m" "resolve_field_type hx t f m = Some t'" "\<not> is_astruct t'"
  shows "\<not> atype_is_linear t'"
  using assms(2)
proof (rule resolve_field_type_SomeE)
  fix n sd fd
  assume "get_struct m n = Some sd" "find_field f (sd_fields sd) = Some fd" "t' = from_type (fd_ty fd)"
  then show ?thesis
    using assms(1,3) field_not_linear get_struct_SomeD find_field_SomeD
    unfolding fields_valid_def by metis
qed

lemma resolve_path_not_linear:
  assumes "fields_valid m"
  shows "resolve_field_path_type hx t path m = Some t' \<Longrightarrow> path \<noteq> [] \<Longrightarrow> \<not> is_astruct t' \<Longrightarrow>
    \<not> atype_is_linear t'"
proof (induction path arbitrary: t)
  case (Cons f path)
  then show ?case
    using resolve_field_type_not_linear [OF assms] by (cases path) (auto split: bind_splits)
qed simp

lemma store_field_ok:
  assumes "ai_store_field hx m f pc slot path st = (st', [])" "unat slot < length (as_locals st)"
    "path \<noteq> []" "access_resolved hx m (StoreField slot path) st" "P a = Some m" "fields_valid m"
    "conf_state hx P a st fr"
  shows "step_ok hx P a st' (exec_store_field slot path fr)"
proof -
  obtain x xs where st: "as_stack st = x # xs"
    using assms(1,2) by (cases "as_stack st") (auto simp: ai_store_field_def Let_def)
  obtain w ws where w: "fr_stack fr = w # ws" "conf hx P a w x"
    "conf_state hx P a (st\<lparr>as_stack := xs\<rparr>) (fr\<lparr>fr_stack := ws\<rparr>)"
    using assms(7) st by (rule conf_state_stackD)
  note slot = conf_state_localD [OF assms(7,2)]
  obtain t where t: "as_locals st ! unat slot = Live t"
    using assms(1,2) st by (cases "as_locals st ! unat slot") (auto simp: ai_store_field_def Let_def)
  then obtain v where v: "fr_locals fr ! unat slot = Some v" "conf hx P a v t" using slot by auto
  obtain t' where t': "resolve_field_path_type hx t path m = Some t'" using assms(4) t by auto
  have st': "st' = st\<lparr>as_stack := xs\<rparr>" and x: "x = t'" and ns: "\<not> is_astruct t'"
    using assms(1-3) st t t'
    by (auto simp: ai_store_field_def Let_def types_compatible_def split: atype.splits if_splits)
  then obtain v' where v': "write_field_path 0 v path w = Inr v'" "conf hx P a v' t"
    using write_field_path_conf [where P = P, OF assms(5) t' assms(3) _ _ v(2), of w 0]
      resolve_path_not_linear [OF assms(6) t' assms(3)] w(2) by blast
  have "conf_state hx P a st' (fr\<lparr>fr_stack := ws, fr_locals := (fr_locals fr)[unat slot := Some v']\<rparr>)"
    using conf_state_rewrite [OF w(3), of "unat slot" t v'] assms(2) t v'(2) st' by simp
  then show ?thesis
    using local_value_ok [of "unat slot" slot "fr\<lparr>fr_stack := ws\<rparr>" v] slot(1) v(1) v'(1) w(1)
    by (simp add: exec_store_field_def)
qed

section \<open>Operators\<close>

lemma ai_expect_Nil:
  "ai_expect f pc t what st = (st', []) \<longleftrightarrow>
     (\<exists>ts. as_stack st = t # ts \<and> st' = st\<lparr>as_stack := ts\<rparr>)"
  by (cases "as_stack st") (auto simp: ai_expect_def)

lemma ai_binop_Nil:
  "ai_binop f pc t res st = (st', []) \<longleftrightarrow>
     (\<exists>ts. as_stack st = t # t # ts \<and> st' = st\<lparr>as_stack := res # ts\<rparr>)"
proof -
  have "ai_binop f pc t res st = (st', []) \<longleftrightarrow>
     (\<exists>st1 st2. ai_expect f pc t ''right operand'' st = (st1, []) \<and>
        ai_expect f pc t ''left operand'' st1 = (st2, []) \<and> st' = as_push res st2)"
    by (auto simp: ai_binop_def split: prod.splits)
  then show ?thesis by (auto simp: ai_expect_Nil as_push_def)
qed

definition op_ok :: "hex_codec \<Rightarrow> program \<Rightarrow> address \<Rightarrow> atype \<Rightarrow> vm_stop + val \<Rightarrow> bool" where
  "op_ok hx P a t r = (case r of Inl e \<Rightarrow> benign e | Inr v \<Rightarrow> conf hx P a v t)"

lemma op_ok_simps [simp]:
  "op_ok hx P a t (Inl e) = benign e" "op_ok hx P a t (Inr v) = conf hx P a v t"
  by (simp_all add: op_ok_def)

lemma binop_ok:
  assumes "as_stack st = t2 # t1 # ts" "conf_state hx P a st fr"
    and f: "\<And>l r. conf hx P a l t1 \<Longrightarrow> conf hx P a r t2 \<Longrightarrow> op_ok hx P a res (f l r)"
  shows "step_ok hx P a (st\<lparr>as_stack := res # ts\<rparr>) (exec_binop f fr)"
proof -
  obtain r l vs where st: "fr_stack fr = r # l # vs" "conf hx P a r t2" "conf hx P a l t1"
    "list_all2 (conf hx P a) vs ts" "list_all2 (conf_slot hx P a) (fr_locals fr) (as_locals st)"
    using assms(1,2) by (auto simp: conf_state_def list_all2_Cons2)
  show ?thesis
  proof (cases "f l r")
    case (Inl e)
    then show ?thesis using st(1) f [OF st(3,2)] by (simp add: exec_binop_def)
  next
    case (Inr v)
    then show ?thesis
      using st f [OF st(3,2)] by (simp add: exec_binop_def conf_state_def)
  qed
qed

lemma binop_instr_ok:
  assumes "ai_binop f pc t res st = (st', [])" "conf_state hx P a st fr"
    "\<And>l r. conf hx P a l t \<Longrightarrow> conf hx P a r t \<Longrightarrow> op_ok hx P a res (g l r)"
  shows "step_ok hx P a st' (exec_binop g fr)"
  using assms binop_ok [of st t t _ hx P a fr res g] by (auto simp: ai_binop_Nil)

lemma arith_op_ok:
  "conf hx P a l AU64 \<Longrightarrow> conf hx P a r AU64 \<Longrightarrow> op_ok hx P a AU64 (arith_op l r f)"
  by (auto simp: arith_op_def conf_simps expect_u64_def as_u64_def op_ok_def ok_or_def
      split: option.splits)

lemma div_op_ok:
  "conf hx P a l AU64 \<Longrightarrow> conf hx P a r AU64 \<Longrightarrow> op_ok hx P a AU64 (div_op f l r)"
  using arith_op_ok by (auto simp: div_op_def)

lemma cmp_ok:
  "conf hx P a l AU64 \<Longrightarrow> conf hx P a r AU64 \<Longrightarrow>
     op_ok hx P a ABool (and_then (cmp_values l r) (\<lambda>b. Ok (VBool (g b))))"
  by (auto simp: cmp_values_def conf_simps expect_u64_def as_u64_def)

lemma bool_op_ok:
  "conf hx P a l ABool \<Longrightarrow> conf hx P a r ABool \<Longrightarrow> op_ok hx P a ABool (bool_op g l r)"
  by (auto simp: bool_op_def conf_simps expect_bool_def as_bool_def)

lemma eq_ok:
  assumes "ai_eq f pc st = (st', [])" "conf_state hx P a st fr"
  shows "step_ok hx P a st' (exec_binop (eq_op g) fr)"
proof -
  obtain t2 t1 ts where st: "as_stack st = t2 # t1 # ts" "\<not> atype_is_linear t1" "\<not> atype_is_linear t2"
    "st' = st\<lparr>as_stack := ABool # ts\<rparr>"
    using assms(1)
    by (cases "as_stack st"; cases "tl (as_stack st)")
      (auto simp: ai_eq_def as_push_def as_pop_def split: if_splits list.splits)
  have "op_ok hx P a ABool (eq_op g l r)" if "conf hx P a l t1" "conf hx P a r t2" for l r
    using st(2,3) that conf_linear by (simp add: eq_op_def conf_simps)
  then show ?thesis using binop_ok [OF st(1) assms(2)] st(4) by blast
qed

lemma not_ok:
  assumes "ai_expect f pc ABool what st = (st', [])" "conf_state hx P a st fr"
  shows "step_ok hx P a (as_push ABool st')
    (and_then (frame_pop fr) (\<lambda>(v, fr). and_then (expect_bool v) (\<lambda>b. Ok (frame_push (VBool (\<not> b)) fr))))"
proof -
  obtain ts where ts: "as_stack st = ABool # ts" "st' = st\<lparr>as_stack := ts\<rparr>"
    using assms(1) by (auto simp: ai_expect_Nil)
  from assms(2) ts(1) obtain v vs where "fr_stack fr = v # vs" "conf hx P a v ABool"
    "conf_state hx P a st' (fr\<lparr>fr_stack := vs\<rparr>)"
    unfolding ts(2) by (rule conf_state_stackD)
  then show ?thesis by (auto simp: conf_simps expect_bool_def as_bool_def)
qed

text \<open>A conditional jump that is accepted pops a boolean; both its outcomes keep the state.\<close>

lemma jump_target_forward:
  "0 < sint offset \<Longrightarrow> jump_target (Suc pc) offset = Inr (nat (int pc + sint offset))"
  by (simp add: jump_target_def Let_def)

lemma jump_cond_ok:
  assumes "ai_expect f pc ABool what st = (st', [])" "conf_state hx P a st fr" "0 < sint offset"
    "fr_pc fr = Suc pc"
  shows "\<exists>fr'. exec_jump_cond e offset fr = Inr fr' \<and> conf_state hx P a st' fr' \<and>
    (fr_pc fr' = Suc pc \<or> fr_pc fr' = nat (int pc + sint offset))"
proof -
  obtain ts where ts: "as_stack st = ABool # ts" "st' = st\<lparr>as_stack := ts\<rparr>"
    using assms(1) by (auto simp: ai_expect_Nil)
  from assms(2) ts(1) obtain v vs where "fr_stack fr = v # vs" "conf hx P a v ABool"
    "conf_state hx P a st' (fr\<lparr>fr_stack := vs\<rparr>)"
    unfolding ts(2) by (rule conf_state_stackD)
  then show ?thesis
    using assms(3,4) jump_target_forward [of offset pc]
    by (auto simp: conf_simps expect_bool_def as_bool_def exec_jump_cond_def exec_jump_def)
qed

section \<open>Structs\<close>

lemma ai_pop_fields_Nil:
  "ai_pop_fields f pc fds st = (st', []) \<longleftrightarrow>
     (\<exists>ts. as_stack st = map (\<lambda>fd. from_type (fd_ty fd)) fds @ ts \<and> st' = st\<lparr>as_stack := ts\<rparr>)"
proof (induction fds arbitrary: st)
  case (Cons fd fds)
  show ?case
  proof (cases "as_stack st")
    case Nil
    then show ?thesis by (auto split: prod.splits)
  next
    case (Cons t ts)
    then show ?thesis
      using Cons.IH [of "st\<lparr>as_stack := ts\<rparr>"]
      by (auto simp: types_compatible_def split: prod.splits)
  qed
qed auto

lemma new_struct_ok:
  assumes ai: "ai_new_struct hx m f pc tn names st = (st', [])"
    and str: "check_struct_instr hx m func pc tn names = []"
    and hx: "prefix_hex_ok hx" and P: "P a = Some m" and cs: "conf_state hx P a st fr"
  shows "step_ok hx P a st' (exec_new_struct hx vm m a tn names fr)"
proof -
  have loc: "parse_module_ref hx tn = None"
    using str by (cases "parse_module_ref hx tn") (simp_all add: check_struct_instr_def)
  then obtain sd where sd: "get_struct m tn = Some sd" "map fd_name (sd_fields sd) = names"
    using str by (auto simp: check_struct_instr_def split: option.splits)
  let ?n = "length names" and ?st = "fr_stack fr"
  have n: "?n = length (sd_fields sd)" using sd(2) by auto
  obtain st1 where "ai_pop_fields f pc (rev (sd_fields sd)) st = (st1, [])"
    "st' = as_push (AStruct tn) st1"
    using ai loc sd(1) by (auto simp: ai_new_struct_def split: prod.splits)
  then obtain ts where ts: "as_stack st = map (\<lambda>fd. from_type (fd_ty fd)) (rev (sd_fields sd)) @ ts"
    "st' = st\<lparr>as_stack := AStruct tn # ts\<rparr>"
    by (auto simp: ai_pop_fields_Nil as_push_def)
  have split: "?n \<le> length ?st"
    "list_all2 (conf hx P a) (take ?n ?st) (map (\<lambda>fd. from_type (fd_ty fd)) (rev (sd_fields sd)))"
    "list_all2 (conf hx P a) (drop ?n ?st) ts"
    using cs ts(1) n by (auto simp: conf_state_def list_all2_append2)
  let ?flds = "rev (zip (rev names) (take ?n ?st))"
  have flds: "?flds = zip names (rev (take ?n ?st))"
    using split(1) zip_rev [of "rev names" "take ?n ?st"] by simp
  have "list_all2 (\<lambda>v fd. conf hx P a v (from_type (fd_ty fd))) (rev (take ?n ?st)) (sd_fields sd)"
    using split(2) by (simp add: list_all2_rev1 list.rel_map)
  then have c1: "list_all2 (\<lambda>kv fd. conf hx P a (snd kv) (from_type (fd_ty fd))) ?flds (sd_fields sd)"
    using n split(1) unfolding flds by (simp add: list_all2_conv_all_nth)
  have c2: "map fst ?flds = map fd_name (sd_fields sd)"
    using split(1) sd(2) unfolding flds by simp
  have "parse_module_ref hx (qualify hx a tn) = Some (a, tn)"
    using prefix_hex.parse_of_qualified [OF prefix_hex.intro [OF hx]] .
  then have "conf hx P a (VStruct (qualify hx a tn) ?flds) (AStruct tn)"
    using conf_local_structI [where P = P, OF _ loc P sd(1) c2 c1] by simp
  then show ?thesis
    using split loc sd(1) ts(2) cs
    by (simp add: exec_new_struct_def pop_n_eq conf_state_def)
qed

lemma get_field_ok:
  assumes "ai_get_field hx m f pc field st = (st', [])" "access_resolved hx m (GetField field) st"
    "P a = Some m" "conf_state hx P a st fr"
  shows "step_ok hx P a st' (exec_get_field field fr)"
proof -
  obtain t ts where st: "as_stack st = t # ts"
    using assms(1) by (cases "as_stack st") (auto simp: ai_get_field_def)
  then obtain t' where t': "resolve_field_type hx t field m = Some t'" using assms(2) by auto
  then obtain n sd fd where n: "t = AStruct n" "parse_module_ref hx n = None"
    "get_struct m n = Some sd" "find_field field (sd_fields sd) = Some fd" "t' = from_type (fd_ty fd)"
    by (rule resolve_field_type_SomeE)
  from assms(4) st obtain v vs where v: "fr_stack fr = v # vs" "conf hx P a v t"
    "conf_state hx P a (st\<lparr>as_stack := ts\<rparr>) (fr\<lparr>fr_stack := vs\<rparr>)"
    by (rule conf_state_stackD)
  obtain tn flds where s: "v = VStruct tn flds" "map fst flds = map fd_name (sd_fields sd)"
    "list_all2 (\<lambda>kv fd. conf hx P a (snd kv) (from_type (fd_ty fd))) flds (sd_fields sd)"
    using v(2) n(1-3) assms(3) by (metis conf_local_structE)
  obtain w where "map_of flds field = Some w" "conf hx P a w t'"
    using find_field_map_of [OF n(4) s(2,3)] n(5) by blast
  moreover have "st' = as_push t' (st\<lparr>as_stack := ts\<rparr>)"
    using assms(1) st n(1) t' by (simp add: ai_get_field_def Let_def)
  ultimately show ?thesis
    using v s(1) by (simp add: exec_get_field_def)
qed

lemma unpack_fields_ok:
  "distinct (map fst kvs) \<Longrightarrow>
     unpack_fields tn (map fst kvs) kvs fr =
       Inr (fr\<lparr>fr_stack := rev (map snd kvs) @ fr_stack fr\<rparr>)"
proof (induction kvs arbitrary: fr)
  case (Cons kv kvs)
  then have "fst kv \<notin> fst ` set kvs" by simp
  then have "\<forall>x \<in> set kvs. fst x \<noteq> fst kv" by (metis image_eqI)
  then have "filter (\<lambda>(k, _). k \<noteq> fst kv) kvs = kvs" by (intro filter_True) auto
  with Cons show ?case by (cases kv) (simp add: frame_push_def)
qed simp

definition fields_distinct :: "module \<Rightarrow> bool" where
  "fields_distinct m \<longleftrightarrow> (\<forall>s \<in> set (md_structs m). distinct (map fd_name (sd_fields s)))"

lemma unpack_struct_ok:
  assumes ai: "ai_unpack_struct hx m f pc tn names st = (st', [])"
    and str: "check_struct_instr hx m func pc tn names = []"
    and P: "P a = Some m" and dist: "fields_distinct m" and cs: "conf_state hx P a st fr"
  shows "step_ok hx P a st' (exec_unpack_struct names fr)"
proof -
  have loc: "parse_module_ref hx tn = None"
    using str by (cases "parse_module_ref hx tn") (simp_all add: check_struct_instr_def)
  then obtain sd where sd: "get_struct m tn = Some sd" "map fd_name (sd_fields sd) = names"
    using str by (auto simp: check_struct_instr_def split: option.splits)
  obtain ts where ts: "as_stack st = AStruct tn # ts"
    "st' = st\<lparr>as_stack := map (\<lambda>fd. from_type (fd_ty fd)) (sd_fields sd) @ ts\<rparr>"
    using ai loc sd(1)
    by (cases "as_stack st") (auto simp: ai_unpack_struct_def as_push_all_def rev_map split: if_splits)
  from cs ts(1) obtain v vs where v: "fr_stack fr = v # vs" "conf hx P a v (AStruct tn)"
    "conf_state hx P a (st\<lparr>as_stack := ts\<rparr>) (fr\<lparr>fr_stack := vs\<rparr>)"
    by (rule conf_state_stackD)
  obtain n flds where s: "v = VStruct n flds" "map fst flds = map fd_name (sd_fields sd)"
    "list_all2 (\<lambda>kv fd. conf hx P a (snd kv) (from_type (fd_ty fd))) flds (sd_fields sd)"
    using v(2) loc sd(1) P by (metis conf_local_structE)
  have "distinct (map fst (rev flds))"
    using dist get_struct_SomeD [OF sd(1)] s(2) by (simp add: fields_distinct_def rev_map [symmetric])
  then have "exec_unpack_struct names fr = Inr (fr\<lparr>fr_stack := map snd flds @ vs\<rparr>)"
    using unpack_fields_ok [of "rev flds" n "fr\<lparr>fr_stack := vs\<rparr>"] v(1) s(1,2) sd(2)
    by (simp add: exec_unpack_struct_def rev_map [symmetric])
  moreover have "list_all2 (conf hx P a) (map snd flds) (map (\<lambda>fd. from_type (fd_ty fd)) (sd_fields sd))"
    using s(3) by (simp add: list.rel_map)
  ultimately show ?thesis
    using v(3) ts(2) by (simp add: conf_state_def list_all2_appendI)
qed

section \<open>Stack shuffling\<close>

lemma pop_ok:
  assumes "ai_pop f pc st = (st', [])" "conf_state hx P a st fr"
  shows "step_ok hx P a st' (and_then (frame_pop fr) (\<lambda>(_, fr). Ok fr))"
proof -
  obtain t ts where st: "as_stack st = t # ts" "st' = st\<lparr>as_stack := ts\<rparr>"
    using assms(1) by (cases "as_stack st") (auto simp: ai_pop_def)
  from assms(2) st(1) obtain v vs where "fr_stack fr = v # vs"
    "conf_state hx P a (st\<lparr>as_stack := ts\<rparr>) (fr\<lparr>fr_stack := vs\<rparr>)"
    by (rule conf_state_stackD)
  then show ?thesis using st(2) by simp
qed

lemma dup_ok:
  assumes "ai_dup f pc st = (st', [])" "conf_state hx P a st fr"
  shows "step_ok hx P a st' (and_then (frame_peek fr) (\<lambda>v. Ok (frame_push v fr)))"
proof -
  obtain t ts where st: "as_stack st = t # ts" "st' = as_push t st"
    using assms(1)
    by (cases "as_stack st") (auto simp: ai_dup_def as_peek_def split: if_splits)
  from assms(2) st(1) obtain v vs where "fr_stack fr = v # vs" "conf hx P a v t"
    by (rule conf_state_stackD)
  then show ?thesis using st(2) assms(2) by simp
qed

lemma conf_state_take_drop:
  assumes "conf_state hx P a st fr" "n \<le> length (as_stack st)"
  shows "n \<le> length (fr_stack fr)"
    "list_all2 (conf hx P a) (rev (take n (fr_stack fr))) (rev (take n (as_stack st)))"
    "conf_state hx P a (as_pop_many n st) (fr\<lparr>fr_stack := drop n (fr_stack fr)\<rparr>)"
  using assms
  by (auto simp: conf_state_def as_pop_many_def list_all2_lengthD list_all2_dropI list_all2_takeI)

lemma make_tuple_ok:
  assumes "ai_make_tuple f pc n st = (st', [])" "conf_state hx P a st fr"
  shows "step_ok hx P a st' (exec_make_tuple n fr)"
proof -
  have n: "unat n \<le> length (as_stack st)"
    and st': "st' = as_push (ATuple (rev (take (unat n) (as_stack st)))) (as_pop_many (unat n) st)"
    using assms(1) by (auto simp: ai_make_tuple_def Let_def split: if_splits)
  note split = conf_state_take_drop [OF assms(2) n]
  then show ?thesis
    using st' by (simp add: exec_make_tuple_def pop_n_eq conf_simps)
qed

lemma unpack_tuple_ok:
  assumes "ai_unpack_tuple f pc n st = (st', [])" "conf_state hx P a st fr"
  shows "step_ok hx P a st' (exec_unpack_tuple n fr)"
proof -
  obtain us ts where st: "as_stack st = ATuple us # ts" "length us = unat n"
    "st' = st\<lparr>as_stack := us @ ts\<rparr>"
    using assms(1)
    by (cases "as_stack st") (auto simp: ai_unpack_tuple_def as_push_all_def Let_def
        split: if_splits atype.splits)
  from assms(2) st(1) obtain v vs where v: "fr_stack fr = v # vs" "conf hx P a v (ATuple us)"
    "conf_state hx P a (st\<lparr>as_stack := ts\<rparr>) (fr\<lparr>fr_stack := vs\<rparr>)"
    by (rule conf_state_stackD)
  from v(2) obtain ws where "v = VTuple ws" "list_all2 (conf hx P a) ws us"
    by (auto simp: conf_simps)
  moreover from this have "length ws = unat n" using st(2) list_all2_lengthD by metis
  ultimately show ?thesis
    using v st(3)
    by (simp add: exec_unpack_tuple_def foldl_frame_push conf_state_def list_all2_appendI)
qed

section \<open>Every instruction\<close>

text \<open>The static facts the proof of one instruction uses.\<close>

definition module_ok :: "hex_codec \<Rightarrow> program \<Rightarrow> module \<Rightarrow> address \<Rightarrow> bool" where
  "module_ok hx P m a \<longleftrightarrow>
     prefix_hex_ok hx \<and> P a = Some m \<and> fields_valid m \<and> fields_distinct m"

lemma check_slot_Nil: "check_slot f pc slot = [] \<longleftrightarrow> unat slot < unat (fn_local_count f)"
  by (simp add: check_slot_def word_less_nat_alt [symmetric] not_le)

lemma exec_instr_ok:
  assumes ai: "ai_instr hx m deps ns func pc i st = (st', [])"
    and str: "check_instr hx m deps cfg func pc i = []"
    and res: "access_resolved hx m i st"
    and len: "length (as_locals st) = unat (fn_local_count func)"
    and ok: "module_ok hx P m a" and cs: "conf_state hx P a st fr"
    and i: "\<not> is_jump i" "call_name i = None" "i \<noteq> Return"
  shows "step_ok hx P a st' (exec_instr hx vm m a i fr)"
proof -
  note mok = ok [unfolded module_ok_def]
  note slot = check_slot_Nil len
  show ?thesis
  proof (cases i)
    case (PushBool b)
    then show ?thesis using ai cs by (auto simp: conf_simps)
  next
    case (PushU64 n)
    then show ?thesis using ai cs by (auto simp: conf_simps)
  next
    case (PushAddress x)
    then show ?thesis using ai cs by (auto simp: conf_simps)
  next
    case (PushStr s)
    then show ?thesis using ai cs by (auto simp: conf_simps)
  next
    case (Load n)
    then show ?thesis using ai str cs slot by (auto intro: load_ok)
  next
    case (Store n)
    then show ?thesis using ai str cs slot by (auto intro: store_ok)
  next
    case (LoadField n path)
    then show ?thesis using ai str res cs slot mok by (auto simp: check_path_def intro: load_field_ok)
  next
    case (StoreField n path)
    then show ?thesis using ai str res cs slot mok by (auto simp: check_path_def intro: store_field_ok)
  next
    case (NewStruct tn names)
    then show ?thesis using ai str cs mok by (auto intro: new_struct_ok)
  next
    case (GetField field)
    then show ?thesis using ai res cs mok by (auto intro: get_field_ok)
  next
    case (UnpackStruct tn names)
    then show ?thesis using ai str cs mok by (auto intro: unpack_struct_ok)
  next
    case NotB
    then show ?thesis using ai cs by (auto split: prod.splits intro: not_ok)
  next
    case Eq
    then show ?thesis using ai cs by (auto intro: eq_ok)
  next
    case Ne
    then show ?thesis using ai cs by (auto intro: eq_ok)
  next
    case (MakeTuple n)
    then show ?thesis using ai cs by (auto intro: make_tuple_ok)
  next
    case (UnpackTuple n)
    then show ?thesis using ai cs by (auto intro: unpack_tuple_ok)
  qed (use ai cs i in
      \<open>auto intro: pop_ok dup_ok intro!: binop_instr_ok arith_op_ok div_op_ok bool_op_ok cmp_ok\<close>)
qed

end
