(* ===== verification/Soundness.thy ===== *)
theory Soundness
  imports Step_Soundness
begin

text \<open>
  Soundness of the bytecode verifier for the virtual machine: a verified program called with
  conforming arguments returns within a bound of steps that depends only on the call-depth limit
  and the size of the code, and its result is a value of the declared type or one of the benign
  errors.  The proof follows the single pass of the abstract interpreter: a frame is covered by
  the state at the current program counter or by a state waiting at a later one.
\<close>

section \<open>The states the checker passes through\<close>

text \<open>The reachable program points with the state before each instruction.\<close>

fun ai_trace ::
    "hex_codec \<Rightarrow> module \<Rightarrow> module_map \<Rightarrow> native_sig list \<Rightarrow> fn \<Rightarrow> nat \<Rightarrow> instruction list
       \<Rightarrow> abs_state \<Rightarrow> pending \<Rightarrow> (instruction \<times> abs_state) list" where
  "ai_trace hx m deps ns func pc [] st pending = []"
| "ai_trace hx m deps ns func pc (instr # code) st pending =
     (case ai_enter (fn_name func) pc st pending of
        (None, _) \<Rightarrow> []
      | (Some st, _) \<Rightarrow>
          if \<not> as_reachable st then ai_trace hx m deps ns func (Suc pc) code st (pending(pc := None))
          else
            (let (st', pending', _) = ai_step hx m deps ns func pc instr st (pending(pc := None))
             in (instr, st) # ai_trace hx m deps ns func (Suc pc) code st' pending'))"

definition accesses_resolved ::
    "hex_codec \<Rightarrow> module \<Rightarrow> module_map \<Rightarrow> native_sig list \<Rightarrow> fn \<Rightarrow> bool" where
  "accesses_resolved hx m deps ns func =
     list_all (\<lambda>(i, st). access_resolved hx m i st)
       (ai_trace hx m deps ns func 0 (fn_code func) (initial_abs_state func) (\<lambda>_. None))"

text \<open>A point of the pass from which no error follows and the function cannot run off its end.\<close>

definition site ::
    "hex_codec \<Rightarrow> module \<Rightarrow> module_map \<Rightarrow> native_sig list \<Rightarrow> fn \<Rightarrow> nat \<Rightarrow> abs_state \<Rightarrow> pending \<Rightarrow> bool" where
  "site hx m deps ns func pc st pending \<longleftrightarrow>
     (\<exists>st' pending'. ai_loop hx m deps ns func pc (drop pc (fn_code func)) st pending = (st', pending', []) \<and>
        \<not> as_reachable st' \<and> pending' (length (fn_code func)) = None) \<and>
     list_all (\<lambda>(i, st). access_resolved hx m i st)
       (ai_trace hx m deps ns func pc (drop pc (fn_code func)) st pending) \<and>
     length (as_locals st) = unat (fn_local_count func) \<and>
     (\<forall>p s. pending p = Some s \<longrightarrow> length (as_locals s) = unat (fn_local_count func))"

subsection \<open>What the transfer functions keep\<close>

lemma ai_pop_fields_keep:
  "ai_pop_fields f pc fds st = (st', errs) \<Longrightarrow>
     as_locals st' = as_locals st \<and> as_reachable st' = as_reachable st"
proof (induction fds arbitrary: st errs)
  case (Cons fd fds)
  then show ?case by (cases "as_stack st") (fastforce split: prod.splits)+
qed simp

lemma ai_instr_keep:
  assumes "ai_instr hx m deps ns func pc i st = (st', errs)"
  shows "length (as_locals st') = length (as_locals st)"
    and "i \<noteq> Return \<Longrightarrow> as_reachable st' = as_reachable st"
proof -
  note defs = ai_load_def ai_store_def ai_load_field_def ai_store_field_def ai_binop_def ai_eq_def
    ai_expect_def ai_get_field_def ai_pop_def ai_dup_def ai_make_tuple_def ai_unpack_tuple_def
    as_push_def as_pop_def as_pop_many_def as_push_all_def Let_def
  have "length (as_locals st') = length (as_locals st) \<and>
    (i \<noteq> Return \<longrightarrow> as_reachable st' = as_reachable st)"
  proof (cases i)
    case (NewStruct tn names)
    then show ?thesis
      using assms
      by (auto simp: ai_new_struct_def as_push_def as_pop_many_def dest!: ai_pop_fields_keep
          split: if_splits option.splits prod.splits)
  next
    case (UnpackStruct tn names)
    then show ?thesis
      using assms
      by (auto simp: ai_unpack_struct_def as_push_all_def as_pop_def
          split: if_splits option.splits prod.splits list.splits)
  next
    case (Call name)
    then show ?thesis
      using assms
      by (auto simp: check_call_def pop_and_check_params_def push_return_type_def
          check_native_call_def as_push_def as_pop_many_def Let_def split: if_splits option.splits prod.splits)
  qed (use assms in \<open>auto simp: defs split: if_splits option.splits prod.splits list.splits
        slot_state.splits atype.splits\<close>)
  then show "length (as_locals st') = length (as_locals st)"
    and "i \<noteq> Return \<Longrightarrow> as_reachable st' = as_reachable st" by simp_all
qed

section \<open>Covered frames\<close>

definition covered ::
    "hex_codec \<Rightarrow> program \<Rightarrow> address \<Rightarrow> nat \<Rightarrow> abs_state \<Rightarrow> pending \<Rightarrow> frame \<Rightarrow> bool" where
  "covered hx P a pc st pending fr \<longleftrightarrow>
     fr_pc fr = pc \<and> reaches hx P a st fr \<or>
     pc \<le> fr_pc fr \<and> (\<exists>s. pending (fr_pc fr) = Some s \<and> reaches hx P a s fr)"

lemma merge_at_reaches:
  assumes "merge_at pending t inc f = (pending', [])"
    "\<And>s. pending t = Some s \<Longrightarrow> length (as_locals s) = length (as_locals inc)"
  shows "reaches hx P a inc fr \<Longrightarrow> \<exists>s. pending' t = Some s \<and> reaches hx P a s fr"
    and "pending p = Some s \<Longrightarrow> reaches hx P a s fr \<Longrightarrow>
      \<exists>s'. pending' p = Some s' \<and> reaches hx P a s' fr"
    and "(\<And>p s. pending p = Some s \<Longrightarrow> length (as_locals s) = n) \<Longrightarrow> length (as_locals inc) = n \<Longrightarrow>
      pending' p = Some s' \<Longrightarrow> length (as_locals s') = n"
proof -
  consider (new) "pending t = None" "pending' = pending(t := Some inc)"
    | (old) s0 s1 where "pending t = Some s0" "merge s0 inc t f = (Some s1, [])"
      "pending' = pending(t := Some s1)"
    using assms(1) merge_no_error
    by (auto simp: merge_at_def split: option.splits prod.splits)
  note cases = this
  show "\<exists>s. pending' t = Some s \<and> reaches hx P a s fr" if "reaches hx P a inc fr"
    using cases by cases (use that assms(2) merge_reaches in \<open>auto\<close>)
  show "\<exists>s'. pending' p = Some s' \<and> reaches hx P a s' fr"
    if "pending p = Some s" "reaches hx P a s fr"
    using cases by cases (use that assms(2) merge_reaches in \<open>auto\<close>)
  show "length (as_locals s') = n"
    if "\<And>p s. pending p = Some s \<Longrightarrow> length (as_locals s) = n" "length (as_locals inc) = n"
      "pending' p = Some s'"
    using cases by cases (use that merge_length in \<open>auto split: if_splits\<close>)
qed

text \<open>One turn of the checker's loop on a function it accepts.\<close>

lemma ai_enter_None: "ai_enter f pc st pending = (None, errs) \<Longrightarrow> errs \<noteq> []"
  by (auto simp: ai_enter_def dest: merge_no_error split: option.splits)

lemma ai_step_Nil:
  assumes "ai_step hx m deps ns func pc i st pending = (st2, p2, [])"
  shows "\<exists>st1. ai_instr hx m deps ns func pc i st = (st1, []) \<and>
    st2 = (if is_uncond_jump i then st1\<lparr>as_reachable := False\<rparr> else st1) \<and>
    (case jump_offset i of
       None \<Rightarrow> p2 = pending
     | Some off \<Rightarrow>
         if 0 < sint off
         then merge_at pending (nat (int pc + sint off)) st1 (fn_name func) = (p2, [])
         else p2 = pending)"
proof (cases "ai_instr hx m deps ns func pc i st")
  case (Pair st1 errs)
  then show ?thesis
    using assms
    by (cases "jump_offset i") (auto simp: ai_step_def split: prod.splits if_splits)
qed

lemma ai_step_lens:
  assumes "ai_step hx m deps ns func pc i st pending = (st2, p2, [])" "length (as_locals st) = n"
    "\<And>p s. pending p = Some s \<Longrightarrow> length (as_locals s) = n"
  shows "length (as_locals st2) = n \<and> (\<forall>p s. p2 p = Some s \<longrightarrow> length (as_locals s) = n)"
proof -
  from ai_step_Nil [OF assms(1)] obtain st1 where 1: "ai_instr hx m deps ns func pc i st = (st1, [])"
    "st2 = (if is_uncond_jump i then st1\<lparr>as_reachable := False\<rparr> else st1)"
    and p2: "case jump_offset i of None \<Rightarrow> p2 = pending
     | Some off \<Rightarrow>
         if 0 < sint off
         then merge_at pending (nat (int pc + sint off)) st1 (fn_name func) = (p2, [])
         else p2 = pending" by blast
  have st1: "length (as_locals st1) = n" using ai_instr_keep(1) [OF 1(1)] assms(2) by simp
  have "length (as_locals s) = n" if "p2 p = Some s" for p s
  proof (cases "p2 = pending")
    case False
    then obtain off where "jump_offset i = Some off"
      "merge_at pending (nat (int pc + sint off)) st1 (fn_name func) = (p2, [])"
      using p2 by (cases "jump_offset i") (simp_all split: if_splits)
    then show ?thesis
      using merge_at_reaches(3) [of pending _ st1 "fn_name func" p2 n p s] assms(3) st1 that by simp
  qed (use that assms(3) in simp)
  with st1 1(2) show ?thesis by simp
qed

lemma ai_loop_Nil:
  assumes "ai_loop hx m deps ns func pc (i # code) st pending = (s', p', [])"
  shows "\<exists>st1. ai_enter (fn_name func) pc st pending = (Some st1, []) \<and>
    (if as_reachable st1
     then \<exists>st2 p2. ai_step hx m deps ns func pc i st1 (pending(pc := None)) = (st2, p2, []) \<and>
       ai_loop hx m deps ns func (Suc pc) code st2 p2 = (s', p', [])
     else ai_loop hx m deps ns func (Suc pc) code st1 (pending(pc := None)) = (s', p', []))"
proof (cases "ai_enter (fn_name func) pc st pending")
  case (Pair x errs)
  then obtain st1 where x: "x = Some st1"
    using assms ai_enter_None by (cases x) auto
  show ?thesis
  proof (cases "as_reachable st1")
    case True
    then show ?thesis using Pair x assms by (simp add: Let_def split: prod.splits)
  next
    case False
    then show ?thesis using Pair x assms by (simp add: Let_def split: prod.splits)
  qed
qed

lemma site_step:
  assumes "site hx m deps ns func pc st pending" "pc < length (fn_code func)"
  obtains st1 where "ai_enter (fn_name func) pc st pending = (Some st1, [])"
    "\<not> as_reachable st1 \<Longrightarrow> site hx m deps ns func (Suc pc) st1 (pending(pc := None))"
    "length (as_locals st1) = unat (fn_local_count func)"
    "as_reachable st1 \<Longrightarrow> access_resolved hx m (fn_code func ! pc) st1 \<and>
       (\<exists>st2 p2. ai_step hx m deps ns func pc (fn_code func ! pc) st1 (pending(pc := None)) =
          (st2, p2, []) \<and> site hx m deps ns func (Suc pc) st2 p2)"
proof -
  let ?i = "fn_code func ! pc" and ?rest = "drop (Suc pc) (fn_code func)" and ?n = "unat (fn_local_count func)"
  have code: "drop pc (fn_code func) = ?i # ?rest" using assms(2) by (simp add: Cons_nth_drop_Suc)
  have len: "length (as_locals st) = ?n" "\<And>p s. pending p = Some s \<Longrightarrow> length (as_locals s) = ?n"
    using assms(1) by (auto simp: site_def)
  obtain s' p' where loop: "ai_loop hx m deps ns func pc (?i # ?rest) st pending = (s', p', [])"
    and fin: "\<not> as_reachable s'" "p' (length (fn_code func)) = None"
    and trace: "list_all (\<lambda>(i, st). access_resolved hx m i st)
       (ai_trace hx m deps ns func pc (?i # ?rest) st pending)"
    using assms(1) code by (auto simp: site_def)
  from ai_loop_Nil [OF loop] obtain st1 where
    st1: "ai_enter (fn_name func) pc st pending = (Some st1, [])"
    and next_loop: "if as_reachable st1
     then \<exists>st2 p2. ai_step hx m deps ns func pc ?i st1 (pending(pc := None)) = (st2, p2, []) \<and>
       ai_loop hx m deps ns func (Suc pc) ?rest st2 p2 = (s', p', [])
     else ai_loop hx m deps ns func (Suc pc) ?rest st1 (pending(pc := None)) = (s', p', [])" by blast
  have len1: "length (as_locals st1) = ?n"
    using st1 len merge_length [of st _ pc "fn_name func" st1 "[]"]
    by (auto simp: ai_enter_def split: option.splits)
  have "site hx m deps ns func (Suc pc) st1 (pending(pc := None))" if "\<not> as_reachable st1"
    using st1 next_loop that trace fin len len1 by (auto simp: site_def)
  moreover have "access_resolved hx m ?i st1 \<and> (\<exists>st2 p2.
      ai_step hx m deps ns func pc ?i st1 (pending(pc := None)) = (st2, p2, []) \<and>
      site hx m deps ns func (Suc pc) st2 p2)" if r: "as_reachable st1"
  proof -
    obtain st2 p2 where step: "ai_step hx m deps ns func pc ?i st1 (pending(pc := None)) = (st2, p2, [])"
      and rest: "ai_loop hx m deps ns func (Suc pc) ?rest st2 p2 = (s', p', [])"
      using next_loop r by auto
    have tr: "access_resolved hx m ?i st1"
      "list_all (\<lambda>(i, st). access_resolved hx m i st) (ai_trace hx m deps ns func (Suc pc) ?rest st2 p2)"
      using trace st1 r step by simp_all
    have "length (as_locals st2) = ?n \<and> (\<forall>p s. p2 p = Some s \<longrightarrow> length (as_locals s) = ?n)"
      by (rule ai_step_lens [OF step len1]) (use len(2) in \<open>auto split: if_splits\<close>)
    then show ?thesis using tr step rest fin by (auto simp: site_def)
  qed
  ultimately show ?thesis using that [OF st1 _ len1] by blast
qed

lemma covered_enter:
  assumes "covered hx P a pc st pending fr" "fr_pc fr = pc"
    "ai_enter (fn_name func) pc st pending = (Some st1, [])" "site hx m deps ns func pc st pending"
  shows "reaches hx P a st1 fr"
proof (cases "pending pc")
  case None
  then show ?thesis using assms by (auto simp: covered_def ai_enter_def)
next
  case (Some inc)
  then have "length (as_locals st) = length (as_locals inc)" using assms(4) by (auto simp: site_def)
  then show ?thesis
    using merge_reaches [of st inc pc "fn_name func" st1 "[]"] assms(1-3) Some
    by (auto simp: covered_def ai_enter_def)
qed

lemma ai_step_pending:
  assumes "ai_step hx m deps ns func pc i st pending = (st2, p2, [])"
    "length (as_locals st) = n" "\<And>p s. pending p = Some s \<Longrightarrow> length (as_locals s) = n"
    "pending p = Some s" "reaches hx P a s fr"
  shows "\<exists>s'. p2 p = Some s' \<and> reaches hx P a s' fr"
proof -
  from ai_step_Nil [OF assms(1)] obtain st1 where 1: "ai_instr hx m deps ns func pc i st = (st1, [])"
    and p2: "case jump_offset i of None \<Rightarrow> p2 = pending
     | Some off \<Rightarrow>
         if 0 < sint off
         then merge_at pending (nat (int pc + sint off)) st1 (fn_name func) = (p2, [])
         else p2 = pending" by blast
  have st1: "length (as_locals st1) = n" using ai_instr_keep(1) [OF 1] assms(2) by simp
  show ?thesis
  proof (cases "p2 = pending")
    case True
    then show ?thesis using assms(4,5) by blast
  next
    case False
    then obtain off where "jump_offset i = Some off"
      "merge_at pending (nat (int pc + sint off)) st1 (fn_name func) = (p2, [])"
      using p2 by (cases "jump_offset i") (simp_all split: if_splits)
    then show ?thesis
      using merge_at_reaches(2) assms(3-5) st1 by metis
  qed
qed

lemma covered_advance_one:
  assumes "site hx m deps ns func pc st pending" "covered hx P a pc st pending fr"
    "pc < fr_pc fr" "pc < length (fn_code func)"
  shows "\<exists>st' p'. site hx m deps ns func (Suc pc) st' p' \<and> covered hx P a (Suc pc) st' p' fr"
proof -
  obtain s where s: "pending (fr_pc fr) = Some s" "reaches hx P a s fr"
    using assms(2,3) by (auto simp: covered_def)
  let ?p = "pending(pc := None)"
  have s': "?p (fr_pc fr) = Some s" using s(1) assms(3) by simp
  from assms(1,4) obtain st1 where st1: "length (as_locals st1) = unat (fn_local_count func)"
    "\<not> as_reachable st1 \<Longrightarrow> site hx m deps ns func (Suc pc) st1 ?p"
    "as_reachable st1 \<Longrightarrow> \<exists>st2 p2. ai_step hx m deps ns func pc (fn_code func ! pc) st1 ?p =
          (st2, p2, []) \<and> site hx m deps ns func (Suc pc) st2 p2"
    by (rule site_step) blast
  show ?thesis
  proof (cases "as_reachable st1")
    case True
    then obtain st2 p2 where 2: "ai_step hx m deps ns func pc (fn_code func ! pc) st1 ?p = (st2, p2, [])"
      "site hx m deps ns func (Suc pc) st2 p2" using st1(3) by blast
    have "\<And>p s. ?p p = Some s \<Longrightarrow> length (as_locals s) = unat (fn_local_count func)"
      using assms(1) by (auto simp: site_def split: if_splits)
    then show ?thesis
      using ai_step_pending [OF 2(1) st1(1) _ s' s(2)] 2(2) assms(3)
      by (auto simp: covered_def)
  next
    case False
    have "covered hx P a (Suc pc) st1 ?p fr"
      unfolding covered_def using s' s(2) assms(3) Suc_leI by blast
    then show ?thesis using st1(2) [OF False] by blast
  qed
qed

lemma covered_advance:
  "site hx m deps ns func pc st pending \<Longrightarrow> covered hx P a pc st pending fr \<Longrightarrow>
     pc \<le> fr_pc fr \<Longrightarrow> fr_pc fr \<le> length (fn_code func) \<Longrightarrow>
     \<exists>st' p'. site hx m deps ns func (fr_pc fr) st' p' \<and> covered hx P a (fr_pc fr) st' p' fr"
proof (induction "fr_pc fr - pc" arbitrary: pc st pending)
  case 0
  then show ?case by auto
next
  case (Suc n)
  then have lt: "pc < fr_pc fr" "pc < length (fn_code func)" by linarith+
  obtain st' p' where s': "site hx m deps ns func (Suc pc) st' p'" "covered hx P a (Suc pc) st' p' fr"
    using covered_advance_one [OF Suc(3,4) lt] by blast
  have "n = fr_pc fr - Suc pc" "Suc pc \<le> fr_pc fr" using Suc(2) lt(1) by linarith+
  then show ?case using Suc(1) [OF _ s' _ Suc(6)] by blast
qed

text \<open>A covered frame is never past the end of the code.\<close>

lemma covered_not_end:
  assumes "site hx m deps ns func pc st pending" "covered hx P a pc st pending fr" "fr_pc fr = pc"
  shows "pc \<noteq> length (fn_code func)"
  using assms by (auto simp: site_def covered_def reaches_def)

section \<open>Calls\<close>

definition ret_ok :: "hex_codec \<Rightarrow> program \<Rightarrow> address \<Rightarrow> vtype option \<Rightarrow> val option \<Rightarrow> bool" where
  "ret_ok hx P a rt vo =
     (case rt of
        None \<Rightarrow> vo = None \<or> vo = Some VVoid
      | Some t \<Rightarrow> (\<exists>v. vo = Some v \<and> conf hx P a v (from_type t)))"

definition outcome_ok ::
    "hex_codec \<Rightarrow> program \<Rightarrow> address \<Rightarrow> vtype option \<Rightarrow> 's outcome \<Rightarrow> bool" where
  "outcome_ok hx P a rt r =
     (case fst r of Inl e \<Rightarrow> benign e | Inr vo \<Rightarrow> ret_ok hx P a rt vo)"

definition args_ok :: "hex_codec \<Rightarrow> program \<Rightarrow> address \<Rightarrow> (string \<times> vtype) list \<Rightarrow> val list \<Rightarrow> bool" where
  "args_ok hx P a params args = list_all2 (\<lambda>v p. conf hx P a v (from_type (snd p))) args params"

text \<open>What the caller pushes for a returned value.\<close>

definition pushed :: "val option \<Rightarrow> val" where
  "pushed ret = (case ret of Some v \<Rightarrow> v | None \<Rightarrow> VVoid)"

lemma ret_ok_pushed:
  "ret_ok hx P a rt vo \<Longrightarrow>
     conf hx P a (pushed vo) (case rt of Some t \<Rightarrow> from_type t | None \<Rightarrow> AVoid)"
  by (auto simp: ret_ok_def pushed_def conf_simps split: option.splits)

text \<open>A native keeps its signature: on conforming arguments it does not panic and returns a value
  of its declared type, with qualified struct names.\<close>

definition native_conforms ::
    "hex_codec \<Rightarrow> program \<Rightarrow> native_sig \<Rightarrow> 's native_fn_entry \<Rightarrow> bool" where
  "native_conforms hx P sig e \<longleftrightarrow>
     ne_params e = ns_params sig \<and>
     (\<forall>a args ts w.
        list_all2 (native_param_matches hx) (ns_params sig) ts \<and> list_all2 (conf hx P a) args ts \<longrightarrow>
        (case fst (ne_func e args w) of
           NativeReturn vo \<Rightarrow>
             ret_ok hx P a (ns_return_type sig) vo \<and>
             (\<forall>v. vo = Some v \<longrightarrow> check_struct_qualified hx v)
         | NativePanic \<Rightarrow> False
         | _ \<Rightarrow> True))"

definition natives_conform ::
    "hex_codec \<Rightarrow> program \<Rightarrow> native_sig list \<Rightarrow> 's vm \<Rightarrow> bool" where
  "natives_conform hx P sigs vm \<longleftrightarrow>
     (\<forall>name sig. find_native sigs name = Some sig \<longrightarrow>
        (\<exists>e. map_of (vm_natives vm) name = Some e \<and> native_conforms hx P sig e))"

lemma pop_and_check_params_Nil:
  assumes "pop_and_check_params params callee pc f st = (st', [])" "conf_state hx P a st fr"
  shows "length params \<le> length (fr_stack fr)"
    and "args_ok hx P a params (rev (take (length params) (fr_stack fr)))"
    and "conf_state hx P a st' (fr\<lparr>fr_stack := drop (length params) (fr_stack fr)\<rparr>)"
proof -
  let ?n = "length params" and ?args = "rev (take (length params) (as_stack st))"
  have n: "?n \<le> length (as_stack st)" and st': "st' = as_pop_many ?n st"
    and types: "\<forall>x \<in> set (zip params ?args). snd x = from_type (snd (fst x))"
    using assms(1)
    by (auto simp: pop_and_check_params_def Let_def types_compatible_def split: if_splits prod.splits)
  note split = conf_state_take_drop [OF assms(2) n]
  have "?args ! i = from_type (snd (params ! i))" if "i < ?n" for i
  proof -
    have "(params ! i, ?args ! i) \<in> set (zip params ?args)"
      using that n by (auto simp: set_zip)
    then show ?thesis using types by fastforce
  qed
  then show "args_ok hx P a params (rev (take ?n (fr_stack fr)))"
    using split(1,2) n unfolding args_ok_def by (simp add: list_all2_conv_all_nth)
  show "?n \<le> length (fr_stack fr)" "conf_state hx P a st' (fr\<lparr>fr_stack := drop ?n (fr_stack fr)\<rparr>)"
    using split st' by simp_all
qed

lemma args_ok_qualify:
  assumes "prefix_hex_ok hx"
  shows "args_ok hx P a (map (\<lambda>(n, t). (n, qualify_type hx t b)) params) args = args_ok hx P b params args"
  by (simp add: args_ok_def list.rel_map conf_qualify [OF assms] split_beta)

lemma ret_ok_qualify:
  assumes "prefix_hex_ok hx"
  shows "ret_ok hx P a (map_option (\<lambda>t. qualify_type hx t b) rt) vo = ret_ok hx P b rt vo"
  by (cases rt) (simp_all add: ret_ok_def conf_qualify [OF assms])

text \<open>A call to a function of the program, as the caller's checker and the machine see it.\<close>

lemma call_module_ok:
  assumes ai: "check_call hx name pc f m deps ns st = (st', [])"
    and vis: "check_call_visibility hx deps func pc name = []"
    and hx: "prefix_hex_ok hx" and deps: "deps = vm_deps vm"
    and res: "parse_module_ref hx name = None \<Longrightarrow> get_function m name \<noteq> None"
    and P: "P a = Some m" "\<And>b d. map_of (vm_deps vm) b = Some d \<Longrightarrow> P b = Some d"
    and cs: "conf_state hx P a st fr"
  shows "\<exists>g m' b callee. resolve_call hx vm m a name = Inr (ToModule g m' b (length (fn_params callee))) \<and>
    P b = Some m' \<and> get_function m' g = Some callee \<and>
    length (fn_params callee) \<le> length (fr_stack fr) \<and>
    args_ok hx P b (fn_params callee) (rev (take (length (fn_params callee)) (fr_stack fr))) \<and>
    (\<forall>vo. ret_ok hx P b (fn_return_type callee) vo \<longrightarrow>
       conf_state hx P a st'
         (frame_push (pushed vo) (fr\<lparr>fr_stack := drop (length (fn_params callee)) (fr_stack fr)\<rparr>)))"
proof (cases "parse_module_ref hx name")
  case None
  then obtain callee where callee: "get_function m name = Some callee" using res by auto
  then obtain st1 where st1: "pop_and_check_params (fn_params callee) name pc f st = (st1, [])"
    "st' = push_return_type (fn_return_type callee) st1"
    using ai None by (auto simp: check_call_def split: prod.splits)
  note args = pop_and_check_params_Nil [OF st1(1) cs]
  have "resolve_call hx vm m a name = Inr (ToModule name m a (length (fn_params callee)))"
    using None callee by (simp add: resolve_call_def)
  then show ?thesis
    using args P(1) callee st1(2) ret_ok_pushed by (fastforce simp: push_return_type_def)
next
  case (Some ref)
  obtain b g where ref: "ref = (b, g)" by fastforce
  with Some ai obtain m' callee where m': "map_of (vm_deps vm) b = Some m'" "get_function m' g = Some callee"
    by (auto simp: check_call_def deps split: option.splits bind_splits)
  then have pub: "fn_is_public callee"
    using vis Some ref by (simp add: check_call_visibility_def deps)
  obtain st1 where st1:
    "pop_and_check_params (map (\<lambda>(n, t). (n, qualify_type hx t b)) (fn_params callee)) name pc f st = (st1, [])"
    "st' = push_return_type (map_option (\<lambda>t. qualify_type hx t b) (fn_return_type callee)) st1"
    using ai Some ref m' by (auto simp: check_call_def deps Let_def split: prod.splits)
  note args = pop_and_check_params_Nil [OF st1(1) cs, unfolded length_map args_ok_qualify [OF hx]]
  have "resolve_call hx vm m a name = Inr (ToModule g m' b (length (fn_params callee)))"
    using Some ref m' pub by (simp add: resolve_call_def)
  moreover have "conf_state hx P a st'
         (frame_push (pushed vo) (fr\<lparr>fr_stack := drop (length (fn_params callee)) (fr_stack fr)\<rparr>))"
    if "ret_ok hx P b (fn_return_type callee) vo" for vo
    using that args(3) st1(2) ret_ok_pushed [of hx P a "map_option (\<lambda>t. qualify_type hx t b) (fn_return_type callee)" vo]
    by (simp add: push_return_type_def ret_ok_qualify [OF hx])
  ultimately show ?thesis using args m' P(2) by blast
qed

end
