(* ===== verification/Sample_Programs.thy ===== *)
theory Sample_Programs
  imports Vm_Props Verifier_AbsInt "HOL-Library.Code_Target_Nat"
begin

text \<open>
  Small modules on which the theorems are instantiated: a box module whose functions build, read
  and take apart a struct and branch on a comparison, and the machine that runs it with the
  built-in native only.  They show that the hypotheses of the theorems can be met.
\<close>

definition box_struct :: struct_def where
  "box_struct = \<lparr>sd_name = ''Box'', sd_fields = [\<lparr>fd_name = ''v'', fd_ty = TU64\<rparr>], sd_is_public = True\<rparr>"

text \<open>\<open>fn wrap(n: u64): Box\<close>\<close>

definition wrap_fn :: fn where
  "wrap_fn = \<lparr>fn_name = ''wrap'', fn_is_public = True, fn_params = [(''n'', TU64)],
     fn_return_type = Some (TStruct ''Box''), fn_local_count = 1,
     fn_code = [Load 0, NewStruct ''Box'' [''v''], Return]\<rparr>"

text \<open>\<open>pub fn run(n: u64): u64\<close>: wrap the argument, store the box, increment its field when the
  argument is below ten, and take it apart.\<close>

definition run_fn :: fn where
  "run_fn = \<lparr>fn_name = ''run'', fn_is_public = True, fn_params = [(''n'', TU64)],
     fn_return_type = Some TU64, fn_local_count = 2,
     fn_code = [Load 0, Call ''wrap'', Store 1, Load 0, PushU64 10, Lt, JumpIfNot 5,
       LoadField 1 [''v''], PushU64 1, Add, StoreField 1 [''v''],
       Load 1, UnpackStruct ''Box'' [''v''], Return]\<rparr>"

text \<open>\<open>pub fn get(b: Box): u64\<close>\<close>

definition get_fn :: fn where
  "get_fn = \<lparr>fn_name = ''get'', fn_is_public = True, fn_params = [(''b'', TStruct ''Box'')],
     fn_return_type = Some TU64, fn_local_count = 1,
     fn_code = [Load 0, UnpackStruct ''Box'' [''v''], Return]\<rparr>"

definition box_module :: module where
  "box_module = \<lparr>md_name = ''boxes'', md_imports = [], md_structs = [box_struct],
     md_functions = [wrap_fn, run_fn, get_fn]\<rparr>"

definition box_address :: address where
  "box_address = address_suffixed 7"

definition box_vm :: "unit vm" where
  "box_vm = \<lparr>vm_module = box_module, vm_module_addr = box_address, vm_deps = [],
     vm_natives = [(meow_vm_abort, meow_vm_abort_entry)],
     vm_gas_schedule = gas_schedule_default,
     vm_cfg = \<lparr>max_call_depth = 4, vc_max_dep_modules = 64, enable_call_private_functions = False\<rparr>\<rparr>"

lemmas box_defs = box_module_def box_struct_def wrap_fn_def run_fn_def get_fn_def

lemma box_verified: "verify std_hex_codec box_module [] [] compiler_config_default = Ok ()"
  by code_simp

definition box_of :: "u64 \<Rightarrow> val" where
  "box_of n = VStruct ''@0x07::Box'' [(''v'', VU64 n)]"

lemma box_get:
  "vm_call 10 std_hex_codec box_vm ''get'' [box_of 5] (gas_meter_new 10) () =
     Some (Ok (Some (VU64 5)), \<lparr>gm_limit = 10, gm_spent = 4\<rparr>, ())"
  by code_simp

end
