(* ===== verification/Type_Soundness.thy ===== *)
theory Type_Soundness
  imports Soundness Sample_Programs
begin

text \<open>
  The theorem the verifier is for.  \<open>verified_vm\<close> collects its hypotheses: every module of the
  program is accepted by \<open>verify\<close> against the dependencies the machine runs with, its field
  accesses resolve and its structs have distinct field names (two conditions the verifier does not
  check, and without which the conclusion fails), and the natives keep their signatures.
\<close>

section \<open>Verified programs\<close>









section \<open>Entering and leaving a function\<close>



section \<open>Native calls\<close>


section \<open>Runs of verified code\<close>











section \<open>The run\<close>










subsection \<open>The sample machine\<close>








end
