(* ===== verification/Vm_Safety.thy ===== *)
theory Vm_Safety
  imports Sample_Programs "HOL-Library.Sublist"
begin

text \<open>
  What \<open>Vm::call\<close> guarantees of every module, verified or not: it does not panic, it stays within
  its gas, and under a finite gas limit it returns.
\<close>

section \<open>Panics\<close>

lemma abort_native_safe: "native_safe hx meow_vm_abort_entry"
  by (auto simp: native_safe_def meow_vm_abort_entry_def meow_vm_abort_func_def length_Suc_conv
      eval_nat_numeral split: val.splits)

lemma box_natives_safe: "natives_safe hx box_vm"
  by (simp add: natives_safe_def box_vm_def abort_native_safe)

lemma box_of_qualified: "check_struct_qualified std_hex_codec (box_of n)"
proof -
  have "parse_module_ref std_hex_codec ''@0x07::Box'' \<noteq> None" by code_simp
  then show ?thesis by (simp add: box_of_def)
qed

text \<open>C2. \<open>Vm::call\<close> never panics, whatever the module, the entry function and the gas, when the
  struct arguments have qualified type names and the host's natives keep their contract.  The
  modules need not be verified: every malformed instruction ends in a \<open>VmError\<close>.\<close>

theorem vm_call_never_panics:
  assumes "natives_safe hx vm" "list_all (check_struct_qualified hx) args"
    "vm_call k hx vm f args gas w = Some r"
  shows "not_panic (fst r)"
  using assms(2,3) run_not_panic [OF assms(1)]
  by (auto simp: vm_call_def split: if_splits option.splits)

theorem vm_call_never_panics_witness:
  "not_panic (fst (the (vm_call 10 std_hex_codec box_vm ''get'' [box_of 5] (gas_meter_new 10) ())))"
  using vm_call_never_panics [OF box_natives_safe _ box_get] by (simp add: box_get box_of_qualified)

section \<open>Gas\<close>

lemma vm_call_gas_le: "vm_call k hx vm f args gas w = Some (r, gas', w') \<Longrightarrow> gas_le gas gas'"
  using run_gas_le(1) by (fastforce simp: vm_call_def split: if_splits option.splits)

text \<open>C3. Gas accounting of a call: it leaves the limit as it was and reports at most the limit as
  spent, and what is spent and what remains add up to the limit.\<close>

theorem vm_call_gas_bounded:
  assumes "vm_call k hx vm f args (gas_meter_new limit) w = Some (r, gas, w')"
  shows "gm_limit gas = limit \<and> gm_spent gas \<le> limit \<and> gm_spent gas + remaining gas = limit"
proof -
  have "gas_le (gas_meter_new limit) gas"
    by (rule vm_call_gas_le [OF assms])
  then have "gm_limit gas = limit" "gm_spent gas \<le> limit"
    by (auto simp: gas_le_def gas_wf_def gas_meter_new_def)
  then show ?thesis by (auto simp: remaining_def saturating_sub_def)
qed

theorem vm_call_gas_bounded_witness:
  "(case vm_call 10 std_hex_codec box_vm ''get'' [box_of 5] (gas_meter_new 10) () of
      Some (r, gas, w) \<Rightarrow> gm_spent gas + remaining gas = 10 | None \<Rightarrow> False)"
  using vm_call_gas_bounded [OF box_get] by (simp add: box_get)

section \<open>Termination\<close>

lemma vm_call_of_inner:
  "\<exists>k. call_inner k hx vm f (vm_module vm) (vm_module_addr vm) args gas w 0 \<noteq> None \<Longrightarrow>
     \<exists>k. vm_call k hx vm f args gas w \<noteq> None"
  by (auto simp: vm_call_def split: option.splits)

lemma vm_call_mono:
  "vm_call k hx vm f args gas w = Some r \<Longrightarrow> k \<le> k' \<Longrightarrow> vm_call k' hx vm f args gas w = Some r"
  by (auto simp: vm_call_def intro: run_mono(1) split: if_splits option.splits)

lemma vm_call_returns:
  assumes "vm_gas_schedule vm = gas_schedule_default" "gm_limit gas \<noteq> - 1" "gas_wf gas"
  shows "\<exists>k r. \<forall>k' \<ge> k. vm_call k' hx vm f args gas w = Some r"
proof -
  have "\<exists>k. run_frame k hx vm (vm_module vm) (vm_module_addr vm) fr gas w 0 \<noteq> None" for fr
    using run_frame_terminates [OF assms(1)] assms(2,3) by simp
  from vm_call_of_inner [OF call_inner_of_run [OF this]]
  obtain k r where "vm_call k hx vm f args gas w = Some r" by fast
  from vm_call_mono [OF this] show ?thesis by blast
qed

text \<open>C4. A call with a finite gas limit under the default schedule returns, whatever the module:
  from some number of steps on the result no longer depends on it.  Jumps may go backwards here,
  since the code need not be verified.\<close>

theorem vm_call_terminates:
  assumes "vm_gas_schedule vm = gas_schedule_default" "limit \<noteq> - 1"
  shows "\<exists>k r. \<forall>k' \<ge> k. vm_call k' hx vm f args (gas_meter_new limit) w = Some r"
  using vm_call_returns [OF assms(1)] assms(2) by (simp add: gas_meter_new_def gas_wf_def)

text \<open>A machine whose only function jumps back to itself.\<close>

definition spin_module :: module where
  "spin_module = \<lparr>md_name = ''spin'', md_imports = [], md_structs = [],
     md_functions = [\<lparr>fn_name = ''spin'', fn_is_public = True, fn_params = [], fn_return_type = None,
       fn_local_count = 0, fn_code = [Jump 0]\<rparr>]\<rparr>"

definition spin_vm :: "unit vm" where
  "spin_vm = box_vm\<lparr>vm_module := spin_module\<rparr>"

theorem vm_call_terminates_witness:
  "\<exists>k r. \<forall>k' \<ge> k. vm_call k' std_hex_codec spin_vm ''spin'' [] (gas_meter_new 1000) () = Some r"
  by (rule vm_call_terminates) (simp_all add: spin_vm_def box_vm_def)

section \<open>Field paths\<close>

lemma map_of_set_field:
  "map_of (set_field n v fs) k =
     (if k = n then map_option (\<lambda>_. v) (map_of fs n) else map_of fs k)"
  by (induction n v fs rule: set_field.induct) auto

lemma read_nested:
  "map_of fs g = Some v \<Longrightarrow> read_field_path j (VStruct tn fs) (g # gs) = read_field_path (Suc j) v gs"
  by simp

lemma write_field_path_nested:
  assumes "write_field_path i current (field # f # path) v = Inr v'"
  obtains tn fs sub sub' where "current = VStruct tn fs" "map_of fs field = Some sub"
    "write_field_path (Suc i) sub (f # path) v = Inr sub'" "v' = VStruct tn (set_field field sub' fs)"
  using assms by (auto simp: and_then_Inr_iff split: val.splits option.splits)

lemma write_then_read:
  "write_field_path i v path x = Inr v' \<Longrightarrow> read_field_path j v' path = Inr x"
proof (induction i v path x arbitrary: j v' rule: write_field_path.induct)
  case (2 i current field v)
  then show ?case by (auto simp: map_of_set_field split: val.splits option.splits if_splits)
next
  case (3 i current field f path v)
  from 3(2) show ?case
  proof (rule write_field_path_nested)
    fix tn fs sub sub'
    assume cur: "current = VStruct tn fs" "map_of fs field = Some sub"
      "write_field_path (Suc i) sub (f # path) v = Inr sub'" "v' = VStruct tn (set_field field sub' fs)"
    then have "map_of (set_field field sub' fs) field = Some sub'" by (simp add: map_of_set_field)
    then show ?thesis using read_nested 3(1) [OF cur(1-3)] cur(4) by metis
  qed
qed simp

lemma write_elsewhere:
  "write_field_path i v path x = Inr v' \<Longrightarrow> \<not> prefix path q \<Longrightarrow> \<not> prefix q path \<Longrightarrow>
     read_field_path j v' q = read_field_path j v q"
proof (induction i v path x arbitrary: j v' q rule: write_field_path.induct)
  case (2 i current field v)
  then show ?case
    by (cases q) (auto simp: map_of_set_field split: val.splits option.splits if_splits)
next
  case (3 i current field f path v)
  obtain g gs where q: "q = g # gs" using 3(4) by (cases q) auto
  from 3(2) show ?case
  proof (rule write_field_path_nested)
    fix tn fs sub sub'
    assume cur: "current = VStruct tn fs" "map_of fs field = Some sub"
      "write_field_path (Suc i) sub (f # path) v = Inr sub'" "v' = VStruct tn (set_field field sub' fs)"
    show ?thesis
    proof (cases "g = field")
      case True
      then have "map_of (set_field field sub' fs) g = Some sub'" using cur by (simp add: map_of_set_field)
      moreover have "\<not> prefix (f # path) gs" "\<not> prefix gs (f # path)" using 3(3,4) q True by auto
      ultimately show ?thesis
        using read_nested 3(1) [OF cur(1-3)] cur q True by metis
    qed (use q cur in \<open>simp add: map_of_set_field\<close>)
  qed
qed simp

text \<open>C11. A field write is exact: after \<open>write_field_path\<close> succeeds the path reads as the value
  written, and every path that neither extends it nor is extended by it reads as before.\<close>

theorem write_field_path_exact:
  assumes "write_field_path i v path x = Ok v'"
  shows "read_field_path j v' path = Ok x \<and>
    (\<forall>q. \<not> prefix path q \<and> \<not> prefix q path \<longrightarrow> read_field_path j v' q = read_field_path j v q)"
  using assms write_then_read write_elsewhere by blast

theorem write_field_path_exact_witness:
  "read_field_path 0 (VStruct ''@0x07::Box'' [(''v'', VU64 3), (''w'', VBool True)]) [''v''] = Ok (VU64 3)"
  using write_field_path_exact [of 0 "VStruct ''@0x07::Box'' [(''v'', VU64 1), (''w'', VBool True)]"
      "[''v'']" "VU64 3"] by simp

end
