(* ===== verification/Verifier_Gaps.thy ===== *)
theory Verifier_Gaps
  imports Sample_Programs Vm_Safety
begin

text \<open>
  Instructions that both phases of the verifier accept although the rules it states for fields are broken
  in them, and what the machine does with them.  They are why \<open>module_accepted\<close> asks for
  \<open>accesses_resolved\<close> and \<open>fields_distinct\<close> beside \<open>verify\<close>.  For each there is a whole module that is
  accepted and run.
\<close>

section \<open>A field of another module's struct\<close>

definition coin_address :: address where
  "coin_address = address_suffixed 32"

definition coin_balance :: string where
  "coin_balance = ''@0x20::Balance''"

definition coin_module :: module where
  "coin_module = \<lparr>md_name = ''coin'', md_imports = [],
     md_structs = [\<lparr>sd_name = ''Balance'', sd_fields = [\<lparr>fd_name = ''amount'', fd_ty = TU64\<rparr>],
       sd_is_public = True\<rparr>],
     md_functions = []\<rparr>"

text \<open>\<open>struct Vault { funds: Balance }\<close> and a function that takes a vault and overwrites
  \<open>funds.amount\<close>.\<close>

definition vault_module :: module where
  "vault_module = \<lparr>md_name = ''vault'', md_imports = [coin_address],
     md_structs = [\<lparr>sd_name = ''Vault'',
       sd_fields = [\<lparr>fd_name = ''funds'', fd_ty = TStruct coin_balance\<rparr>], sd_is_public = True\<rparr>],
     md_functions = [\<lparr>fn_name = ''mint'', fn_is_public = True,
       fn_params = [(''v'', TStruct ''Vault'')], fn_return_type = Some (TStruct ''Vault''),
       fn_local_count = 1,
       fn_code = [PushU64 1000000, StoreField 0 [''funds'', ''amount''], Load 0, Return]\<rparr>]\<rparr>"

definition vault_vm :: "unit vm" where
  "vault_vm = box_vm\<lparr>vm_module := vault_module, vm_deps := [(coin_address, coin_module)]\<rparr>"

definition vault_of :: "u64 \<Rightarrow> val" where
  "vault_of n = VStruct ''@0x07::Vault''
     [(''funds'', VStruct coin_balance [(''amount'', VU64 n)])]"

lemma write_field_path_exists:
  "read_field_path j v path = Inr old \<Longrightarrow> path \<noteq> [] \<Longrightarrow> \<not> value_is_linear old \<Longrightarrow>
     \<exists>v'. write_field_path i v path x = Inr v'"
proof (induction i v path x arbitrary: j rule: write_field_path.induct)
  case (3 i current field f path v)
  then obtain tn fs sub where cur: "current = VStruct tn fs" "map_of fs field = Some sub"
    and sub: "read_field_path (Suc j) sub (f # path) = Inr old"
    unfolding read_field_path.simps(2) [of j current field "f # path"]
    by (cases current) (simp_all only: val.simps and_then_Inr_iff ok_or_Inr_iff sum.distinct, blast)
  from 3(1) [OF cur sub] 3(4) obtain sub' where "write_field_path (Suc i) sub (f # path) v = Inr sub'" by auto
  with cur show ?case by simp
qed (auto simp: and_then_Inr_iff ok_or_Inr_iff split: val.splits)

text \<open>C7. The verifier checks the visibility of a field path at its root only.  Take any local struct with a
  field whose type is a struct of another module: a \<open>StoreField\<close> along a path that goes on into that struct is
  accepted by both phases, whatever the rest of the path and the type of the stored value, and the machine performs
  it on every value that has the path, unless it would overwrite a resource.\<close>

theorem foreign_field_write_accepted:
  assumes "parse_module_ref hx n = None" "get_struct m n = Some sd" "find_field f0 (sd_fields sd) = Some fd"
    "fd_ty fd = TStruct q" "parse_module_ref hx q = Some foreign"
    and "unat slot < unat (fn_local_count func)" "length (as_locals st) = unat (fn_local_count func)"
    "as_locals st ! unat slot = Live (AStruct n)" "as_stack st = ty # ts"
    and "unat slot < length (fr_locals fr)" "fr_locals fr ! unat slot = Some root" "fr_stack fr = v # vs"
    "read_field_path 0 root (f0 # f1 # path) = Ok old" "\<not> value_is_linear old"
  shows "check_instr hx m deps cfg func pc (StoreField slot (f0 # f1 # path)) = [] \<and>
    ai_instr hx m deps ns func pc (StoreField slot (f0 # f1 # path)) st = (st\<lparr>as_stack := ts\<rparr>, []) \<and>
    (\<exists>fr'. exec_instr hx vm m a (StoreField slot (f0 # f1 # path)) fr = Ok fr' \<and>
       exec_instr hx vm m a (LoadField slot (f0 # f1 # path)) fr' = Ok (frame_push v fr'))"
proof (intro conjI)
  show "check_instr hx m deps cfg func pc (StoreField slot (f0 # f1 # path)) = []"
    using assms(6) by (simp add: check_slot_def check_path_def word_le_nat_alt)
  have "resolve_field_path_type hx (AStruct n) (f0 # f1 # path) m = None"
    using assms(1-5) by (simp add: resolve_field_type_def)
  then show "ai_instr hx m deps ns func pc (StoreField slot (f0 # f1 # path)) st = (st\<lparr>as_stack := ts\<rparr>, [])"
    using assms(1,6-9) by (simp add: ai_store_field_def as_pop_def)
  obtain root' where w: "write_field_path 0 root (f0 # f1 # path) v = Inr root'"
    using write_field_path_exists [OF assms(13) _ assms(14)] by blast
  let ?fr = "fr\<lparr>fr_stack := vs, fr_locals := (fr_locals fr)[unat slot := Some root']\<rparr>"
  have "exec_instr hx vm m a (StoreField slot (f0 # f1 # path)) fr = Ok ?fr"
    using assms(10-12) w by (simp add: exec_store_field_def frame_pop_def local_value_def)
  moreover have "exec_instr hx vm m a (LoadField slot (f0 # f1 # path)) ?fr = Ok (frame_push v ?fr)"
    using assms(10) write_then_read [OF w, of 0] by (simp add: exec_load_field_def local_value_def)
  ultimately show "\<exists>fr'. exec_instr hx vm m a (StoreField slot (f0 # f1 # path)) fr = Ok fr' \<and>
       exec_instr hx vm m a (LoadField slot (f0 # f1 # path)) fr' = Ok (frame_push v fr')" by blast
qed

theorem foreign_field_write_accepted_witness:
  "let i = StoreField 0 [''funds'', ''amount''];
       st = \<lparr>as_stack = [AU64], as_locals = [Live (AStruct ''Vault'')], as_reachable = True\<rparr>;
       fr = \<lparr>fr_locals = [Some (vault_of 0)], fr_stack = [VU64 1000000], fr_pc = 2, fr_code = []\<rparr>
   in ai_instr std_hex_codec vault_module [] [] (hd (md_functions vault_module)) 1 i st = (st\<lparr>as_stack := []\<rparr>, []) \<and>
     (\<exists>fr'. exec_instr std_hex_codec vault_vm vault_module coin_address i fr = Ok fr')"
proof -
  let ?st = "\<lparr>as_stack = [AU64], as_locals = [Live (AStruct ''Vault'')], as_reachable = True\<rparr>"
  let ?fr = "\<lparr>fr_locals = [Some (vault_of 0)], fr_stack = [VU64 1000000], fr_pc = 2, fr_code = []\<rparr>"
  have names: "parse_module_ref std_hex_codec ''Vault'' = None" "parse_module_ref std_hex_codec coin_balance \<noteq> None"
    by code_simp+
  then obtain foreign where foreign: "parse_module_ref std_hex_codec coin_balance = Some foreign" by blast
  have "get_struct vault_module ''Vault'' = Some (hd (md_structs vault_module))"
    "find_field ''funds'' (sd_fields (hd (md_structs vault_module))) = Some \<lparr>fd_name = ''funds'', fd_ty = TStruct coin_balance\<rparr>"
    by code_simp+
  from foreign_field_write_accepted [OF names(1) this _ foreign, of 0 "hd (md_functions vault_module)" ?st AU64 "[]" ?fr
      "vault_of 0" "VU64 1000000" "[]" "''amount''" "[]" "VU64 0" "[]" compiler_config_default 1 "[]" vault_vm coin_address]
  show ?thesis by (auto simp: vault_module_def vault_of_def)
qed

text \<open>A module that turns a vault of 0 coins into a vault of a million, writing the private field of the coin
  module's struct.\<close>

lemma vault_minted:
  "verify std_hex_codec vault_module [(coin_address, coin_module)] [] compiler_config_default = Ok () \<and>
   vm_call 10 std_hex_codec vault_vm ''mint'' [vault_of 0] (gas_meter_new 100) () =
     Some (Ok (Some (vault_of 1000000)), \<lparr>gm_limit = 100, gm_spent = 9\<rparr>, ())"
proof
  show "verify std_hex_codec vault_module [(coin_address, coin_module)] [] compiler_config_default = Ok ()"
    by code_simp
  show "vm_call 10 std_hex_codec vault_vm ''mint'' [vault_of 0] (gas_meter_new 100) () =
     Some (Ok (Some (vault_of 1000000)), \<lparr>gm_limit = 100, gm_spent = 9\<rparr>, ())"
    by code_simp
qed

section \<open>A field that does not exist\<close>

definition peek_module :: module where
  "peek_module = \<lparr>md_name = ''peek'', md_imports = [], md_structs = [box_struct],
     md_functions = [\<lparr>fn_name = ''peek'', fn_is_public = True,
       fn_params = [(''b'', TStruct ''Box'')], fn_return_type = Some (TStruct ''Box''),
       fn_local_count = 1,
       fn_code = [LoadField 0 [''missing''], Pop, Load 0, Return]\<rparr>]\<rparr>"

definition peek_vm :: "unit vm" where
  "peek_vm = box_vm\<lparr>vm_module := peek_module\<rparr>"

text \<open>C8. A \<open>LoadField\<close> of a field that the local struct in the slot does not declare is accepted by both
  phases, the second of which takes its type to be \<open>address\<close>, and fails on every value with the fields the struct
  declares.\<close>

theorem undefined_field_read_accepted:
  assumes "parse_module_ref hx n = None" "get_struct m n = Some sd" "find_field g (sd_fields sd) = None"
    and "unat slot < unat (fn_local_count func)" "length (as_locals st) = unat (fn_local_count func)"
    "as_locals st ! unat slot = Live (AStruct n)"
    and "unat slot < length (fr_locals fr)" "fr_locals fr ! unat slot = Some (VStruct t flds)"
    "map fst flds = map fd_name (sd_fields sd)"
  shows "check_instr hx m deps cfg func pc (LoadField slot [g]) = [] \<and>
    ai_instr hx m deps ns func pc (LoadField slot [g]) st = (as_push AAddress st, []) \<and>
    exec_instr hx vm m a (LoadField slot [g]) fr = Err (VmErr (UndefinedField t g))"
proof (intro conjI)
  show "check_instr hx m deps cfg func pc (LoadField slot [g]) = []"
    using assms(4) by (simp add: check_slot_def check_path_def word_le_nat_alt)
  show "ai_instr hx m deps ns func pc (LoadField slot [g]) st = (as_push AAddress st, [])"
    using assms(1-6) by (simp add: ai_load_field_def resolve_field_type_def check_field_read_visibility_def is_astruct_def)
  have "g \<notin> fst ` set flds"
    using assms(3) arg_cong [OF assms(9), of set] by (auto simp: find_field_def find_None_iff)
  then have "map_of flds g = None" by (simp add: map_of_eq_None_iff)
  then show "exec_instr hx vm m a (LoadField slot [g]) fr = Err (VmErr (UndefinedField t g))"
    using assms(7,8) by (simp add: exec_load_field_def local_value_def)
qed

theorem undefined_field_read_accepted_witness:
  "let i = LoadField 0 [''missing''];
       st = \<lparr>as_stack = [], as_locals = [Live (AStruct ''Box'')], as_reachable = True\<rparr>;
       fr = \<lparr>fr_locals = [Some (box_of 1)], fr_stack = [], fr_pc = 1, fr_code = []\<rparr>
   in ai_instr std_hex_codec peek_module [] [] (hd (md_functions peek_module)) 0 i st = (as_push AAddress st, []) \<and>
     exec_instr std_hex_codec peek_vm peek_module box_address i fr = Err (VmErr (UndefinedField ''@0x07::Box'' ''missing''))"
proof -
  let ?st = "\<lparr>as_stack = [], as_locals = [Live (AStruct ''Box'')], as_reachable = True\<rparr>"
  let ?fr = "\<lparr>fr_locals = [Some (box_of 1)], fr_stack = [], fr_pc = 1, fr_code = []\<rparr>"
  have "parse_module_ref std_hex_codec ''Box'' = None" "get_struct peek_module ''Box'' = Some box_struct"
    "find_field ''missing'' (sd_fields box_struct) = None" by code_simp+
  from undefined_field_read_accepted [OF this, of 0 "hd (md_functions peek_module)" ?st ?fr "''@0x07::Box''" "[(''v'', VU64 1)]"
      "[]" compiler_config_default 0 "[]" peek_vm box_address]
  show ?thesis by (simp add: peek_module_def box_of_def box_struct_def)
qed

text \<open>A module with such a read.\<close>

lemma missing_peeked:
  "verify std_hex_codec peek_module [] [] compiler_config_default = Ok () \<and>
   fst (the (vm_call 10 std_hex_codec peek_vm ''peek'' [box_of 1] (gas_meter_new 100) ())) =
     Err (VmErr (UndefinedField ''@0x07::Box'' ''missing''))"
proof
  show "verify std_hex_codec peek_module [] [] compiler_config_default = Ok ()"
    by code_simp
  show "fst (the (vm_call 10 std_hex_codec peek_vm ''peek'' [box_of 1] (gas_meter_new 100) ())) =
     Err (VmErr (UndefinedField ''@0x07::Box'' ''missing''))"
    by code_simp
qed

section \<open>A struct with two fields of one name\<close>

definition twin_module :: module where
  "twin_module = \<lparr>md_name = ''twin'', md_imports = [],
     md_structs = [\<lparr>sd_name = ''Twin'',
       sd_fields = [\<lparr>fd_name = ''v'', fd_ty = TU64\<rparr>, \<lparr>fd_name = ''v'', fd_ty = TU64\<rparr>],
       sd_is_public = True\<rparr>],
     md_functions = [\<lparr>fn_name = ''go'', fn_is_public = True, fn_params = [(''t'', TStruct ''Twin'')],
       fn_return_type = Some TU64, fn_local_count = 1,
       fn_code = [Load 0, UnpackStruct ''Twin'' [''v'', ''v''], Add, Return]\<rparr>]\<rparr>"

definition twin_vm :: "unit vm" where
  "twin_vm = box_vm\<lparr>vm_module := twin_module\<rparr>"

definition twin_of :: "u64 \<Rightarrow> u64 \<Rightarrow> val" where
  "twin_of a b = VStruct ''@0x07::Twin'' [(''v'', VU64 a), (''v'', VU64 b)]"

text \<open>The map of the fields loses an entry with every name taken from it, so a name cannot be taken twice.\<close>

lemma unpack_fields_undefined:
  "g \<in> set names \<Longrightarrow> map_of fm g = None \<Longrightarrow> \<exists>g'. unpack_fields t names fm fr = Inl (VmErr (UndefinedField t g'))"
proof (induction t names fm fr rule: unpack_fields.induct)
  case (2 t name names fm fr)
  have "map_of (filter (\<lambda>(k, _). k \<noteq> name) fm) g = None"
    using 2(3) by (force simp: map_of_eq_None_iff)
  with 2 show ?case by (cases "map_of fm name") auto
qed simp

lemma unpack_fields_repeated:
  "\<not> distinct names \<Longrightarrow> \<exists>g. unpack_fields t names fm fr = Inl (VmErr (UndefinedField t g))"
proof (induction t names fm fr rule: unpack_fields.induct)
  case (2 t name names fm fr)
  have "map_of (filter (\<lambda>(k, _). k \<noteq> name) fm) name = None" by (auto simp: map_of_eq_None_iff)
  with 2 unpack_fields_undefined [of name names _ t] show ?case by (cases "map_of fm name") auto
qed simp

text \<open>C9. A struct definition may repeat a field name: for such a struct \<open>UnpackStruct\<close> is accepted by both phases
  and fails on every value of it, since the fields go through a map.\<close>

theorem duplicate_field_names_accepted:
  assumes "parse_module_ref hx n = None" "get_struct m n = Some sd" "\<not> distinct (map fd_name (sd_fields sd))"
    and "as_stack st = AStruct n # ts" and "fr_stack fr = VStruct t flds # vs"
  shows "check_instr hx m deps cfg func pc (UnpackStruct n (map fd_name (sd_fields sd))) = [] \<and>
    ai_instr hx m deps ns func pc (UnpackStruct n (map fd_name (sd_fields sd))) st =
      (as_push_all (map (\<lambda>fd. from_type (fd_ty fd)) (rev (sd_fields sd))) (st\<lparr>as_stack := ts\<rparr>), []) \<and>
    (\<exists>g. exec_instr hx vm m a (UnpackStruct n (map fd_name (sd_fields sd))) fr = Err (VmErr (UndefinedField t g)))"
  using assms unpack_fields_repeated [of "rev (map fd_name (sd_fields sd))" t]
  by (simp add: check_struct_instr_def ai_unpack_struct_def as_pop_def exec_unpack_struct_def frame_pop_def)

theorem duplicate_field_names_accepted_witness:
  "let i = UnpackStruct ''Twin'' [''v'', ''v''];
       st = \<lparr>as_stack = [AStruct ''Twin''], as_locals = [], as_reachable = True\<rparr>;
       fr = \<lparr>fr_locals = [], fr_stack = [twin_of 1 2], fr_pc = 2, fr_code = []\<rparr>
   in snd (ai_instr std_hex_codec twin_module [] [] (hd (md_functions twin_module)) 1 i st) = [] \<and>
     (\<exists>g. exec_instr std_hex_codec twin_vm twin_module box_address i fr = Err (VmErr (UndefinedField ''@0x07::Twin'' g)))"
proof -
  let ?st = "\<lparr>as_stack = [AStruct ''Twin''], as_locals = [], as_reachable = True\<rparr>"
  let ?fr = "\<lparr>fr_locals = [], fr_stack = [twin_of 1 2], fr_pc = 2, fr_code = []\<rparr>"
  have "parse_module_ref std_hex_codec ''Twin'' = None"
    "get_struct twin_module ''Twin'' = Some (hd (md_structs twin_module))"
    "\<not> distinct (map fd_name (sd_fields (hd (md_structs twin_module))))" by code_simp+
  from duplicate_field_names_accepted [OF this, of ?st "[]" ?fr "''@0x07::Twin''" "[(''v'', VU64 1), (''v'', VU64 2)]" "[]"
      "[]" compiler_config_default "hd (md_functions twin_module)" 1 "[]" twin_vm box_address]
  show ?thesis by (simp add: twin_module_def twin_of_def)
qed

text \<open>A module with such a struct.\<close>

lemma twin_unpacked:
  "verify std_hex_codec twin_module [] [] compiler_config_default = Ok () \<and>
   fst (the (vm_call 10 std_hex_codec twin_vm ''go'' [twin_of 1 2] (gas_meter_new 100) ())) =
     Err (VmErr (UndefinedField ''@0x07::Twin'' ''v''))"
proof
  show "verify std_hex_codec twin_module [] [] compiler_config_default = Ok ()"
    by code_simp
  show "fst (the (vm_call 10 std_hex_codec twin_vm ''go'' [twin_of 1 2] (gas_meter_new 100) ())) =
     Err (VmErr (UndefinedField ''@0x07::Twin'' ''v''))"
    by code_simp
qed

end
