(* ===== verification/Chain_Types.thy ===== *)
theory Chain_Types
  imports Vm_Types "HOL-Library.List_Lexorder"
begin

text \<open>
  The types of the chain: \<open>meow-types/src\<close> (digests, identifiers, objects, transactions, execution
  results, limits, signatures) and the block types of \<open>meow-nakamoto-types/src\<close>.  The chain's
  \<open>Address\<close> is the same 32-byte array as the machine's and shares its type.

  BCS, Blake2b, Base58, Ed25519 and the pseudo-random generator are third-party packages.  What the
  code calls of them is collected in the record \<open>chain_ext\<close>, which the operations take as a
  parameter; their contracts are named predicates on that record.
\<close>

section \<open>The order of addresses\<close>

text \<open>The derived \<open>Ord\<close> of a byte array: lexicographic.\<close>

instantiation address :: linorder
begin

definition less_eq_address :: "address \<Rightarrow> address \<Rightarrow> bool" where
  "less_eq_address a b \<longleftrightarrow> address_bytes a \<le> address_bytes b"

definition less_address :: "address \<Rightarrow> address \<Rightarrow> bool" where
  "less_address a b \<longleftrightarrow> address_bytes a < address_bytes b"

instance
  by standard
    (auto simp: less_eq_address_def less_address_def address_bytes_inject dest: order_antisym)

end

lemma finite_addresses [simp, intro]: "finite (A :: address set)"
proof -
  have "finite {bs :: bytes. length bs = 32}"
    using finite_lists_length_eq [of "UNIV :: u8 set" 32] by simp
  then have "finite (address_bytes ` UNIV)"
    by (rule rev_finite_subset) auto
  then have "finite (UNIV :: address set)"
    by (rule finite_imageD) (auto intro: injI simp: address_bytes_inject)
  then show ?thesis by (rule rev_finite_subset) simp
qed

section \<open>Digests and identifiers\<close>

text \<open>\<open>Digest([u8; 32])\<close>.\<close>

datatype digest = Digest (digest_array: address)

definition digest_zero :: digest where
  "digest_zero = Digest address_zero"

instantiation digest :: linorder
begin

definition less_eq_digest :: "digest \<Rightarrow> digest \<Rightarrow> bool" where
  "less_eq_digest d e \<longleftrightarrow> digest_array d \<le> digest_array e"

definition less_digest :: "digest \<Rightarrow> digest \<Rightarrow> bool" where
  "less_digest d e \<longleftrightarrow> digest_array d < digest_array e"

instance
  by standard (auto simp: less_eq_digest_def less_digest_def intro: digest.expand)

end

definition digest_bytes :: "digest \<Rightarrow> bytes" where
  "digest_bytes d = address_bytes (digest_array d)"

datatype digest_error = InvalidDigestBytesLength nat nat

definition digest_try_from :: "bytes \<Rightarrow> digest_error + digest" where
  "digest_try_from bs =
     (if length bs = 32 then Ok (Digest (address_new bs))
      else Err (InvalidDigestBytesLength (length bs) 32))"

datatype ident = Identifier (ident_str: string)

section \<open>Limits\<close>

definition MAX_BCS_SERIALIZED_MODULE_SIZE :: nat where
  "MAX_BCS_SERIALIZED_MODULE_SIZE = 512 * 1024"

definition MEOW_CALL_TRANSACTION_BCS_BYTES_MAX_SIZE :: nat where
  "MEOW_CALL_TRANSACTION_BCS_BYTES_MAX_SIZE = 32 * 1024"

definition MEOW_PUBLISH_MODULE_TRANSACTION_BCS_BYTES_MAX_SIZE :: nat where
  "MEOW_PUBLISH_MODULE_TRANSACTION_BCS_BYTES_MAX_SIZE = MAX_BCS_SERIALIZED_MODULE_SIZE + 1024"

definition NATIVE_FN_FRESH_ID :: string where "NATIVE_FN_FRESH_ID = ''meow_vm_fresh_id''"

definition NATIVE_FN_TRANSFER :: string where "NATIVE_FN_TRANSFER = ''meow_vm_transfer''"

definition NATIVE_FN_DESTROY :: string where "NATIVE_FN_DESTROY = ''meow_vm_destroy''"

definition NATIVE_FN_SENDER :: string where "NATIVE_FN_SENDER = ''meow_vm_sender''"

definition NATIVE_FN_RAND :: string where "NATIVE_FN_RAND = ''meow_vm_rand''"

definition NATIVE_FN_TIMESTAMP :: string where "NATIVE_FN_TIMESTAMP = ''meow_vm_timestamp''"

definition NATIVE_FUNCTION_NAMES :: "string list" where
  "NATIVE_FUNCTION_NAMES =
     [NATIVE_FN_FRESH_ID, NATIVE_FN_TRANSFER, NATIVE_FN_DESTROY, NATIVE_FN_SENDER, NATIVE_FN_RAND,
      NATIVE_FN_TIMESTAMP]"

lemmas native_names =
  NATIVE_FN_FRESH_ID_def NATIVE_FN_TRANSFER_def NATIVE_FN_DESTROY_def NATIVE_FN_SENDER_def
  NATIVE_FN_RAND_def NATIVE_FN_TIMESTAMP_def

definition compiler_config_chain :: compiler_config where
  "compiler_config_chain =
     compiler_config_default\<lparr>reserved_function_names := NATIVE_FUNCTION_NAMES\<rparr>"

definition vm_config_chain :: vm_config where
  "vm_config_chain = vm_config_default"

definition vm_config_privileged :: vm_config where
  "vm_config_privileged = vm_config_chain\<lparr>enable_call_private_functions := True\<rparr>"

datatype identifier_error = InvalidIdentifierName string

definition identifier_is_valid :: "string \<Rightarrow> bool" where
  "identifier_is_valid name = is_valid_identifier name compiler_config_chain"

definition identifier_new :: "string \<Rightarrow> identifier_error + ident" where
  "identifier_new s =
     (if identifier_is_valid s then Ok (Identifier s) else Err (InvalidIdentifierName s))"

section \<open>Objects\<close>

datatype object_owner = OwnerAddress address | OwnerImmutable

fun owner_address :: "object_owner \<Rightarrow> address option" where
  "owner_address (OwnerAddress a) = Some a"
| "owner_address OwnerImmutable = None"

definition is_address_owned :: "object_owner \<Rightarrow> bool" where
  "is_address_owned ow = (case ow of OwnerAddress _ \<Rightarrow> True | OwnerImmutable \<Rightarrow> False)"

definition is_immutable :: "object_owner \<Rightarrow> bool" where
  "is_immutable ow = (case ow of OwnerAddress _ \<Rightarrow> False | OwnerImmutable \<Rightarrow> True)"

type_synonym object_version = u64

definition VERSION_ZERO :: object_version where "VERSION_ZERO = 0"

definition VERSION_ONE :: object_version where "VERSION_ONE = 1"

definition VERSION_MAX :: object_version where "VERSION_MAX = - 1"

definition version_next :: "object_version \<Rightarrow> object_version option" where
  "version_next v = (if v = VERSION_MAX then None else Some (v + 1))"

record object_decl_ref =
  odr_module :: address
  odr_name :: ident

datatype object_type = ModuleTy | ObjectTy object_decl_ref

record object =
  ob_address :: address
  ob_owner :: object_owner
  ob_transaction :: digest
  ob_version :: object_version
  ob_type :: object_type
  ob_content :: bytes

definition fresh_object ::
    "address \<Rightarrow> address \<Rightarrow> digest \<Rightarrow> object_decl_ref \<Rightarrow> bytes \<Rightarrow> object" where
  "fresh_object addr owner tx decl content =
     \<lparr>ob_address = addr, ob_owner = OwnerAddress owner, ob_transaction = tx,
      ob_version = VERSION_ONE, ob_type = ObjectTy decl, ob_content = content\<rparr>"

definition fresh_module :: "address \<Rightarrow> digest \<Rightarrow> bytes \<Rightarrow> object" where
  "fresh_module addr tx content =
     \<lparr>ob_address = addr, ob_owner = OwnerImmutable, ob_transaction = tx,
      ob_version = VERSION_ONE, ob_type = ModuleTy, ob_content = content\<rparr>"

record object_ref =
  or_address :: address
  or_version :: object_version
  or_digest :: digest

section \<open>Transactions\<close>

datatype input = InObject object_ref | InRaw bytes

record call =
  ca_module :: address
  ca_function :: ident
  ca_arguments :: "input list"

datatype transaction_type = MeowCall call | MeowModulePublish bytes

record transaction =
  tx_sender :: address
  tx_gas_coin :: object_ref
  tx_type :: transaction_type

text \<open>\<open>Signature::Ed25519(Ed25519Signature(signature, verification_key))\<close>, both as raw bytes.\<close>

datatype signature = Ed25519 (sig_bytes: bytes) (sig_key: bytes)

datatype signed_transaction = SignedTransaction (st_transaction: transaction) (st_signature: signature)

datatype execution_status = Success | Failure string

record execution_result =
  er_status :: execution_status
  er_transaction_digest :: digest
  er_created :: "object list"
  er_changed :: "object list"
  er_destroyed :: "object list"
  er_gas_used :: u64

definition execution_result_new ::
    "execution_status \<Rightarrow> digest \<Rightarrow> object list \<Rightarrow> object list \<Rightarrow> object list \<Rightarrow> execution_result" where
  "execution_result_new status tx created changed destroyed =
     \<lparr>er_status = status, er_transaction_digest = tx, er_created = created, er_changed = changed,
      er_destroyed = destroyed, er_gas_used = 0\<rparr>"

definition execution_failure :: "string \<Rightarrow> digest \<Rightarrow> execution_result" where
  "execution_failure message tx = execution_result_new (Failure message) tx [] [] []"

definition with_gas_used :: "u64 \<Rightarrow> execution_result \<Rightarrow> execution_result" where
  "with_gas_used gas r = r\<lparr>er_gas_used := gas\<rparr>"

section \<open>Blocks\<close>

record block_header =
  bh_height :: u64
  bh_parent_hash :: digest
  bh_transactions_root :: digest
  bh_reward_root :: "digest option"
  bh_state_root :: digest
  bh_timestamp :: u64
  bh_nonce :: u64

record mining_block_header =
  mh_height :: u64
  mh_parent_hash :: digest
  mh_transactions_root :: digest
  mh_timestamp :: u64
  mh_nonce :: u64

definition mining_header_of :: "block_header \<Rightarrow> mining_block_header" where
  "mining_header_of h =
     \<lparr>mh_height = bh_height h, mh_parent_hash = bh_parent_hash h,
      mh_transactions_root = bh_transactions_root h, mh_timestamp = bh_timestamp h,
      mh_nonce = bh_nonce h\<rparr>"

record block =
  bl_header :: block_header
  bl_transactions :: "signed_transaction list"
  bl_results :: "execution_result list"
  bl_reward_transaction :: "signed_transaction option"
  bl_reward_transaction_result :: "execution_result option"

definition MAX_TRANSACTIONS_PER_BLOCK :: nat where
  "MAX_TRANSACTIONS_PER_BLOCK = 256"

definition block_genesis :: block where
  "block_genesis =
     \<lparr>bl_header = \<lparr>bh_height = 0, bh_parent_hash = digest_zero, bh_transactions_root = digest_zero,
        bh_reward_root = None, bh_state_root = digest_zero, bh_timestamp = 0, bh_nonce = 0\<rparr>,
      bl_transactions = [], bl_results = [], bl_reward_transaction = None,
      bl_reward_transaction_result = None\<rparr>"

section \<open>Third-party packages\<close>

text \<open>
  The calls the code makes: \<open>prefix_hex\<close>, \<open>blake2\<close> (256-bit digests), \<open>bs58\<close>, \<open>bcs::to_bytes\<close> and
  \<open>bcs::from_bytes\<close> at each type they are used at (a decoding error carries its message; encoding
  fields can fail on values nested too deep),
  \<open>ed25519_consensus\<close> and \<open>rand::rngs::StdRng\<close> (the sequence of \<open>next_u64\<close> of a seed).
\<close>

record chain_ext =
  cx_hex :: hex_codec
  cx_blake :: "bytes \<Rightarrow> address"
  cx_bs58 :: "bytes \<Rightarrow> string"
  cx_fields :: "(string \<times> val) list \<Rightarrow> string + bytes"
  cx_fields_de :: "bytes \<Rightarrow> string + (string \<times> val) list"
  cx_module_de :: "bytes \<Rightarrow> string + module"
  cx_u64 :: "u64 \<Rightarrow> bytes"
  cx_u64_de :: "bytes \<Rightarrow> string + u64"
  cx_bool :: "bool \<Rightarrow> bytes"
  cx_bool_de :: "bytes \<Rightarrow> string + bool"
  cx_address :: "address \<Rightarrow> bytes"
  cx_address_de :: "bytes \<Rightarrow> string + address"
  cx_string :: "string \<Rightarrow> bytes"
  cx_string_de :: "bytes \<Rightarrow> string + string"
  cx_object :: "object \<Rightarrow> bytes"
  cx_objects :: "object list \<Rightarrow> bytes"
  cx_transaction :: "transaction \<Rightarrow> bytes"
  cx_digests :: "digest list \<Rightarrow> bytes"
  cx_byte_vec :: "bytes \<Rightarrow> bytes"
  cx_header :: "block_header \<Rightarrow> bytes"
  cx_mining_header :: "mining_block_header \<Rightarrow> bytes"
  cx_verify :: "bytes \<Rightarrow> bytes \<Rightarrow> bytes \<Rightarrow> bool"
  cx_sign :: "bytes \<Rightarrow> bytes \<Rightarrow> bytes"
  cx_public :: "bytes \<Rightarrow> bytes"
  cx_rng :: "digest \<Rightarrow> nat \<Rightarrow> u64"

text \<open>\<open>Digest::compute\<close> of a value with the given serialization.\<close>

definition digest_compute :: "chain_ext \<Rightarrow> bytes \<Rightarrow> digest" where
  "digest_compute x serialized = Digest (cx_blake x serialized)"

definition digest_display :: "chain_ext \<Rightarrow> digest \<Rightarrow> string" where
  "digest_display x d = cx_bs58 x (digest_bytes d)"

definition object_digest :: "chain_ext \<Rightarrow> object \<Rightarrow> digest" where
  "object_digest x ob = digest_compute x (cx_object x ob)"

definition object_ref_of :: "chain_ext \<Rightarrow> object \<Rightarrow> object_ref" where
  "object_ref_of x ob =
     \<lparr>or_address = ob_address ob, or_version = ob_version ob, or_digest = object_digest x ob\<rparr>"

definition transaction_digest :: "chain_ext \<Rightarrow> transaction \<Rightarrow> digest" where
  "transaction_digest x tx = digest_compute x (cx_transaction x tx)"

definition header_hash :: "chain_ext \<Rightarrow> block_header \<Rightarrow> digest" where
  "header_hash x h = digest_compute x (cx_header x h)"

definition mining_header_hash :: "chain_ext \<Rightarrow> mining_block_header \<Rightarrow> digest" where
  "mining_header_hash x h = digest_compute x (cx_mining_header x h)"

definition mining_hash :: "chain_ext \<Rightarrow> block_header \<Rightarrow> digest" where
  "mining_hash x h = mining_header_hash x (mining_header_of h)"

definition block_hash :: "chain_ext \<Rightarrow> block \<Rightarrow> digest" where
  "block_hash x b = header_hash x (bl_header b)"

text \<open>\<open>number.to_le_bytes()\<close> and \<open>Address::derive\<close>.\<close>

definition to_le_bytes :: "u64 \<Rightarrow> bytes" where
  "to_le_bytes n = map (\<lambda>i. ucast (drop_bit (8 * i) n)) [0 ..< 8]"

definition address_derive :: "chain_ext \<Rightarrow> digest \<Rightarrow> u8 \<Rightarrow> u64 \<Rightarrow> address" where
  "address_derive x d tag number = cx_blake x (tag # digest_bytes d @ to_le_bytes number)"

text \<open>\<open>Address::from(PublicKey)\<close> with the flag of the only scheme, and \<open>Signature::signer\<close>.\<close>

definition ED25519_FLAG :: u8 where
  "ED25519_FLAG = 0"

definition address_of_key :: "chain_ext \<Rightarrow> bytes \<Rightarrow> address" where
  "address_of_key x key = cx_blake x (ED25519_FLAG # key)"

definition signature_signer :: "chain_ext \<Rightarrow> signature \<Rightarrow> address" where
  "signature_signer x s = address_of_key x (sig_key s)"

definition signature_verify :: "chain_ext \<Rightarrow> signature \<Rightarrow> bytes \<Rightarrow> bool" where
  "signature_verify x s msg = cx_verify x (sig_bytes s) (sig_key s) msg"

text \<open>A key pair is its private key; \<open>KeyPair::sign\<close> attaches the public key.\<close>

type_synonym keypair = bytes

definition keypair_sign :: "chain_ext \<Rightarrow> keypair \<Rightarrow> bytes \<Rightarrow> signature" where
  "keypair_sign x kp msg = Ed25519 (cx_sign x kp msg) (cx_public x kp)"

definition keypair_address :: "chain_ext \<Rightarrow> keypair \<Rightarrow> address" where
  "keypair_address x kp = address_of_key x (cx_public x kp)"

definition transaction_sign :: "chain_ext \<Rightarrow> keypair \<Rightarrow> transaction \<Rightarrow> signed_transaction \<times> digest" where
  "transaction_sign x kp tx =
     (let d = transaction_digest x tx in (SignedTransaction tx (keypair_sign x kp (digest_bytes d)), d))"

section \<open>Versions\<close>

lemma version_next_Some_iff:
  "version_next v = Some w \<longleftrightarrow> v \<noteq> - 1 \<and> w = v + 1"
  by (auto simp: version_next_def VERSION_MAX_def)

lemma version_next_less: "version_next v = Some w \<Longrightarrow> v < w"
  by (auto simp: version_next_Some_iff word_less_nat_alt unat_plus_one)

end
