(* ===== verification/Bcs_Codec.thy ===== *)
theory Bcs_Codec
  imports Chain_Types
begin

text \<open>
  The contract of \<open>bcs\<close> at the types the chain decodes, as a locale, and a codec in the documented
  format (lengths and variant indices in ULEB128, integers little-endian, the fields of a struct in
  order) that meets it.
\<close>

section \<open>The contract\<close>

text \<open>
  The limits \<open>bcs\<close> documents: sequences and strings of less than 2^31 elements and containers nested
  at most 500 deep; 400 levels of values stay below it.
\<close>

fun val_depth :: "val \<Rightarrow> nat" where
  "val_depth (VStruct _ flds) = Suc (foldr max (map (\<lambda>(_, v). val_depth v) flds) 0)"
| "val_depth (VTuple vs) = Suc (foldr max (map val_depth vs) 0)"
| "val_depth _ = 1"

fun val_small :: "val \<Rightarrow> bool" where
  "val_small (VStr s) \<longleftrightarrow> length s < 2147483648"
| "val_small (VStruct n flds) \<longleftrightarrow>
     length n < 2147483648 \<and> length flds < 2147483648 \<and>
     list_all (\<lambda>(f, v). length f < 2147483648 \<and> val_small v) flds"
| "val_small (VTuple vs) \<longleftrightarrow> length vs < 2147483648 \<and> list_all val_small vs"
| "val_small _ \<longleftrightarrow> True"

definition bcs_limits :: "(string \<times> val) list \<Rightarrow> bool" where
  "bcs_limits flds \<longleftrightarrow>
     length flds < 2147483648 \<and>
     list_all (\<lambda>(f, v). length f < 2147483648 \<and> val_depth v \<le> 400 \<and> val_small v) flds"

text \<open>
  Decoding what was encoded gives the value back, encoding succeeds within the limits, and an
  address is encoded by its 32 bytes.
\<close>

definition bcs_ok :: "chain_ext \<Rightarrow> bool" where
  "bcs_ok x \<longleftrightarrow>
     (\<forall>fs bs. cx_fields x fs = Ok bs \<longrightarrow> cx_fields_de x bs = Ok fs) \<and>
     (\<forall>fs. bcs_limits fs \<longrightarrow> (\<exists>bs. cx_fields x fs = Ok bs)) \<and>
     (\<forall>n. cx_u64_de x (cx_u64 x n) = Ok n) \<and>
     (\<forall>b. cx_bool_de x (cx_bool x b) = Ok b) \<and>
     (\<forall>s. length s < 2147483648 \<longrightarrow> cx_string_de x (cx_string x s) = Ok s) \<and>
     (\<forall>a. cx_address x a = address_bytes a \<and> cx_address_de x (address_bytes a) = Ok a)"

locale bcs =
  fixes x :: chain_ext
  assumes bcs_contract: "bcs_ok x"
begin

lemma fields_roundtrip: "cx_fields x fs = Ok bs \<Longrightarrow> cx_fields_de x bs = Ok fs"
  using bcs_contract by (simp add: bcs_ok_def)

lemma fields_encode:
  assumes "bcs_limits fs"
  obtains bs where "cx_fields x fs = Ok bs" "cx_fields_de x bs = Ok fs"
  using bcs_contract assms unfolding bcs_ok_def by blast

lemma fields_inj: "cx_fields x fs = Ok bs \<Longrightarrow> cx_fields x gs = Ok bs \<Longrightarrow> fs = gs"
  using fields_roundtrip [of fs bs] fields_roundtrip [of gs bs] by simp

lemma u64_roundtrip [simp]: "cx_u64_de x (cx_u64 x n) = Ok n"
  using bcs_contract by (simp add: bcs_ok_def)

lemma bool_roundtrip [simp]: "cx_bool_de x (cx_bool x b) = Ok b"
  using bcs_contract by (simp add: bcs_ok_def)

lemma address_encoding [simp]: "cx_address x a = address_bytes a"
  using bcs_contract by (simp add: bcs_ok_def)

lemma address_decoding [simp]: "cx_address_de x (address_bytes a) = Ok a"
  using bcs_contract by (simp add: bcs_ok_def)

end

section \<open>Primitive encodings\<close>

fun uleb :: "nat \<Rightarrow> bytes" where
  "uleb n = (if n < 128 then [word_of_nat n] else word_of_nat (128 + n mod 128) # uleb (n div 128))"

declare uleb.simps [simp del]

fun uleb_de :: "bytes \<Rightarrow> (nat \<times> bytes) option" where
  "uleb_de [] = None"
| "uleb_de (b # bs) =
     (if unat b < 128 then Some (unat b, bs)
      else case uleb_de bs of
        None \<Rightarrow> None
      | Some (n, rest) \<Rightarrow> Some (unat b - 128 + 128 * n, rest))"

lemma unat_byte: "n < 256 \<Longrightarrow> unat (word_of_nat n :: u8) = n"
  by (simp add: unat_of_nat)

lemma uleb_de_uleb [simp]: "uleb_de (uleb n @ rest) = Some (n, rest)"
proof (induction n rule: uleb.induct)
  case (1 n)
  show ?case
  proof (cases "n < 128")
    case True
    then show ?thesis by (simp add: uleb.simps [of n] unat_byte)
  next
    case False
    have "128 + n mod 128 < 256" by simp
    then have "unat (word_of_nat (128 + n mod 128) :: u8) = 128 + n mod 128" by (rule unat_byte)
    then show ?thesis using 1 [OF False] False by (simp add: uleb.simps [of n] del: of_nat_add)
  qed
qed

lemma uleb_nonempty: "0 < length (uleb n)"
  by (subst uleb.simps) simp

definition byte_of_char :: "char \<Rightarrow> u8" where
  "byte_of_char c = word_of_nat (of_char c)"

definition char_of_byte :: "u8 \<Rightarrow> char" where
  "char_of_byte b = char_of (unat b)"

lemma char_of_byte_of_char [simp]: "char_of_byte (byte_of_char c) = c"
  by (simp add: char_of_byte_def byte_of_char_def unat_byte)

definition enc_string :: "string \<Rightarrow> bytes" where
  "enc_string s = uleb (length s) @ map byte_of_char s"

definition dec_string :: "bytes \<Rightarrow> (string \<times> bytes) option" where
  "dec_string bs =
     (case uleb_de bs of
        None \<Rightarrow> None
      | Some (n, rest) \<Rightarrow>
          if length rest < n then None else Some (map char_of_byte (take n rest), drop n rest))"

lemma dec_enc_string [simp]: "dec_string (enc_string s @ rest) = Some (s, rest)"
  by (simp add: dec_string_def enc_string_def comp_def)

definition dec_u64 :: "bytes \<Rightarrow> (u64 \<times> bytes) option" where
  "dec_u64 bs =
     (if length bs < 8 then None
      else Some (foldr (\<lambda>b acc. ucast b + 256 * acc) (take 8 bs) 0, drop 8 bs))"

lemma length_to_le_bytes [simp]: "length (to_le_bytes n) = 8"
  by (simp add: to_le_bytes_def)

lemma le_bytes_value: "foldr (\<lambda>b acc. ucast b + 256 * acc) (to_le_bytes n) 0 = n"
proof -
  have step: "ucast (ucast m :: u8) + 256 * drop_bit 8 m = m" for m :: u64
  proof -
    have "ucast (ucast m :: u8) = take_bit 8 m" by (simp add: unsigned_ucast_eq)
    moreover have "256 * drop_bit 8 m = push_bit 8 (drop_bit 8 m)" by (simp add: push_bit_eq_mult)
    ultimately show ?thesis using bits_ident [of 8 m] by (simp add: add.commute)
  qed
  have "drop_bit 64 n = 0" by (rule bit_word_eqI) (simp add: bit_drop_bit_eq)
  then show ?thesis
    using step [of n] step [of "drop_bit 8 n"] step [of "drop_bit 16 n"] step [of "drop_bit 24 n"]
      step [of "drop_bit 32 n"] step [of "drop_bit 40 n"] step [of "drop_bit 48 n"]
      step [of "drop_bit 56 n"]
    by (simp add: to_le_bytes_def upt_rec)
qed

lemma dec_enc_u64 [simp]: "dec_u64 (to_le_bytes n @ rest) = Some (n, rest)"
  by (simp add: dec_u64_def le_bytes_value)

section \<open>Values and field lists\<close>

fun enc_val :: "val \<Rightarrow> bytes" where
  "enc_val (VBool b) = [0, if b then 1 else 0]"
| "enc_val (VU64 n) = 1 # to_le_bytes n"
| "enc_val (VAddress a) = 2 # address_bytes a"
| "enc_val (VStr s) = 3 # enc_string s"
| "enc_val VVoid = [4]"
| "enc_val (VStruct type_name flds) =
     5 # enc_string type_name @ uleb (length flds) @
     concat (map (\<lambda>(n, v). enc_string n @ enc_val v) flds)"
| "enc_val (VTuple vs) = 6 # uleb (length vs) @ concat (map enc_val vs)"

fun dec_many :: "(bytes \<Rightarrow> ('a \<times> bytes) option) \<Rightarrow> nat \<Rightarrow> bytes \<Rightarrow> ('a list \<times> bytes) option" where
  "dec_many f 0 bs = Some ([], bs)"
| "dec_many f (Suc n) bs =
     (case f bs of
        None \<Rightarrow> None
      | Some (y, bs) \<Rightarrow>
          (case dec_many f n bs of None \<Rightarrow> None | Some (ys, bs) \<Rightarrow> Some (y # ys, bs)))"

definition dec_named :: "(bytes \<Rightarrow> ('a \<times> bytes) option) \<Rightarrow> bytes \<Rightarrow> ((string \<times> 'a) \<times> bytes) option" where
  "dec_named f bs =
     (case dec_string bs of
        None \<Rightarrow> None
      | Some (n, bs) \<Rightarrow> (case f bs of None \<Rightarrow> None | Some (v, bs) \<Rightarrow> Some ((n, v), bs)))"

text \<open>The nesting depth is bounded by the number of bytes, which serves as fuel.\<close>

fun dec_val :: "nat \<Rightarrow> bytes \<Rightarrow> (val \<times> bytes) option" where
  "dec_val 0 bs = None"
| "dec_val (Suc k) bs =
     (case bs of
        [] \<Rightarrow> None
      | tag # bs \<Rightarrow>
          if tag = 0 then
            (case bs of b # rest \<Rightarrow> Some (VBool (b = 1), rest) | [] \<Rightarrow> None)
          else if tag = 1 then
            (case dec_u64 bs of Some (n, rest) \<Rightarrow> Some (VU64 n, rest) | None \<Rightarrow> None)
          else if tag = 2 then
            (if length bs < 32 then None else Some (VAddress (address_new (take 32 bs)), drop 32 bs))
          else if tag = 3 then
            (case dec_string bs of Some (s, rest) \<Rightarrow> Some (VStr s, rest) | None \<Rightarrow> None)
          else if tag = 4 then Some (VVoid, bs)
          else if tag = 5 then
            (case dec_string bs of
               None \<Rightarrow> None
             | Some (tn, bs) \<Rightarrow>
                 (case uleb_de bs of
                    None \<Rightarrow> None
                  | Some (n, bs) \<Rightarrow>
                      (case dec_many (dec_named (dec_val k)) n bs of
                         None \<Rightarrow> None
                       | Some (flds, bs) \<Rightarrow> Some (VStruct tn flds, bs))))
          else if tag = 6 then
            (case uleb_de bs of
               None \<Rightarrow> None
             | Some (n, bs) \<Rightarrow>
                 (case dec_many (dec_val k) n bs of
                    None \<Rightarrow> None
                  | Some (vs, bs) \<Rightarrow> Some (VTuple vs, bs)))
          else None)"

lemma dec_many_enc:
  "(\<And>y rest. y \<in> set ys \<Longrightarrow> f (enc y @ rest) = Some (y, rest)) \<Longrightarrow>
     dec_many f (length ys) (concat (map enc ys) @ rest) = Some (ys, rest)"
  by (induction ys) auto

lemma dec_named_enc:
  "(\<And>rest. f (enc (snd y) @ rest) = Some (snd y, rest)) \<Longrightarrow>
     dec_named f ((\<lambda>(n, v). enc_string n @ enc v) y @ rest) = Some (y, rest)"
  by (cases y) (simp add: dec_named_def)

lemma length_concat_mem: "y \<in> set ys \<Longrightarrow> length (f y) \<le> length (concat (map f ys))"
  by (induction ys) auto

lemma dec_val_enc: "length (enc_val v) \<le> k \<Longrightarrow> dec_val k (enc_val v @ rest) = Some (v, rest)"
proof (induction v arbitrary: k rest)
  case (VStruct tn flds)
  then obtain k' where k: "k = Suc k'" by (cases k) auto
  let ?enc = "\<lambda>(n, v). enc_string n @ enc_val v"
  have "dec_named (dec_val k') (?enc y @ rest) = Some (y, rest)" if y: "y \<in> set flds" for y rest
  proof (rule dec_named_enc, rule VStruct.IH [of y])
    show "y \<in> set flds" by (rule y)
    show "snd y \<in> Basic_BNFs.snds y" by (cases y) simp
    show "length (enc_val (snd y)) \<le> k'"
      using length_concat_mem [OF y, of ?enc] VStruct.prems k by (cases y) simp
  qed
  from dec_many_enc [OF this] show ?case by (simp add: k)
next
  case (VTuple vs)
  then obtain k' where k: "k = Suc k'" by (cases k) auto
  have "dec_val k' (enc_val y @ rest) = Some (y, rest)" if y: "y \<in> set vs" for y rest
    using VTuple.IH [OF y] length_concat_mem [OF y, of enc_val] VTuple.prems k by simp
  from dec_many_enc [OF this] show ?case by (simp add: k)
next
  case (VBool b)
  then show ?case by (cases k) auto
next
  case (VU64 n)
  then show ?case by (cases k) simp_all
next
  case (VAddress a)
  then show ?case by (cases k) simp_all
next
  case (VStr s)
  then show ?case by (cases k) simp_all
next
  case VVoid
  then show ?case by (cases k) simp_all
qed

lemma dec_val_exact: "dec_val (length (enc_val v)) (enc_val v) = Some (v, [])"
  using dec_val_enc [of v "length (enc_val v)" "[]"] by simp

definition enc_fields :: "(string \<times> val) list \<Rightarrow> bytes" where
  "enc_fields flds = uleb (length flds) @ concat (map (\<lambda>(n, v). enc_string n @ enc_val v) flds)"

text \<open>\<open>from_bytes\<close> fails on input that is left over.\<close>

definition dec_all :: "(bytes \<Rightarrow> ('a \<times> bytes) option) \<Rightarrow> bytes \<Rightarrow> string + 'a" where
  "dec_all f bs = (case f bs of Some (y, []) \<Rightarrow> Ok y | _ \<Rightarrow> Err ''remaining input'')"

definition dec_fields :: "bytes \<Rightarrow> ((string \<times> val) list \<times> bytes) option" where
  "dec_fields bs =
     (case uleb_de bs of
        None \<Rightarrow> None
      | Some (n, rest) \<Rightarrow> dec_many (dec_named (dec_val (length bs))) n rest)"

lemma dec_enc_fields: "dec_fields (enc_fields flds) = Some (flds, [])"
proof -
  let ?enc = "\<lambda>(n, v). enc_string n @ enc_val v" and ?k = "length (enc_fields flds)"
  have "dec_named (dec_val ?k) (?enc y @ rest) = Some (y, rest)" if y: "y \<in> set flds" for y rest
  proof (rule dec_named_enc, rule dec_val_enc)
    show "length (enc_val (snd y)) \<le> ?k"
      using length_concat_mem [OF y, of ?enc] by (cases y) (simp add: enc_fields_def)
  qed
  from dec_many_enc [of flds, OF this, of "[]"] show ?thesis
    by (simp add: dec_fields_def enc_fields_def)
qed

section \<open>A concrete instance\<close>

text \<open>
  The externals with this codec.  The hash is the last 32 bytes of the input and a signature is the
  key followed by the message: enough to run the chain on concrete data.
\<close>

definition sample_blake :: "bytes \<Rightarrow> address" where
  "sample_blake bs = address_new (rev (take 32 (rev bs @ replicate 32 0)))"

definition sample_ext :: chain_ext where
  "sample_ext =
     \<lparr>cx_hex = std_hex_codec,
      cx_blake = sample_blake,
      cx_bs58 = map char_of_byte,
      cx_fields = (\<lambda>flds. Ok (enc_fields flds)),
      cx_fields_de = dec_all dec_fields,
      cx_module_de = (\<lambda>_. Err ''module''),
      cx_u64 = to_le_bytes,
      cx_u64_de = dec_all dec_u64,
      cx_bool = (\<lambda>b. [if b then 1 else 0]),
      cx_bool_de = (\<lambda>bs. if bs = [0] then Ok False else if bs = [1] then Ok True else Err ''bool''),
      cx_address = address_bytes,
      cx_address_de = (\<lambda>bs. if length bs = 32 then Ok (address_new bs) else Err ''address''),
      cx_string = enc_string,
      cx_string_de = dec_all dec_string,
      cx_object = (\<lambda>ob. ob_content ob @ to_le_bytes (ob_version ob) @ address_bytes (ob_address ob)),
      cx_objects = (\<lambda>obs. concat (map (\<lambda>ob. address_bytes (ob_address ob)) obs)),
      cx_transaction = (\<lambda>tx. address_bytes (or_address (tx_gas_coin tx)) @ to_le_bytes (or_version (tx_gas_coin tx))),
      cx_digests = (\<lambda>ds. concat (map digest_bytes ds)),
      cx_byte_vec = (\<lambda>bs. uleb (length bs) @ bs),
      cx_header = (\<lambda>h. to_le_bytes (bh_height h) @ to_le_bytes (bh_timestamp h) @ to_le_bytes (bh_nonce h) @ [1]),
      cx_mining_header = (\<lambda>h. to_le_bytes (mh_timestamp h) @ to_le_bytes (mh_nonce h)),
      cx_verify = (\<lambda>s key msg. s = key @ msg),
      cx_sign = (\<lambda>kp msg. kp @ msg),
      cx_public = (\<lambda>kp. kp),
      cx_rng = (\<lambda>d n. word_of_nat n)\<rparr>"

interpretation std_bcs: bcs sample_ext
proof
  have "dec_all dec_u64 (to_le_bytes n) = Ok n" for n
    using dec_enc_u64 [of n "[]"] by (simp add: dec_all_def del: dec_enc_u64)
  moreover have "dec_all dec_string (enc_string s) = Ok s" for s
    using dec_enc_string [of s "[]"] by (simp add: dec_all_def del: dec_enc_string)
  moreover have "dec_all dec_fields (enc_fields fs) = Ok fs" for fs
    by (simp add: dec_all_def dec_enc_fields)
  ultimately show "bcs_ok sample_ext"
    by (simp add: bcs_ok_def sample_ext_def)
qed

end
