(* ===== verification/Object_Model.thy ===== *)
theory Object_Model
  imports Bcs_Codec "HOL-Library.AList_Mapping"
begin

text \<open>
  VM values and chain objects: the conversions of \<open>meow-vm-types/src/convert/mod.rs\<close>, the types of
  the \<open>meow_object\<close> and \<open>meow_coin\<close> system modules
  (\<open>meow-types/src/system_framework/\<close>) and \<open>object/object_conversion/mod.rs\<close>.
\<close>

section \<open>Conversion between values and Rust types\<close>

text \<open>A call that can fail and whose \<open>expect\<close> can panic.\<close>

datatype 'e fault = Fail 'e | Panicked string

datatype conversion_error = BcsError string | UnsupportedType string

text \<open>\<open>ValueToRust\<close>: the serialization of a value without its discriminant.  The codec of the leaves is taken to be
  total: its own limits on long strings and deep nesting are not part of the sources.\<close>

fun value_to_bytes :: "chain_ext \<Rightarrow> val \<Rightarrow> conversion_error + bytes"
and values_to_bytes :: "chain_ext \<Rightarrow> (string \<times> val) list \<Rightarrow> conversion_error + bytes" where
  "value_to_bytes x (VBool b) = Ok (cx_bool x b)"
| "value_to_bytes x (VU64 n) = Ok (cx_u64 x n)"
| "value_to_bytes x (VAddress a) = Ok (cx_address x a)"
| "value_to_bytes x (VStr s) = Ok (cx_string x s)"
| "value_to_bytes x VVoid = Err (BcsError ''void value cannot be serialized'')"
| "value_to_bytes x (VTuple vs) = Err (BcsError ''tuple value cannot be serialized to BCS'')"
| "value_to_bytes x (VStruct _ flds) = values_to_bytes x flds"
| "values_to_bytes x [] = Ok []"
| "values_to_bytes x ((_, v) # flds) =
     and_then (value_to_bytes x v) (\<lambda>bs. and_then (values_to_bytes x flds) (\<lambda>rest. Ok (bs @ rest)))"

definition value_to_rust ::
    "chain_ext \<Rightarrow> (bytes \<Rightarrow> string + 'a) \<Rightarrow> val \<Rightarrow> conversion_error + 'a" where
  "value_to_rust x from_bytes v =
     and_then (value_to_bytes x v) (\<lambda>bs.
       case from_bytes bs of Inl e \<Rightarrow> Err (BcsError e) | Inr r \<Rightarrow> Ok r)"

text \<open>The data model of \<open>serde\<close>: what a type's \<open>Serialize\<close> hands to the serializer.\<close>

datatype serde =
    SBool bool | SU8 u8 | SU16 u16 | SU32 "32 word" | SU64 u64 | SStr string | SBytes bytes
  | SStruct string "(string \<times> serde) list"
  | STuple "serde list"
  | SNewtypeStruct string serde
  | SI8 | SI16 | SI32 | SI64 | SF32 | SF64 | SChar | SNone | SSome | SUnit | SUnitStruct
  | SUnitVariant | SNewtypeVariant | SSeq | STupleStruct | STupleVariant | SMap | SStructVariant

type_synonym type_names = "(string \<times> string) list"

definition translate_name :: "type_names \<Rightarrow> string \<Rightarrow> string" where
  "translate_name names n =
     (case List.find (\<lambda>(from, _). from = n) names of Some (_, to) \<Rightarrow> to | None \<Rightarrow> n)"

text \<open>\<open>TupleSerializer::end\<close>: 32 small integers are an address (the message leaves out the
  \<open>Debug\<close> form of the offending value).\<close>

fun address_elements :: "val list \<Rightarrow> conversion_error + bytes" where
  "address_elements [] = Ok []"
| "address_elements (VU64 b # vs) =
     (if b \<le> 0xFF then and_then (address_elements vs) (\<lambda>bs. Ok (ucast b # bs))
      else Err (UnsupportedType ''expected u8 in address tuple''))"
| "address_elements (v # vs) = Err (UnsupportedType ''expected u8 in address tuple'')"

definition tuple_end :: "val list \<Rightarrow> conversion_error + val" where
  "tuple_end elements =
     (if length elements = 32
      then and_then (address_elements elements) (\<lambda>bs. Ok (VAddress (address_new bs)))
      else Err (UnsupportedType
        (''tuple of length '' @ show_nat (length elements) @
         ''; only [u8; 32] tuples are supported'')))"

text \<open>\<open>ValueSerializer\<close>, \<open>StructSerializer\<close> and \<open>TupleSerializer\<close>.\<close>

fun serialize :: "type_names \<Rightarrow> serde \<Rightarrow> conversion_error + val"
and serialize_fields :: "type_names \<Rightarrow> (string \<times> serde) list \<Rightarrow> conversion_error + (string \<times> val) list"
and serialize_elements :: "serde list \<Rightarrow> conversion_error + val list" where
  "serialize names (SBool b) = Ok (VBool b)"
| "serialize names (SU8 n) = Ok (VU64 (ucast n))"
| "serialize names (SU16 n) = Ok (VU64 (ucast n))"
| "serialize names (SU32 n) = Ok (VU64 (ucast n))"
| "serialize names (SU64 n) = Ok (VU64 n)"
| "serialize names (SStr s) = Ok (VStr s)"
| "serialize names (SBytes bs) =
     Err (UnsupportedType
       (''byte slice of length '' @ show_nat (length bs) @ ''; use [u8; 32] for addresses''))"
| "serialize names (SStruct n flds) =
     and_then (serialize_fields names flds) (\<lambda>flds. Ok (VStruct (translate_name names n) flds))"
| "serialize names (STuple elements) = and_then (serialize_elements elements) tuple_end"
| "serialize names (SNewtypeStruct _ s) = serialize names s"
| "serialize names SI8 = Err (UnsupportedType ''i8'')"
| "serialize names SI16 = Err (UnsupportedType ''i16'')"
| "serialize names SI32 = Err (UnsupportedType ''i32'')"
| "serialize names SI64 = Err (UnsupportedType ''i64'')"
| "serialize names SF32 = Err (UnsupportedType ''f32'')"
| "serialize names SF64 = Err (UnsupportedType ''f64'')"
| "serialize names SChar = Err (UnsupportedType ''char'')"
| "serialize names SNone = Err (UnsupportedType ''Option::None'')"
| "serialize names SSome = Err (UnsupportedType ''Option::Some'')"
| "serialize names SUnit = Err (UnsupportedType ''unit'')"
| "serialize names SUnitStruct = Err (UnsupportedType ''unit struct'')"
| "serialize names SUnitVariant = Err (UnsupportedType ''unit variant'')"
| "serialize names SNewtypeVariant = Err (UnsupportedType ''newtype variant'')"
| "serialize names SSeq = Err (UnsupportedType ''seq'')"
| "serialize names STupleStruct = Err (UnsupportedType ''tuple struct'')"
| "serialize names STupleVariant = Err (UnsupportedType ''tuple variant'')"
| "serialize names SMap = Err (UnsupportedType ''map'')"
| "serialize names SStructVariant = Err (UnsupportedType ''struct variant'')"
| "serialize_fields names [] = Ok []"
| "serialize_fields names ((key, s) # flds) =
     and_then (serialize names s) (\<lambda>v.
       and_then (serialize_fields names flds) (\<lambda>flds. Ok ((key, v) # flds)))"
| "serialize_elements [] = Ok []"
| "serialize_elements (s # ss) =
     and_then (serialize [] s) (\<lambda>v. and_then (serialize_elements ss) (\<lambda>vs. Ok (v # vs)))"

definition struct_from_rust :: "type_names \<Rightarrow> serde \<Rightarrow> conversion_error + val" where
  "struct_from_rust names s = serialize names s"

text \<open>\<open>Address([u8; 32])\<close> derives \<open>Serialize\<close>: a newtype around a tuple of bytes.\<close>

definition serde_address :: "address \<Rightarrow> serde" where
  "serde_address a = SNewtypeStruct ''Address'' (STuple (map SU8 (address_bytes a)))"

lemma serialize_elements_bytes: "serialize_elements (map SU8 bs) = Ok (map (\<lambda>b. VU64 (ucast b)) bs)"
  by (induction bs) simp_all

lemma ucast_byte_le: "ucast (b :: u8) \<le> (0xFF :: u64)"
proof -
  have b: "unat b < 2 ^ LENGTH(8)" by (rule unsigned_less)
  then have "unat (ucast b :: u64) = unat b"
    by (simp add: unsigned_ucast_eq take_bit_nat_eq_self)
  then show ?thesis using b by (simp add: word_le_nat_alt)
qed

lemma ucast_ucast_byte [simp]: "ucast (ucast (b :: u8) :: u64) = b"
  by (rule bit_word_eqI) (auto simp: bit_simps)

lemma address_elements_bytes: "address_elements (map (\<lambda>b. VU64 (ucast b)) bs) = Ok bs"
  by (induction bs) (simp_all add: ucast_byte_le)

lemma serialize_address [simp]: "serialize names (serde_address a) = Ok (VAddress a)"
  by (simp add: serde_address_def serialize_elements_bytes tuple_end_def address_elements_bytes)

section \<open>System modules\<close>

definition MEOW_SYSTEM_ADDRESS :: address where
  "MEOW_SYSTEM_ADDRESS = address_zero"

definition MEOW_OBJECT_MODULE_ADDRESS :: address where
  "MEOW_OBJECT_MODULE_ADDRESS = address_suffixed 0x10"

definition MEOW_OBJECT_ID_FIELD_NAME :: string where
  "MEOW_OBJECT_ID_FIELD_NAME = ''id''"

definition MEOW_OBJECT_ID_BYTECODE_TYPE_NAME :: string where
  "MEOW_OBJECT_ID_BYTECODE_TYPE_NAME =
     ''@0x0000000000000000000000000000000000000000000000000000000000000010::Id''"

definition MEOW_COIN_MODULE_ADDRESS :: address where
  "MEOW_COIN_MODULE_ADDRESS = address_suffixed 0x20"

definition MEOW_COIN_OBJECT_NAME :: string where
  "MEOW_COIN_OBJECT_NAME = ''MeowCoin''"

definition MEOW_COIN_BALANCE_STRUCT_NAME :: string where
  "MEOW_COIN_BALANCE_STRUCT_NAME = ''MeowCoinBalance''"

definition MEOW_COIN_MINT_FUNCTION_NAME :: string where
  "MEOW_COIN_MINT_FUNCTION_NAME = ''mint''"

definition MEOW_COIN_OBJECT_BYTECODE_TYPE_NAME :: string where
  "MEOW_COIN_OBJECT_BYTECODE_TYPE_NAME =
     ''@0x0000000000000000000000000000000000000000000000000000000000000020::MeowCoin''"

definition MEOW_COIN_BALANCE_BYTECODE_TYPE_NAME :: string where
  "MEOW_COIN_BALANCE_BYTECODE_TYPE_NAME =
     ''@0x0000000000000000000000000000000000000000000000000000000000000020::MeowCoinBalance''"

definition BALANCE_FIELD_NAME :: string where
  "BALANCE_FIELD_NAME = ''balance''"

definition AMOUNT_FIELD_NAME :: string where
  "AMOUNT_FIELD_NAME = ''amount''"

subsection \<open>\<open>meow_object\<close>\<close>

record meow_object_id =
  mo_inner :: address

definition meow_object_id_names :: type_names where
  "meow_object_id_names = [(''MeowObjectId'', MEOW_OBJECT_ID_BYTECODE_TYPE_NAME)]"

definition serde_meow_object_id :: "meow_object_id \<Rightarrow> serde" where
  "serde_meow_object_id i = SStruct ''MeowObjectId'' [(''inner'', serde_address (mo_inner i))]"

text \<open>\<open>Value::from(MeowObjectId)\<close>; the conversion is \<open>expect\<close>ed to succeed.\<close>

definition meow_object_id_value :: "meow_object_id \<Rightarrow> 'e fault + val" where
  "meow_object_id_value i =
     (case struct_from_rust meow_object_id_names (serde_meow_object_id i) of
        Inl _ \<Rightarrow> Err (Panicked ''MeowObjectId must convert to Value'')
      | Inr v \<Rightarrow> Ok v)"

text \<open>A struct with one address field has the serialization of the address.\<close>

definition meow_object_id_de :: "chain_ext \<Rightarrow> bytes \<Rightarrow> string + meow_object_id" where
  "meow_object_id_de x bs = and_then (cx_address_de x bs) (\<lambda>a. Ok \<lparr>mo_inner = a\<rparr>)"

definition is_object_struct :: "struct_def \<Rightarrow> bool" where
  "is_object_struct s =
     (case sd_fields s of
        f # _ \<Rightarrow> fd_name f = MEOW_OBJECT_ID_FIELD_NAME \<and>
                fd_ty f = TStruct MEOW_OBJECT_ID_BYTECODE_TYPE_NAME
      | [] \<Rightarrow> False)"

definition object_address :: "chain_ext \<Rightarrow> val \<Rightarrow> address option" where
  "object_address x v =
     (case value_field MEOW_OBJECT_ID_FIELD_NAME v of
        None \<Rightarrow> None
      | Some id_val \<Rightarrow>
          (case value_to_rust x (meow_object_id_de x) id_val of
             Inl _ \<Rightarrow> None
           | Inr i \<Rightarrow> Some (mo_inner i)))"

subsection \<open>\<open>meow_coin\<close>\<close>

record meow_coin =
  mc_id :: meow_object_id
  mc_balance :: u64

definition meow_coin_new :: "address \<Rightarrow> u64 \<Rightarrow> meow_coin" where
  "meow_coin_new i b = \<lparr>mc_id = \<lparr>mo_inner = i\<rparr>, mc_balance = b\<rparr>"

definition meow_coin_names :: type_names where
  "meow_coin_names =
     [(''MeowCoin'', MEOW_COIN_OBJECT_BYTECODE_TYPE_NAME),
      (''MeowObjectId'', MEOW_OBJECT_ID_BYTECODE_TYPE_NAME)]"

definition serde_meow_coin :: "meow_coin \<Rightarrow> serde" where
  "serde_meow_coin c =
     SStruct ''MeowCoin'' [(''id'', serde_meow_object_id (mc_id c)), (''balance'', SU64 (mc_balance c))]"

definition meow_coin_value :: "meow_coin \<Rightarrow> 'e fault + val" where
  "meow_coin_value c =
     (case struct_from_rust meow_coin_names (serde_meow_coin c) of
        Inl _ \<Rightarrow> Err (Panicked ''MeowCoin must convert to Value'')
      | Inr v \<Rightarrow> Ok v)"

record meow_coin_balance =
  mb_amount :: u64

definition meow_coin_balance_names :: type_names where
  "meow_coin_balance_names = [(''MeowCoinBalance'', MEOW_COIN_BALANCE_BYTECODE_TYPE_NAME)]"

definition serde_meow_coin_balance :: "meow_coin_balance \<Rightarrow> serde" where
  "serde_meow_coin_balance b = SStruct ''MeowCoinBalance'' [(''amount'', SU64 (mb_amount b))]"

definition meow_coin_balance_value :: "meow_coin_balance \<Rightarrow> 'e fault + val" where
  "meow_coin_balance_value b =
     (case struct_from_rust meow_coin_balance_names (serde_meow_coin_balance b) of
        Inl _ \<Rightarrow> Err (Panicked ''MeowCoinBalance must convert to Value'')
      | Inr v \<Rightarrow> Ok v)"

definition is_meow_coin :: "address \<Rightarrow> string \<Rightarrow> bool" where
  "is_meow_coin m n \<longleftrightarrow> m = MEOW_COIN_MODULE_ADDRESS \<and> n = MEOW_COIN_OBJECT_NAME"

definition is_meow_coin_balance :: "address \<Rightarrow> string \<Rightarrow> bool" where
  "is_meow_coin_balance m n \<longleftrightarrow> m = MEOW_COIN_MODULE_ADDRESS \<and> n = MEOW_COIN_BALANCE_STRUCT_NAME"

definition is_meow_coin_object_decl_ref :: "object_decl_ref \<Rightarrow> bool" where
  "is_meow_coin_object_decl_ref d = is_meow_coin (odr_module d) (ident_str (odr_name d))"

definition is_meow_coin_object :: "object \<Rightarrow> bool" where
  "is_meow_coin_object ob =
     (case ob_type ob of ObjectTy d \<Rightarrow> is_meow_coin_object_decl_ref d | ModuleTy \<Rightarrow> False)"

definition find_pair :: "string \<Rightarrow> (string \<times> 'a) list \<Rightarrow> 'a option" where
  "find_pair n flds = (case List.find (\<lambda>(k, _). k = n) flds of Some (_, v) \<Rightarrow> Some v | None \<Rightarrow> None)"

definition balance_from_object :: "chain_ext \<Rightarrow> object \<Rightarrow> u64 option" where
  "balance_from_object x coin =
     (if \<not> is_meow_coin_object coin then None
      else case cx_fields_de x (ob_content coin) of
        Inl _ \<Rightarrow> None
      | Inr flds \<Rightarrow>
          (case find_pair BALANCE_FIELD_NAME flds of Some v \<Rightarrow> as_u64 v | None \<Rightarrow> None))"

definition balance_from_value :: "val \<Rightarrow> u64 option" where
  "balance_from_value coin =
     (if value_type_name coin = MEOW_COIN_OBJECT_BYTECODE_TYPE_NAME
      then field_u64 BALANCE_FIELD_NAME coin else None)"

text \<open>The loop of \<open>deduct_gas\<close>, which stops at the first balance field.\<close>

fun deduct_balance :: "u64 \<Rightarrow> (string \<times> val) list \<Rightarrow> (string \<times> val) list option" where
  "deduct_balance spent [] = Some []"
| "deduct_balance spent ((n, v) # flds) =
     (if n = BALANCE_FIELD_NAME
      then (case as_u64 v of
              None \<Rightarrow> None
            | Some current \<Rightarrow> Some ((n, VU64 (saturating_sub current spent)) # flds))
      else map_option (\<lambda>flds. (n, v) # flds) (deduct_balance spent flds))"

definition deduct_gas :: "chain_ext \<Rightarrow> object \<Rightarrow> u64 \<Rightarrow> bytes option" where
  "deduct_gas x gas_coin spent =
     (if \<not> is_meow_coin_object gas_coin then None
      else case cx_fields_de x (ob_content gas_coin) of
        Inl _ \<Rightarrow> None
      | Inr flds \<Rightarrow>
          (case deduct_balance spent flds of
             None \<Rightarrow> None
           | Some flds \<Rightarrow> (case cx_fields x flds of Inl _ \<Rightarrow> None | Inr bs \<Rightarrow> Some bs)))"

definition coin_amount :: "val \<Rightarrow> u64 option" where
  "coin_amount v =
     (if value_type_name v = MEOW_COIN_BALANCE_BYTECODE_TYPE_NAME
      then field_u64 AMOUNT_FIELD_NAME v else None)"

section \<open>Objects and VM values\<close>

datatype object_conversion_error =
    InvalidObjectType
  | InvalidVMValueType
  | InvalidTypeName
  | MissingIdField
  | InvalidContent string
  | InvalidIdentifierC string

definition object_to_vm_object_value :: "chain_ext \<Rightarrow> object \<Rightarrow> object_conversion_error fault + val" where
  "object_to_vm_object_value x ob =
     (case ob_type ob of
        ModuleTy \<Rightarrow> Err (Fail InvalidObjectType)
      | ObjectTy decl \<Rightarrow>
          let type_name = qualify (cx_hex x) (odr_module decl) (ident_str (odr_name decl)) in
          (case cx_fields_de x (ob_content ob) of
             Inl e \<Rightarrow> Err (Fail (InvalidContent e))
           | Inr flds \<Rightarrow>
               and_then (meow_object_id_value \<lparr>mo_inner = ob_address ob\<rparr>) (\<lambda>i.
                 Ok (VStruct type_name ((MEOW_OBJECT_ID_FIELD_NAME, i) # flds)))))"

definition vm_object_value_to_object ::
    "chain_ext \<Rightarrow> val \<Rightarrow> object_owner \<Rightarrow> digest \<Rightarrow> object_version
       \<Rightarrow> object_conversion_error fault + object" where
  "vm_object_value_to_object x v owner tx_digest version =
     (case v of
        VStruct type_name flds \<Rightarrow>
          (case parse_module_ref (cx_hex x) type_name of
             None \<Rightarrow> Err (Fail InvalidTypeName)
           | Some (vm_module_addr, struct_name) \<Rightarrow>
               (case identifier_new struct_name of
                  Inl (InvalidIdentifierName e) \<Rightarrow> Err (Fail (InvalidIdentifierC (''invalid identifier: '' @ e)))
                | Inr ident \<Rightarrow>
                    (case object_address x v of
                       None \<Rightarrow> Err (Fail MissingIdField)
                     | Some addr \<Rightarrow>
                         (case cx_fields x (filter (\<lambda>(n, _). n \<noteq> MEOW_OBJECT_ID_FIELD_NAME) flds) of
                            Inl _ \<Rightarrow> Err (Panicked ''fields must be serializable'')
                          | Inr content \<Rightarrow>
                              Ok \<lparr>ob_address = addr, ob_owner = owner, ob_transaction = tx_digest,
                                  ob_version = version,
                                  ob_type = ObjectTy \<lparr>odr_module = vm_module_addr, odr_name = ident\<rparr>,
                                  ob_content = content\<rparr>))))
      | _ \<Rightarrow> Err (Fail InvalidVMValueType))"

definition extract_human_readable_content :: "chain_ext \<Rightarrow> object \<Rightarrow> (string, string) mapping option" where
  "extract_human_readable_content x ob =
     (case ob_type ob of
        ModuleTy \<Rightarrow> None
      | ObjectTy _ \<Rightarrow>
          (case cx_fields_de x (ob_content ob) of
             Inl _ \<Rightarrow> None
           | Inr flds \<Rightarrow>
               Some (fold (\<lambda>(k, v). Mapping.update k (value_display (cx_hex x) v)) flds Mapping.empty)))"

end
