(* ===== verification/Store.thy ===== *)
theory Store
  imports Chain_Types "HOL-Library.AList_Mapping"
begin

text \<open>
  The object store of \<open>meow-nakamoto/src/store.rs\<close> and the state root of \<open>roots.rs\<close>.  A \<open>BTreeMap\<close> is a
  mapping whose values are listed in the order of the keys.  A failed assertion is the left
  injection of the result.
\<close>

section \<open>The store\<close>

text \<open>\<open>BTreeMap::values\<close>.\<close>

definition btree_values :: "('k::linorder, 'v) mapping \<Rightarrow> 'v list" where
  "btree_values m = map (\<lambda>k. the (Mapping.lookup m k)) (Mapping.ordered_keys m)"

record store =
  so_objects :: "(address, object) mapping"

definition store_default :: store where
  "store_default = \<lparr>so_objects = Mapping.empty\<rparr>"

definition store_insert :: "object \<Rightarrow> store \<Rightarrow> store" where
  "store_insert ob s = s\<lparr>so_objects := Mapping.update (ob_address ob) ob (so_objects s)\<rparr>"

definition with_objects :: "object list \<Rightarrow> store" where
  "with_objects obs = fold store_insert obs store_default"

definition get_object :: "store \<Rightarrow> address \<Rightarrow> object option" where
  "get_object s a = Mapping.lookup (so_objects s) a"

definition store_contains :: "store \<Rightarrow> address \<Rightarrow> bool" where
  "store_contains s a = (get_object s a \<noteq> None)"

definition store_objects :: "store \<Rightarrow> object list" where
  "store_objects s = btree_values (so_objects s)"

definition get_objects :: "store \<Rightarrow> address \<Rightarrow> object list" where
  "get_objects s owner = filter (\<lambda>ob. owner_address (ob_owner ob) = Some owner) (store_objects s)"

text \<open>The three loops of \<open>apply_execution_result\<close>.\<close>

fun apply_created :: "object list \<Rightarrow> store \<Rightarrow> string + store" where
  "apply_created [] s = Ok s"
| "apply_created (ob # obs) s =
     (if store_contains s (ob_address ob) then Err ''created object ID collision''
      else apply_created obs (store_insert ob s))"

fun apply_changed :: "object list \<Rightarrow> store \<Rightarrow> string + store" where
  "apply_changed [] s = Ok s"
| "apply_changed (ob # obs) s =
     (if \<not> store_contains s (ob_address ob) then Err ''changed object not found in store''
      else apply_changed obs (store_insert ob s))"

fun apply_destroyed :: "object list \<Rightarrow> store \<Rightarrow> string + store" where
  "apply_destroyed [] s = Ok s"
| "apply_destroyed (ob # obs) s =
     (if \<not> store_contains s (ob_address ob) then Err ''destroyed object not found in store''
      else apply_destroyed obs
             (s\<lparr>so_objects := Mapping.delete (ob_address ob) (so_objects s)\<rparr>))"

definition apply_execution_result :: "execution_result \<Rightarrow> store \<Rightarrow> string + store" where
  "apply_execution_result r s =
     and_then (apply_created (er_created r) s) (\<lambda>s.
     and_then (apply_changed (er_changed r) s) (\<lambda>s.
       apply_destroyed (er_destroyed r) s))"

definition compute_state_root :: "chain_ext \<Rightarrow> store \<Rightarrow> digest" where
  "compute_state_root x s = digest_compute x (cx_objects x (store_objects s))"

definition compute_transactions_root :: "chain_ext \<Rightarrow> signed_transaction list \<Rightarrow> digest" where
  "compute_transactions_root x txs =
     digest_compute x (cx_digests x (map (\<lambda>t. transaction_digest x (st_transaction t)) txs))"

section \<open>The abstract store\<close>

text \<open>A store stands for the finite map from addresses to objects.\<close>

abbreviation store_map :: "store \<Rightarrow> address \<rightharpoonup> object" where
  "store_map \<equiv> get_object"

definition by_address :: "object list \<Rightarrow> address \<rightharpoonup> object" where
  "by_address obs = map_of (rev (map (\<lambda>ob. (ob_address ob, ob)) obs))"

abbreviation addresses :: "object list \<Rightarrow> address set" where
  "addresses obs \<equiv> ob_address ` set obs"

lemma by_address_simps [simp]:
  "by_address [] = Map.empty"
  "by_address (ob # obs) = [ob_address ob \<mapsto> ob] ++ by_address obs"
  by (simp_all add: by_address_def map_add_def fun_eq_iff split: option.splits)

lemma dom_by_address [simp]: "dom (by_address obs) = addresses obs"
  by (induction obs) auto

lemma get_object_insert [simp]:
  "get_object (store_insert ob s) = (get_object s)(ob_address ob \<mapsto> ob)"
  by (auto simp: get_object_def store_insert_def fun_eq_iff lookup_update')

lemma get_object_delete [simp]:
  "get_object (s\<lparr>so_objects := Mapping.delete a (so_objects s)\<rparr>) = (get_object s)(a := None)"
proof -
  have "Mapping.lookup (Mapping.delete a m) b = (if b = a then None else Mapping.lookup m b)" for m b
    by (cases "b = a") simp_all
  then show ?thesis by (auto simp: get_object_def fun_eq_iff)
qed

lemma get_object_default [simp]: "get_object store_default = Map.empty"
  by (simp add: get_object_def store_default_def fun_eq_iff)

lemma contains_iff: "store_contains s a \<longleftrightarrow> a \<in> dom (get_object s)"
  by (simp add: store_contains_def dom_def)

lemma get_object_with_objects: "get_object (with_objects obs) = by_address obs"
proof -
  have "get_object (fold store_insert obs s) = get_object s ++ by_address obs" for s
    by (induction obs arbitrary: s) (auto simp: map_add_assoc)
  then show ?thesis by (simp add: with_objects_def)
qed

lemma apply_created_iff:
  "apply_created obs s = Inr s' \<longleftrightarrow>
     distinct (map ob_address obs) \<and> addresses obs \<inter> dom (get_object s) = {} \<and>
     s' = fold store_insert obs s"
  by (induction obs arbitrary: s) (auto simp: contains_iff)

lemma apply_changed_iff:
  "apply_changed obs s = Inr s' \<longleftrightarrow>
     addresses obs \<subseteq> dom (get_object s) \<and> s' = fold store_insert obs s"
  by (induction obs arbitrary: s) (auto simp: contains_iff)

lemma get_object_fold_insert:
  "get_object (fold store_insert obs s) = get_object s ++ by_address obs"
  by (induction obs arbitrary: s) (auto simp: map_add_assoc)

lemma apply_destroyed_Ok:
  "(\<exists>s'. apply_destroyed obs s = Inr s') \<longleftrightarrow>
     distinct (map ob_address obs) \<and> addresses obs \<subseteq> dom (get_object s)"
  by (induction obs arbitrary: s) (auto simp: contains_iff, metis imageI)

lemma get_object_destroyed:
  "apply_destroyed obs s = Inr s' \<Longrightarrow> get_object s' = get_object s |` (- addresses obs)"
  by (induction obs arbitrary: s) (auto simp: restrict_map_def fun_eq_iff split: if_splits)

text \<open>What an execution result does to the abstract map, and when it may be applied.\<close>

definition applied :: "execution_result \<Rightarrow> (address \<rightharpoonup> object) \<Rightarrow> (address \<rightharpoonup> object)" where
  "applied r m = (m ++ by_address (er_created r) ++ by_address (er_changed r)) |` (- addresses (er_destroyed r))"

definition applicable :: "execution_result \<Rightarrow> (address \<rightharpoonup> object) \<Rightarrow> bool" where
  "applicable r m \<longleftrightarrow>
     distinct (map ob_address (er_created r)) \<and> addresses (er_created r) \<inter> dom m = {} \<and>
     addresses (er_changed r) \<subseteq> dom m \<union> addresses (er_created r) \<and>
     distinct (map ob_address (er_destroyed r)) \<and>
     addresses (er_destroyed r) \<subseteq> dom m \<union> addresses (er_created r)"

lemma apply_execution_result_Ok:
  assumes "apply_execution_result r s = Inr s'"
  shows "applicable r (get_object s)" "get_object s' = applied r (get_object s)"
proof -
  obtain s1 s2 where s: "apply_created (er_created r) s = Inr s1"
    "apply_changed (er_changed r) s1 = Inr s2" "apply_destroyed (er_destroyed r) s2 = Inr s'"
    using assms by (auto simp: apply_execution_result_def and_then_Inr_iff)
  note s1 = s(1) [unfolded apply_created_iff] and s2 = s(2) [unfolded apply_changed_iff]
  have s3: "distinct (map ob_address (er_destroyed r))" "addresses (er_destroyed r) \<subseteq> dom (get_object s2)"
    using apply_destroyed_Ok s(3) by blast+
  show "applicable r (get_object s)"
    using s1 s2 s3 by (auto simp: applicable_def get_object_fold_insert)
  show "get_object s' = applied r (get_object s)"
    using s1 s2 get_object_destroyed [OF s(3)] by (simp add: applied_def get_object_fold_insert)
qed

lemma applicable_Ok:
  assumes "applicable r (get_object s)"
  shows "\<exists>s'. apply_execution_result r s = Inr s'"
proof -
  let ?s1 = "fold store_insert (er_created r) s"
  let ?s2 = "fold store_insert (er_changed r) ?s1"
  have "apply_created (er_created r) s = Inr ?s1"
    using assms by (simp add: apply_created_iff applicable_def)
  moreover have "apply_changed (er_changed r) ?s1 = Inr ?s2"
    using assms by (auto simp: apply_changed_iff applicable_def get_object_fold_insert)
  moreover have "\<exists>s'. apply_destroyed (er_destroyed r) ?s2 = Inr s'"
    using assms by (subst apply_destroyed_Ok) (auto simp: applicable_def get_object_fold_insert)
  ultimately show ?thesis by (auto simp: apply_execution_result_def)
qed

text \<open>C12. The store refines a finite map.  Applying an execution result succeeds, without a failed
  assertion, exactly when the created addresses are new and different, the changed and destroyed
  ones are present and the destroyed ones different, and fails otherwise; when it succeeds the map is
  overridden by the created and the changed objects and restricted to the addresses that are not
  destroyed.\<close>

theorem apply_execution_result_refines:
  "case apply_execution_result r s of
     Inr s' \<Rightarrow> applicable r (store_map s) \<and> store_map s' = applied r (store_map s)
   | Inl _ \<Rightarrow> \<not> applicable r (store_map s)"
proof (cases "apply_execution_result r s")
  case (Inl e)
  with applicable_Ok [of r s] show ?thesis by auto
next
  case (Inr s')
  with apply_execution_result_Ok [OF Inr] show ?thesis by simp
qed

section \<open>Well-formed stores\<close>

text \<open>Every object is stored under its own address.\<close>

definition store_wf :: "store \<Rightarrow> bool" where
  "store_wf s \<longleftrightarrow> (\<forall>a ob. get_object s a = Some ob \<longrightarrow> ob_address ob = a)"

lemma by_address_SomeD: "by_address obs a = Some ob \<Longrightarrow> ob \<in> set obs \<and> ob_address ob = a"
  by (induction obs) (auto simp: map_add_Some_iff split: if_splits)

lemma store_wf_default [simp]: "store_wf store_default"
  by (simp add: store_wf_def)

lemma store_wf_with_objects [simp]: "store_wf (with_objects obs)"
  by (auto simp: store_wf_def get_object_with_objects dest: by_address_SomeD)

lemma store_wf_apply:
  "store_wf s \<Longrightarrow> apply_execution_result r s = Inr s' \<Longrightarrow> store_wf s'"
  by (auto simp: store_wf_def apply_execution_result_Ok(2) applied_def restrict_map_def
      map_add_Some_iff dest: by_address_SomeD split: if_splits)

lemma set_store_objects: "set (store_objects s) = ran (get_object s)"
proof -
  have "get_object s = Mapping.lookup (so_objects s)" by (simp add: get_object_def fun_eq_iff)
  then have "set (store_objects s) = (\<lambda>k. the (get_object s k)) ` dom (get_object s)"
    by (simp add: store_objects_def btree_values_def keys_dom_lookup)
  then show ?thesis by (auto simp: ran_def dom_def image_iff) (metis option.sel)
qed

text \<open>A store is rebuilt from the list of its objects, as a snapshot does.\<close>

lemma by_address_unique:
  assumes "\<And>ob ob'. ob \<in> set obs \<Longrightarrow> ob' \<in> set obs \<Longrightarrow> ob_address ob = ob_address ob' \<Longrightarrow> ob = ob'"
  shows "by_address obs a = Some ob \<longleftrightarrow> ob \<in> set obs \<and> ob_address ob = a"
proof
  assume ob: "ob \<in> set obs \<and> ob_address ob = a"
  then have "a \<in> dom (by_address obs)" by auto
  then obtain ob' where ob': "by_address obs a = Some ob'" by blast
  then show "by_address obs a = Some ob"
    using by_address_SomeD [OF ob'] ob assms by metis
qed (rule by_address_SomeD)

lemma snapshot_roundtrip:
  assumes "store_wf s"
  shows "with_objects (store_objects s) = s"
proof -
  have "get_object (with_objects (store_objects s)) a = get_object s a" for a
  proof -
    have "by_address (store_objects s) a = Some ob \<longleftrightarrow> get_object s a = Some ob" for ob
      by (subst by_address_unique)
        (use assms in \<open>auto simp: set_store_objects ran_def store_wf_def\<close>)
    then show ?thesis by (metis get_object_with_objects option.exhaust)
  qed
  then have "so_objects (with_objects (store_objects s)) = so_objects s"
    by (auto simp: get_object_def intro: mapping_eqI)
  then show ?thesis by (cases "with_objects (store_objects s)"; cases s) simp
qed

end
