(* ===== verification/Tx_Validator.thy ===== *)
theory Tx_Validator
  imports Chain_Types
begin

text \<open>
  Structural validation of transactions: \<open>meow-types/src/transaction/validator/mod.rs\<close>.
\<close>

datatype validation_error =
    AliasedCallArgument address
  | GasCoinUsedAsCallArgument address
  | KeyPairError
  | ModuleTooLarge nat nat
  | SignerMismatch address address
  | TooManyCallArguments nat nat
  | TransactionTooLarge nat nat

text \<open>\<open>bcs::serialized_size\<close> is the length of the serialization.\<close>

definition validate_transaction_size ::
    "chain_ext \<Rightarrow> transaction \<Rightarrow> nat \<Rightarrow> validation_error + unit" where
  "validate_transaction_size x tx limit =
     (let size = length (cx_transaction x tx) in
      if size > limit then Err (TransactionTooLarge size limit) else Ok ())"

definition validate_call_args_count :: "call \<Rightarrow> compiler_config \<Rightarrow> validation_error + unit" where
  "validate_call_args_count c cfg =
     (let amount = length (ca_arguments c); limit = unat (max_params cfg) in
      if amount > limit then Err (TooManyCallArguments amount limit) else Ok ())"

definition validate_gas_coin_not_in_args :: "call \<Rightarrow> address \<Rightarrow> validation_error + unit" where
  "validate_gas_coin_not_in_args c gas_coin_address =
     (if list_ex (\<lambda>arg. case arg of InObject r \<Rightarrow> or_address r = gas_coin_address | _ \<Rightarrow> False)
           (ca_arguments c)
      then Err (GasCoinUsedAsCallArgument gas_coin_address) else Ok ())"

text \<open>The loop over the arguments, with the addresses seen so far.\<close>

fun no_aliased :: "address set \<Rightarrow> input list \<Rightarrow> validation_error + unit" where
  "no_aliased seen [] = Ok ()"
| "no_aliased seen (InObject r # args) =
     (if or_address r \<in> seen then Err (AliasedCallArgument (or_address r))
      else no_aliased (insert (or_address r) seen) args)"
| "no_aliased seen (InRaw _ # args) = no_aliased seen args"

definition validate_no_aliased_args :: "call \<Rightarrow> validation_error + unit" where
  "validate_no_aliased_args c = no_aliased {} (ca_arguments c)"

definition validate_module_size :: "bytes \<Rightarrow> validation_error + unit" where
  "validate_module_size m =
     (if length m > MAX_BCS_SERIALIZED_MODULE_SIZE
      then Err (ModuleTooLarge (length m) MAX_BCS_SERIALIZED_MODULE_SIZE) else Ok ())"

definition validate_transaction :: "chain_ext \<Rightarrow> transaction \<Rightarrow> validation_error + unit" where
  "validate_transaction x tx =
     (case tx_type tx of
        MeowCall c \<Rightarrow>
          and_then (validate_transaction_size x tx MEOW_CALL_TRANSACTION_BCS_BYTES_MAX_SIZE) (\<lambda>_.
          and_then (validate_call_args_count c compiler_config_chain) (\<lambda>_.
          and_then (validate_gas_coin_not_in_args c (or_address (tx_gas_coin tx))) (\<lambda>_.
            validate_no_aliased_args c)))
      | MeowModulePublish m \<Rightarrow>
          and_then (validate_transaction_size x tx MEOW_PUBLISH_MODULE_TRANSACTION_BCS_BYTES_MAX_SIZE)
            (\<lambda>_. validate_module_size m))"

definition validate_signed_transaction_sender :: "address \<Rightarrow> address \<Rightarrow> validation_error + unit" where
  "validate_signed_transaction_sender sender signer =
     (if signer \<noteq> sender then Err (SignerMismatch sender signer) else Ok ())"

definition verify_signed_transaction_signature ::
    "chain_ext \<Rightarrow> signed_transaction \<Rightarrow> validation_error + unit" where
  "verify_signed_transaction_signature x st =
     (if signature_verify x (st_signature st) (digest_bytes (transaction_digest x (st_transaction st)))
      then Ok () else Err KeyPairError)"

definition validate_signed_transaction ::
    "chain_ext \<Rightarrow> signed_transaction \<Rightarrow> validation_error + unit" where
  "validate_signed_transaction x st =
     and_then (validate_transaction x (st_transaction st)) (\<lambda>_.
     and_then
       (validate_signed_transaction_sender (tx_sender (st_transaction st))
          (signature_signer x (st_signature st)))
       (\<lambda>_. verify_signed_transaction_signature x st))"

section \<open>What an accepted transaction satisfies\<close>

text \<open>The addresses of the object arguments, in order.\<close>

definition object_args :: "input list \<Rightarrow> address list" where
  "object_args args = concat (map (\<lambda>arg. case arg of InObject r \<Rightarrow> [or_address r] | InRaw _ \<Rightarrow> []) args)"

lemma object_args_simps [simp]:
  "object_args [] = []"
  "object_args (InObject r # args) = or_address r # object_args args"
  "object_args (InRaw bs # args) = object_args args"
  by (simp_all add: object_args_def)

lemma no_aliased_Ok:
  "no_aliased seen args = Inr u \<longleftrightarrow>
     distinct (object_args args) \<and> seen \<inter> set (object_args args) = {}"
  by (induction seen args rule: no_aliased.induct) auto

lemma gas_coin_in_args:
  "list_ex (\<lambda>arg. case arg of InObject r \<Rightarrow> or_address r = a | _ \<Rightarrow> False) args \<longleftrightarrow>
     a \<in> set (object_args args)"
  by (induction args) (auto simp: object_args_def split: input.splits)

definition well_formed_call :: "chain_ext \<Rightarrow> transaction \<Rightarrow> call \<Rightarrow> bool" where
  "well_formed_call x tx c \<longleftrightarrow>
     length (cx_transaction x tx) \<le> 32768 \<and> length (ca_arguments c) \<le> 16 \<and>
     distinct (or_address (tx_gas_coin tx) # object_args (ca_arguments c))"

definition well_formed_publish :: "chain_ext \<Rightarrow> transaction \<Rightarrow> bytes \<Rightarrow> bool" where
  "well_formed_publish x tx m \<longleftrightarrow>
     length (cx_transaction x tx) \<le> 525312 \<and> length m \<le> 524288"

lemma validate_transaction_Ok:
  "validate_transaction x tx = Inr () \<longleftrightarrow>
     (case tx_type tx of
        MeowCall c \<Rightarrow> well_formed_call x tx c
      | MeowModulePublish m \<Rightarrow> well_formed_publish x tx m)"
  by (auto simp: validate_transaction_def validate_transaction_size_def validate_call_args_count_def
      validate_gas_coin_not_in_args_def validate_no_aliased_args_def validate_module_size_def
      no_aliased_Ok gas_coin_in_args well_formed_call_def well_formed_publish_def Let_def
      compiler_config_chain_def compiler_config_default_def
      MEOW_CALL_TRANSACTION_BCS_BYTES_MAX_SIZE_def MAX_BCS_SERIALIZED_MODULE_SIZE_def
      MEOW_PUBLISH_MODULE_TRANSACTION_BCS_BYTES_MAX_SIZE_def not_less
      split: transaction_type.splits if_splits)

text \<open>C13. The validator accepts a signed transaction exactly when it is within its size limits, a
  call has at most 16 arguments whose objects are pairwise different and different from the gas
  coin, the signer is the sender and the signature verifies over the transaction digest.\<close>

theorem validate_signed_transaction_exact:
  "validate_signed_transaction x st = Ok () \<longleftrightarrow>
     (case tx_type (st_transaction st) of
        MeowCall c \<Rightarrow> well_formed_call x (st_transaction st) c
      | MeowModulePublish m \<Rightarrow> well_formed_publish x (st_transaction st) m) \<and>
     signature_signer x (st_signature st) = tx_sender (st_transaction st) \<and>
     signature_verify x (st_signature st) (digest_bytes (transaction_digest x (st_transaction st)))"
  by (auto simp: validate_signed_transaction_def validate_signed_transaction_sender_def
      verify_signed_transaction_signature_def and_then_Inr_iff
      simp flip: validate_transaction_Ok)

end
