(* ===== verification/Sample_Chain.thy ===== *)
theory Sample_Chain
  imports Object_Model Store Tx_Validator "HOL-Library.Code_Target_Nat"
begin

text \<open>
  A small chain state on which the operations are run: one coin, the key of its owner, and a signed
  transaction that pays with it.
\<close>

definition sample_key :: keypair where
  "sample_key = replicate 31 0 @ [9]"

definition sample_sender :: address where
  "sample_sender = address_suffixed 9"

definition coin_decl :: object_decl_ref where
  "coin_decl = \<lparr>odr_module = MEOW_COIN_MODULE_ADDRESS, odr_name = Identifier MEOW_COIN_OBJECT_NAME\<rparr>"

definition sample_coin :: "u64 \<Rightarrow> object" where
  "sample_coin b =
     fresh_object (address_suffixed 0x99) sample_sender digest_zero coin_decl
       (enc_fields [(BALANCE_FIELD_NAME, VU64 b)])"

definition sample_store :: store where
  "sample_store = with_objects [sample_coin 5000]"

definition sample_call :: call where
  "sample_call = \<lparr>ca_module = address_suffixed 7, ca_function = Identifier ''get'', ca_arguments = []\<rparr>"

definition sample_tx :: transaction where
  "sample_tx =
     \<lparr>tx_sender = sample_sender, tx_gas_coin = object_ref_of sample_ext (sample_coin 5000),
      tx_type = MeowCall sample_call\<rparr>"

definition sample_signed :: signed_transaction where
  "sample_signed = fst (transaction_sign sample_ext sample_key sample_tx)"

lemma sample_signed_valid: "validate_signed_transaction sample_ext sample_signed = Ok ()"
  by code_simp

end
