(* ===== verification/Mempool.thy ===== *)
theory Mempool
  imports Sample_Chain
begin

text \<open>
  The pool of pending transactions: \<open>meow-nakamoto/src/mempool/mod.rs\<close>.  An operation on
  \<open>&mut self\<close> returns its result with the new pool.
\<close>

section \<open>References into a store\<close>

datatype mempool_error =
    DuplicateTransactionM digest
  | InvalidObjectDigestM address digest digest
  | InvalidObjectVersionM address object_version object_version
  | MempoolFull nat
  | ObjectNotFoundM address
  | TransactionValidationError validation_error

definition validate_object_ref :: "chain_ext \<Rightarrow> object_ref \<Rightarrow> store \<Rightarrow> mempool_error + unit" where
  "validate_object_ref x r s =
     and_then (ok_or (get_object s (or_address r)) (ObjectNotFoundM (or_address r))) (\<lambda>ob.
       if ob_version ob \<noteq> or_version r
       then Err (InvalidObjectVersionM (or_address r) (or_version r) (ob_version ob))
       else if object_digest x ob \<noteq> or_digest r
       then Err (InvalidObjectDigestM (or_address r) (or_digest r) (object_digest x ob))
       else Ok ())"

text \<open>The loop over the call arguments.\<close>

fun validate_args_against_store :: "chain_ext \<Rightarrow> input list \<Rightarrow> store \<Rightarrow> mempool_error + unit" where
  "validate_args_against_store x [] s = Ok ()"
| "validate_args_against_store x (InObject r # args) s =
     and_then (validate_object_ref x r s) (\<lambda>_. validate_args_against_store x args s)"
| "validate_args_against_store x (InRaw _ # args) s = validate_args_against_store x args s"

definition validate_against_store :: "chain_ext \<Rightarrow> transaction \<Rightarrow> store \<Rightarrow> mempool_error + unit" where
  "validate_against_store x tx s =
     and_then (validate_object_ref x (tx_gas_coin tx) s) (\<lambda>_.
       case tx_type tx of
         MeowCall c \<Rightarrow> validate_args_against_store x (ca_arguments c) s
       | MeowModulePublish _ \<Rightarrow> Ok ())"

section \<open>The pool\<close>

definition MAX_MEMPOOL_SIZE :: nat where
  "MAX_MEMPOOL_SIZE = 4096"

record mempool =
  mp_pending :: "signed_transaction list"
  mp_seen :: "digest set"

definition mempool_empty :: mempool where
  "mempool_empty = \<lparr>mp_pending = [], mp_seen = {}\<rparr>"

definition mempool_len :: "mempool \<Rightarrow> nat" where
  "mempool_len mp = length (mp_pending mp)"

abbreviation st_digest :: "chain_ext \<Rightarrow> signed_transaction \<Rightarrow> digest" where
  "st_digest x st \<equiv> transaction_digest x (st_transaction st)"

definition submit ::
    "chain_ext \<Rightarrow> signed_transaction \<Rightarrow> store \<Rightarrow> mempool \<Rightarrow> (mempool_error + unit) \<times> mempool" where
  "submit x st s mp =
     (case validate_signed_transaction x st of
        Inl e \<Rightarrow> (Err (TransactionValidationError e), mp)
      | Inr _ \<Rightarrow>
          let d = st_digest x st in
          if d \<in> mp_seen mp then (Err (DuplicateTransactionM d), mp)
          else if length (mp_pending mp) \<ge> MAX_MEMPOOL_SIZE
          then (Err (MempoolFull MAX_MEMPOOL_SIZE), mp)
          else
            (case validate_against_store x (st_transaction st) s of
               Inl e \<Rightarrow> (Err e, mp)
             | Inr _ \<Rightarrow> (Ok (), \<lparr>mp_pending = mp_pending mp @ [st], mp_seen = insert d (mp_seen mp)\<rparr>)))"

definition is_ok :: "'e + 'a \<Rightarrow> bool" where
  "is_ok r = (case r of Inl _ \<Rightarrow> False | Inr _ \<Rightarrow> True)"

text \<open>The loop of \<open>retain_valid\<close> pushes the transactions that are still valid and their digests.\<close>

fun retain_loop ::
    "chain_ext \<Rightarrow> store \<Rightarrow> signed_transaction list \<Rightarrow> mempool \<Rightarrow> mempool" where
  "retain_loop x s [] acc = acc"
| "retain_loop x s (st # sts) acc =
     retain_loop x s sts
       (if is_ok (validate_against_store x (st_transaction st) s)
        then \<lparr>mp_pending = mp_pending acc @ [st], mp_seen = insert (st_digest x st) (mp_seen acc)\<rparr>
        else acc)"

definition retain_valid :: "chain_ext \<Rightarrow> store \<Rightarrow> mempool \<Rightarrow> mempool" where
  "retain_valid x s mp = retain_loop x s (mp_pending mp) mempool_empty"

definition drain_batch :: "chain_ext \<Rightarrow> nat \<Rightarrow> mempool \<Rightarrow> signed_transaction list \<times> mempool" where
  "drain_batch x limit mp =
     (let count = min limit (length (mp_pending mp));
          batch = take count (mp_pending mp)
      in (batch, \<lparr>mp_pending = drop count (mp_pending mp),
                  mp_seen = fold (\<lambda>st seen. seen - {st_digest x st}) batch (mp_seen mp)\<rparr>))"

section \<open>The laws of a versioned store\<close>

text \<open>
  What the pool and the chain rely on: applying a result changes the map of objects as \<open>applied\<close>
  says.  Objects it changes are found in their new version, objects it destroys are gone and all
  others stay.
\<close>

locale versioned_store =
  fixes get :: "'s \<Rightarrow> address \<rightharpoonup> object"
    and apply_result :: "execution_result \<Rightarrow> 's \<Rightarrow> string + 's"
  assumes get_apply: "apply_result r s = Inr s' \<Longrightarrow> get s' = applied r (get s)"
begin

lemma changed_found:
  assumes "apply_result r s = Inr s'" "ob \<in> set (er_changed r)"
    "distinct (map ob_address (er_changed r))" "ob_address ob \<notin> addresses (er_destroyed r)"
  shows "get s' (ob_address ob) = Some ob"
proof -
  have "by_address (er_changed r) (ob_address ob) = Some ob"
    using by_address_unique [of "er_changed r" "ob_address ob" ob] assms(2,3)
    by (auto simp: distinct_map inj_on_def)
  then show ?thesis
    using assms(4) by (simp add: get_apply [OF assms(1)] applied_def restrict_map_def map_add_Some_iff)
qed

lemma destroyed_gone:
  "apply_result r s = Inr s' \<Longrightarrow> a \<in> addresses (er_destroyed r) \<Longrightarrow> get s' a = None"
  by (simp add: get_apply applied_def restrict_map_def)

lemma untouched:
  assumes "apply_result r s = Inr s'"
    "a \<notin> addresses (er_created r)" "a \<notin> addresses (er_changed r)" "a \<notin> addresses (er_destroyed r)"
  shows "get s' a = get s a"
proof -
  have "by_address (er_created r) a = None" "by_address (er_changed r) a = None"
    using assms(2,3) by (auto simp flip: domIff dom_by_address)
  then show ?thesis
    using assms(4) by (simp add: get_apply [OF assms(1)] applied_def restrict_map_def map_add_def)
qed

end

interpretation store_laws: versioned_store get_object apply_execution_result
  by unfold_locales (rule apply_execution_result_Ok(2))

section \<open>The invariant of the pool\<close>

definition mempool_wf :: "chain_ext \<Rightarrow> mempool \<Rightarrow> bool" where
  "mempool_wf x mp \<longleftrightarrow>
     mp_seen mp = st_digest x ` set (mp_pending mp) \<and>
     distinct (map (st_digest x) (mp_pending mp)) \<and>
     length (mp_pending mp) \<le> MAX_MEMPOOL_SIZE \<and>
     (\<forall>st \<in> set (mp_pending mp). validate_signed_transaction x st = Ok ())"

lemma mempool_wf_empty [simp]: "mempool_wf x mempool_empty"
  by (simp add: mempool_wf_def mempool_empty_def)

lemma submit_cases:
  obtains (ok) "submit x st s mp =
      (Ok (), \<lparr>mp_pending = mp_pending mp @ [st], mp_seen = insert (st_digest x st) (mp_seen mp)\<rparr>)"
    "validate_signed_transaction x st = Ok ()" "st_digest x st \<notin> mp_seen mp"
    "length (mp_pending mp) < MAX_MEMPOOL_SIZE" "validate_against_store x (st_transaction st) s = Ok ()"
  | (err) e where "submit x st s mp = (Err e, mp)"
  by (cases "validate_signed_transaction x st"; cases "validate_against_store x (st_transaction st) s";
      cases "st_digest x st \<in> mp_seen mp"; cases "MAX_MEMPOOL_SIZE \<le> length (mp_pending mp)")
    (auto simp: submit_def Let_def not_le)

lemma submit_wf: "mempool_wf x mp \<Longrightarrow> mempool_wf x (snd (submit x st s mp))"
  by (rule submit_cases [of x st s mp]) (auto simp: mempool_wf_def)

lemma retain_valid_eq:
  "retain_valid x s mp =
     (let sts = filter (\<lambda>st. is_ok (validate_against_store x (st_transaction st) s)) (mp_pending mp)
      in \<lparr>mp_pending = sts, mp_seen = st_digest x ` set sts\<rparr>)"
proof -
  have "retain_loop x s sts acc =
    (let ok = filter (\<lambda>st. is_ok (validate_against_store x (st_transaction st) s)) sts
     in \<lparr>mp_pending = mp_pending acc @ ok, mp_seen = mp_seen acc \<union> st_digest x ` set ok\<rparr>)" for sts acc
    by (induction sts arbitrary: acc) (auto simp: Let_def)
  then show ?thesis by (simp add: retain_valid_def mempool_empty_def)
qed

lemma distinct_map_filter_keep: "distinct (map f xs) \<Longrightarrow> distinct (map f (filter P xs))"
  by (induction xs) auto

lemma retain_valid_wf: "mempool_wf x mp \<Longrightarrow> mempool_wf x (retain_valid x s mp)"
  by (auto simp: mempool_wf_def retain_valid_eq Let_def distinct_map_filter_keep
      intro: order_trans [OF length_filter_le])

lemma fold_remove: "fold (\<lambda>st seen. seen - {f st}) sts S = S - f ` set sts"
  by (induction sts arbitrary: S) auto

lemma drain_batch_wf: "mempool_wf x mp \<Longrightarrow> mempool_wf x (snd (drain_batch x n mp))"
proof -
  assume wf: "mempool_wf x mp"
  let ?k = "min n (length (mp_pending mp))" and ?p = "mp_pending mp"
  have "distinct (map (st_digest x) (take ?k ?p @ drop ?k ?p))"
    using wf by (simp add: mempool_wf_def)
  then have dis: "st_digest x ` set (take ?k ?p) \<inter> st_digest x ` set (drop ?k ?p) = {}"
    unfolding map_append distinct_append by simp
  have "st_digest x ` set ?p = st_digest x ` set (take ?k ?p) \<union> st_digest x ` set (drop ?k ?p)"
    by (metis append_take_drop_id image_Un set_append)
  then have "st_digest x ` set ?p - st_digest x ` set (take ?k ?p) = st_digest x ` set (drop ?k ?p)"
    using dis by auto
  then show ?thesis
    using wf by (auto simp: mempool_wf_def drain_batch_def Let_def fold_remove drop_map [symmetric]
        dest: in_set_dropD)
qed

text \<open>The pools that can be reached from the empty one, whatever the stores at each step.\<close>

inductive mempool_reachable :: "chain_ext \<Rightarrow> mempool \<Rightarrow> bool" for x where
  start: "mempool_reachable x mempool_empty"
| submitted: "mempool_reachable x mp \<Longrightarrow> mempool_reachable x (snd (submit x st s mp))"
| retained: "mempool_reachable x mp \<Longrightarrow> mempool_reachable x (retain_valid x s mp)"
| drained: "mempool_reachable x mp \<Longrightarrow> mempool_reachable x (snd (drain_batch x n mp))"

text \<open>C14. In every pool that submissions, reorganisations and drains can produce, the digest set is
  exactly the set of digests of the queue, no digest is queued twice, the queue holds at most 4096
  transactions and each of them was validated with its signature.\<close>

theorem mempool_invariant: "mempool_reachable x mp \<Longrightarrow> mempool_wf x mp"
  by (induction rule: mempool_reachable.induct)
    (auto intro: submit_wf retain_valid_wf drain_batch_wf)

text \<open>The pool after the sample transaction was submitted.\<close>

definition sample_pool :: mempool where
  "sample_pool = snd (submit sample_ext sample_signed sample_store mempool_empty)"

lemma sample_pool_pending: "mp_pending sample_pool = [sample_signed]"
  by code_simp

theorem mempool_invariant_witness:
  "mempool_wf sample_ext sample_pool \<and> mp_pending sample_pool = [sample_signed]"
  using mempool_invariant [OF mempool_reachable.submitted [OF mempool_reachable.start]]
  by (simp add: sample_pool_pending, simp add: sample_pool_def)

text \<open>C15. The pool is a first-in first-out queue.  A successful submission appends at the back,
  a failed one changes nothing; a drain returns the oldest transactions in order and leaves the
  rest, and what it returns can be submitted again.\<close>

theorem mempool_fifo:
  "snd (submit x st s mp) =
     (if fst (submit x st s mp) = Ok ()
      then \<lparr>mp_pending = mp_pending mp @ [st], mp_seen = insert (st_digest x st) (mp_seen mp)\<rparr>
      else mp) \<and>
   fst (drain_batch x n mp) @ mp_pending (snd (drain_batch x n mp)) = mp_pending mp \<and>
   length (fst (drain_batch x n mp)) = min n (mempool_len mp) \<and>
   mp_seen (snd (drain_batch x n mp)) = mp_seen mp - st_digest x ` set (fst (drain_batch x n mp))"
proof -
  have "snd (submit x st s mp) =
     (if fst (submit x st s mp) = Ok ()
      then \<lparr>mp_pending = mp_pending mp @ [st], mp_seen = insert (st_digest x st) (mp_seen mp)\<rparr>
      else mp)"
    by (rule submit_cases [of x st s mp]) auto
  then show ?thesis by (simp add: drain_batch_def Let_def fold_remove mempool_len_def)
qed

end
