(* ===== verification/Object_Laws.thy ===== *)
theory Object_Laws
  imports Sample_Chain
begin

text \<open>
  Laws of the object model: what the conversions compute, the round trip between objects and VM
  values, and the deduction of gas from a coin.
\<close>

section \<open>Converted structs\<close>

named_theorems object_names

lemmas object_name_defs [object_names] =
  MEOW_OBJECT_ID_FIELD_NAME_def BALANCE_FIELD_NAME_def

lemma meow_object_id_value_eq:
  "meow_object_id_value i =
     Ok (VStruct MEOW_OBJECT_ID_BYTECODE_TYPE_NAME [(''inner'', VAddress (mo_inner i))])"
  by (simp add: meow_object_id_value_def struct_from_rust_def serde_meow_object_id_def
      meow_object_id_names_def translate_name_def)

lemma meow_coin_value_eq:
  "meow_coin_value c =
     Ok (VStruct MEOW_COIN_OBJECT_BYTECODE_TYPE_NAME
           [(''id'', VStruct MEOW_OBJECT_ID_BYTECODE_TYPE_NAME [(''inner'', VAddress (mo_inner (mc_id c)))]),
            (''balance'', VU64 (mc_balance c))])"
  by (simp add: meow_coin_value_def struct_from_rust_def serde_meow_coin_def serde_meow_object_id_def
      meow_coin_names_def translate_name_def)

context bcs
begin

lemma object_address_of_id:
  "object_address x (VStruct tn ((MEOW_OBJECT_ID_FIELD_NAME, VStruct n [(f, VAddress a)]) # flds)) = Some a"
  by (simp add: object_address_def value_field_def value_to_rust_def meow_object_id_de_def)

end

section \<open>Objects and values\<close>

definition object_fields :: "chain_ext \<Rightarrow> object \<Rightarrow> (string \<times> val) list \<Rightarrow> bool" where
  "object_fields x ob flds \<longleftrightarrow>
     cx_fields x flds = Ok (ob_content ob) \<and> MEOW_OBJECT_ID_FIELD_NAME \<notin> fst ` set flds"

lemma filter_no_id:
  "MEOW_OBJECT_ID_FIELD_NAME \<notin> fst ` set flds \<Longrightarrow>
     filter (\<lambda>(n, _). n \<noteq> MEOW_OBJECT_ID_FIELD_NAME) flds = flds"
  by (induction flds) auto

text \<open>C16. Loading an object into the VM and storing it back is the identity on its address, type and
  content; owner, transaction and version are the ones given.\<close>

theorem object_conversion_roundtrip:
  assumes "bcs_ok x" "prefix_hex_ok (cx_hex x)"
    and "ob_type ob = ObjectTy decl" "identifier_is_valid (ident_str (odr_name decl))"
    and "object_fields x ob flds"
  shows "\<exists>v. object_to_vm_object_value x ob = Ok v \<and>
     vm_object_value_to_object x v owner tx version =
       Ok (ob\<lparr>ob_owner := owner, ob_transaction := tx, ob_version := version\<rparr>)"
proof -
  have bcs: "bcs x" and hex: "prefix_hex (cx_hex x)"
    using assms(1,2) by (simp_all add: bcs_def prefix_hex_def)
  have dec: "cx_fields_de x (ob_content ob) = Ok flds"
    using assms(5) bcs.fields_roundtrip [OF bcs] by (simp add: object_fields_def)
  show ?thesis
    using assms(3-5)
    by (simp add: object_to_vm_object_value_def dec meow_object_id_value_eq
        vm_object_value_to_object_def prefix_hex.parse_of_qualified [OF hex]
        bcs.object_address_of_id [OF bcs] identifier_new_def object_fields_def filter_no_id)
qed

lemma cx_hex_sample [simp]: "cx_hex sample_ext = std_hex_codec"
  by (simp add: sample_ext_def)

lemma sample_coin_fields:
  "object_fields sample_ext (sample_coin b) [(BALANCE_FIELD_NAME, VU64 b)]"
  by (simp add: object_fields_def sample_coin_def sample_ext_def fresh_object_def object_names)

lemma sample_coin_type: "ob_type (sample_coin b) = ObjectTy coin_decl"
  by (simp add: sample_coin_def fresh_object_def)

lemma coin_name_valid: "identifier_is_valid (ident_str (odr_name coin_decl))"
  by code_simp

theorem object_conversion_roundtrip_witness:
  "\<exists>v. object_to_vm_object_value sample_ext (sample_coin 7) = Ok v \<and>
     vm_object_value_to_object sample_ext v OwnerImmutable digest_zero 2 =
       Ok ((sample_coin 7)\<lparr>ob_owner := OwnerImmutable, ob_transaction := digest_zero, ob_version := 2\<rparr>)"
  using std_bcs.bcs_contract std_hex.codec
  by (intro object_conversion_roundtrip [OF _ _ sample_coin_type coin_name_valid sample_coin_fields]) simp_all

section \<open>Gas coins\<close>

lemma deduct_balance_split:
  assumes "find_pair BALANCE_FIELD_NAME flds = Some v" "as_u64 v = Some b"
  shows "\<exists>pre post. flds = pre @ (BALANCE_FIELD_NAME, VU64 b) # post \<and>
     BALANCE_FIELD_NAME \<notin> fst ` set pre \<and>
     deduct_balance s flds = Some (pre @ (BALANCE_FIELD_NAME, VU64 (saturating_sub b s)) # post)"
  using assms
proof (induction flds)
  case Nil
  then show ?case by (simp add: find_pair_def)
next
  case (Cons f flds)
  obtain n w where f: "f = (n, w)" by (cases f)
  show ?case
  proof (cases "n = BALANCE_FIELD_NAME")
    case True
    with Cons.prems f have "w = VU64 b"
      by (auto simp: find_pair_def as_u64_def split: val.splits)
    with True f show ?thesis by (intro exI [of _ "[]"] exI [of _ flds]) (simp add: as_u64_def)
  next
    case False
    with Cons.prems f have "find_pair BALANCE_FIELD_NAME flds = Some v" by (simp add: find_pair_def)
    from Cons.IH [OF this Cons.prems(2)] obtain pre post where
      "flds = pre @ (BALANCE_FIELD_NAME, VU64 b) # post" "BALANCE_FIELD_NAME \<notin> fst ` set pre"
      "deduct_balance s flds = Some (pre @ (BALANCE_FIELD_NAME, VU64 (saturating_sub b s)) # post)"
      by blast
    with False f show ?thesis
      by (intro exI [of _ "(n, w) # pre"] exI [of _ post]) auto
  qed
qed

lemma find_pair_append:
  "n \<notin> fst ` set pre \<Longrightarrow> find_pair n (pre @ (n, v) # post) = Some v"
  by (induction pre) (auto simp: find_pair_def)

lemma bcs_limits_replace:
  "bcs_limits (pre @ (n, VU64 b) # post) \<Longrightarrow> bcs_limits (pre @ (n, VU64 c) # post)"
  by (auto simp: bcs_limits_def)

lemma balance_from_object_Some:
  assumes "balance_from_object x coin = Some b"
  obtains flds v where "is_meow_coin_object coin" "cx_fields_de x (ob_content coin) = Ok flds"
    "find_pair BALANCE_FIELD_NAME flds = Some v" "as_u64 v = Some b"
  using assms by (auto simp: balance_from_object_def split: if_splits sum.splits option.splits)

lemma deduct_gas_Some:
  assumes "bcs_ok x" and b: "balance_from_object x coin = Some b"
    and "cx_fields_de x (ob_content coin) = Ok flds" "bcs_limits flds"
  obtains pre post bs where "flds = pre @ (BALANCE_FIELD_NAME, VU64 b) # post"
    "BALANCE_FIELD_NAME \<notin> fst ` set pre" "deduct_gas x coin s = Some bs"
    "cx_fields_de x bs = Ok (pre @ (BALANCE_FIELD_NAME, VU64 (saturating_sub b s)) # post)"
proof -
  have bcs: "bcs x" using assms(1) by (simp add: bcs_def)
  from balance_from_object_Some [OF b] obtain v where
    coin: "is_meow_coin_object coin" and "find_pair BALANCE_FIELD_NAME flds = Some v" "as_u64 v = Some b"
    using assms(3) by (metis Inr_inject)
  from deduct_balance_split [OF this(2,3), of s] obtain pre post where
    eq: "flds = pre @ (BALANCE_FIELD_NAME, VU64 b) # post" and pre: "BALANCE_FIELD_NAME \<notin> fst ` set pre"
    and ded: "deduct_balance s flds = Some (pre @ (BALANCE_FIELD_NAME, VU64 (saturating_sub b s)) # post)"
    by blast
  have "bcs_limits (pre @ (BALANCE_FIELD_NAME, VU64 (saturating_sub b s)) # post)"
    using assms(4) unfolding eq by (rule bcs_limits_replace)
  then obtain bs where bs: "cx_fields x (pre @ (BALANCE_FIELD_NAME, VU64 (saturating_sub b s)) # post) = Ok bs"
    "cx_fields_de x bs = Ok (pre @ (BALANCE_FIELD_NAME, VU64 (saturating_sub b s)) # post)"
    by (rule bcs.fields_encode [OF bcs])
  have "deduct_gas x coin s = Some bs"
    by (simp add: deduct_gas_def coin assms(3) ded bs(1))
  from that [OF eq pre this bs(2)] show ?thesis .
qed

text \<open>C17. Deducting gas from a coin subtracts exactly the gas from its balance, down to zero and
  never below, and leaves every other field as it was.\<close>

theorem deduct_gas_exact:
  assumes "bcs_ok x" "balance_from_object x coin = Some b"
    and "cx_fields_de x (ob_content coin) = Ok flds" "bcs_limits flds"
  shows "\<exists>bs c pre post. deduct_gas x coin s = Some bs \<and>
     balance_from_object x (coin\<lparr>ob_content := bs\<rparr>) = Some c \<and> unat c = unat b - unat s \<and>
     flds = pre @ (BALANCE_FIELD_NAME, VU64 b) # post \<and>
     cx_fields_de x bs = Ok (pre @ (BALANCE_FIELD_NAME, VU64 c) # post)"
proof -
  from deduct_gas_Some [OF assms, of s] obtain pre post bs where
    eq: "flds = pre @ (BALANCE_FIELD_NAME, VU64 b) # post" and pre: "BALANCE_FIELD_NAME \<notin> fst ` set pre"
    and bs: "deduct_gas x coin s = Some bs"
    and de: "cx_fields_de x bs = Ok (pre @ (BALANCE_FIELD_NAME, VU64 (saturating_sub b s)) # post)"
    by blast
  have "is_meow_coin_object coin" using balance_from_object_Some [OF assms(2)] by metis
  then have "balance_from_object x (coin\<lparr>ob_content := bs\<rparr>) = Some (saturating_sub b s)"
    by (simp add: balance_from_object_def is_meow_coin_object_def de find_pair_append [OF pre] as_u64_def)
  moreover have "unat (saturating_sub b s) = unat b - unat s"
    by (auto simp: saturating_sub_def unat_sub word_le_nat_alt)
  ultimately show ?thesis using bs eq de by blast
qed

lemma sample_coin_decodes:
  "cx_fields_de sample_ext (ob_content (sample_coin b)) = Ok [(BALANCE_FIELD_NAME, VU64 b)]"
  using std_bcs.fields_roundtrip sample_coin_fields by (simp add: object_fields_def)

lemma sample_coin_balance: "balance_from_object sample_ext (sample_coin b) = Some b"
  by (simp add: balance_from_object_def is_meow_coin_object_def sample_coin_type sample_coin_decodes
      is_meow_coin_object_decl_ref_def is_meow_coin_def coin_decl_def find_pair_def as_u64_def)

theorem deduct_gas_exact_witness:
  "\<exists>bs c pre post. deduct_gas sample_ext (sample_coin 7) 10 = Some bs \<and>
     balance_from_object sample_ext ((sample_coin 7)\<lparr>ob_content := bs\<rparr>) = Some c \<and> unat c = 0 \<and>
     [(BALANCE_FIELD_NAME, VU64 7)] = pre @ (BALANCE_FIELD_NAME, VU64 7) # post \<and>
     cx_fields_de sample_ext bs = Ok (pre @ (BALANCE_FIELD_NAME, VU64 c) # post)"
  using deduct_gas_exact [OF std_bcs.bcs_contract sample_coin_balance [of 7] sample_coin_decodes [of 7], of 10]
  by (simp add: bcs_limits_def object_names)

end
