(* ===== verification/Error_Messages.thy ===== *)
theory Error_Messages
  imports Gas Verifier_Structural
begin

text \<open>
  The messages of the errors that end up in execution results: the \<open>#[error(...)]\<close> attributes of
  \<open>meow-vm/src/error.rs\<close> and \<open>meow-vm-bytecode-verifier/src/error.rs\<close>.  A string is its UTF-8 bytes.
\<close>

definition em_dash :: string where
  "em_dash = [CHR 0xE2, CHR 0x80, CHR 0x94]"

definition quoted :: "string \<Rightarrow> string" where
  "quoted s = CHR 0x27 # s @ [CHR 0x27]"

definition show_int :: "int \<Rightarrow> string" where
  "show_int i = (if i < 0 then CHR ''-'' # show_nat (nat (- i)) else show_nat (nat i))"

primrec vm_error_display :: "vm_error \<Rightarrow> string" where
  "vm_error_display (Aborted code message) =
     ''aborted with code '' @ show_nat (unat code) @ '': '' @ message"
| "vm_error_display ArithmeticOverflow = ''arithmetic overflow''"
| "vm_error_display (ArityMismatch f got local_count) =
     ''function '' @ quoted f @ '' received '' @ show_nat got @ '' arguments but declares only '' @
     show_nat local_count @ '' local slots''"
| "vm_error_display (CallStackOverflow v) =
     ''call stack overflow (max depth '' @ show_nat v @ '')''"
| "vm_error_display DivisionByZero = ''division by zero''"
| "vm_error_display (EqOnLinearType v) =
     quoted v @
     '': struct types and tuples containing structs cannot be compared with == or != '' @ em_dash @
     '' destructure and compare fields individually''"
| "vm_error_display (InvalidJumpTarget pc offset) =
     ''invalid jump target: offset '' @ show_int (sint offset) @ '' from pc '' @ show_nat pc @
     '' is out of range''"
| "vm_error_display (LinearFieldOverwrite v) =
     ''store-field would overwrite live struct field '' @ quoted v @
     ''; consume it before storing''"
| "vm_error_display (NativeError v) = ''native function error: '' @ v"
| "vm_error_display (NativeFunctionCallDirect v) =
     quoted v @ '' is a native function and cannot be called directly from outside a contract''"
| "vm_error_display (OutOfGas spent lim) =
     ''out of gas: spent '' @ show_nat (unat spent) @ '', limit '' @ show_nat (unat lim)"
| "vm_error_display (PrivateFunction v) =
     ''function '' @ quoted v @ '' is private '' @ em_dash @
     '' only `pub fn` can be called from outside the module''"
| "vm_error_display (SlotOverwrite v) =
     ''slot overwrite: slot '' @ show_nat (unat v) @
     '' holds a live struct; consume it before storing''"
| "vm_error_display StackUnderflow = ''stack underflow''"
| "vm_error_display (TooManyDepModules v) =
     ''too many dependency modules (max '' @ show_nat v @ '')''"
| "vm_error_display (TypeError v) = ''type error: '' @ v"
| "vm_error_display (UndefinedField ty field) =
     ''undefined field '' @ quoted field @ '' on struct '' @ quoted ty"
| "vm_error_display (UndefinedFunction v) = ''undefined function: '' @ v"
| "vm_error_display (UndefinedStruct v) = ''undefined struct: '' @ v"
| "vm_error_display (UndefinedVariable v) = ''undefined variable at slot '' @ show_nat (unat v)"
| "vm_error_display (UseAfterMove v) = ''use after move: '' @ v"

primrec verification_error_display :: "verification_error \<Rightarrow> string" where
  "verification_error_display (InvalidIdentifier name context) =
     ''invalid identifier '' @ quoted name @ '' in '' @ context"
| "verification_error_display (DuplicateFunctionName name) =
     ''duplicate function name '' @ quoted name"
| "verification_error_display (DuplicateStructName name) =
     ''duplicate struct name '' @ quoted name"
| "verification_error_display (TooManyStructs n lim) =
     ''module has '' @ show_nat n @ '' struct definitions, exceeding the limit of '' @
     show_nat lim"
| "verification_error_display (TooManyFunctions n lim) =
     ''module has '' @ show_nat n @ '' function definitions, exceeding the limit of '' @
     show_nat lim"
| "verification_error_display (TooManyImports n lim) =
     ''module has '' @ show_nat n @ '' imports, exceeding the limit of '' @ show_nat lim"
| "verification_error_display (EmptyStruct struct_name) =
     ''struct '' @ quoted struct_name @ '' has no fields '' @ em_dash @
     '' structs must have at least one field''"
| "verification_error_display (TooManyFields struct_name n lim) =
     ''struct '' @ quoted struct_name @ '' has '' @ show_nat n @
     '' fields, exceeding the limit of '' @ show_nat lim"
| "verification_error_display (CyclicStructDefinition struct_name) =
     ''struct '' @ quoted struct_name @ '' is part of a cyclic field type definition''"
| "verification_error_display (TupleFieldType struct_name field_name) =
     ''field '' @ quoted field_name @ '' in struct '' @ quoted struct_name @
     '' has a tuple type '' @ em_dash @
     '' only primitives and struct types are allowed as field types''"
| "verification_error_display (TupleTooLarge f sz lim) =
     ''function '' @ quoted f @ '': tuple has '' @ show_nat sz @
     '' elements, exceeding the limit of '' @ show_nat lim"
| "verification_error_display (LocalCountTooSmall f local_count param_count) =
     ''function '' @ quoted f @ '': local_count '' @ show_nat (unat local_count) @
     '' < param count '' @ show_nat param_count"
| "verification_error_display (TooManyParams f n lim) =
     ''function '' @ quoted f @ '' has '' @ show_nat n @ '' parameters, exceeding the limit of '' @
     show_nat lim"
| "verification_error_display (FunctionTooLarge f n lim) =
     ''function '' @ quoted f @ '' has '' @ show_nat n @
     '' bytecode instructions, exceeding the limit of '' @ show_nat lim"
| "verification_error_display (TooManyLocals f n lim) =
     ''function '' @ quoted f @ '' has local_count '' @ show_nat (unat n) @
     '' exceeding the limit of '' @ show_nat (unat lim)"
| "verification_error_display (BackwardJump f pc offset) =
     ''function '' @ quoted f @ '' at pc '' @ show_nat pc @ '': backward or zero jump offset '' @
     show_int (sint offset) @ '' '' @ em_dash @ '' loops are not allowed''"
| "verification_error_display (JumpOutOfBounds f pc target code_len) =
     ''function '' @ quoted f @ '' at pc '' @ show_nat pc @ '': jump target '' @ show_nat target @
     '' is out of bounds (code length '' @ show_nat code_len @ '')''"
| "verification_error_display (SlotOutOfRange f pc slot local_count) =
     ''function '' @ quoted f @ '' at pc '' @ show_nat pc @ '': local slot '' @
     show_nat (unat slot) @ '' is out of range (local_count is '' @ show_nat (unat local_count) @
     '')''"
| "verification_error_display (EmptyFieldPath f pc) =
     ''function '' @ quoted f @ '' at pc '' @ show_nat pc @ '': field path must not be empty''"
| "verification_error_display (UnresolvedTypeReference context ty) =
     ''unresolved type '' @ quoted ty @ '' in '' @ context"
| "verification_error_display (UndefinedStructType f pc ty) =
     ''function '' @ quoted f @ '' at pc '' @ show_nat pc @
     '': NewStruct references unknown type '' @ quoted ty"
| "verification_error_display (StructFieldMismatch f pc ty) =
     ''function '' @ quoted f @ '' at pc '' @ show_nat pc @ '': field list for '' @ quoted ty @
     '' does not match definition''"
| "verification_error_display (CrossModuleCallToPrivateFunction f pc callee) =
     ''function '' @ quoted f @ '' at pc '' @ show_nat pc @ '': call to '' @ quoted callee @
     '' which is private''"
| "verification_error_display (CrossModuleStructAccess f pc ty) =
     ''function '' @ quoted f @ '' at pc '' @ show_nat pc @
     '': cross-module struct access for type '' @ quoted ty @ '' is forbidden''"
| "verification_error_display (CrossModulePrivateStructReference context ty) =
     ''in '' @ context @ '': type '' @ quoted ty @
     '' refers to a private struct in another module '' @ em_dash @
     '' only `pub` structs are visible across modules''"
| "verification_error_display (CrossModulePrivateFieldRead f pc ty field) =
     ''function '' @ quoted f @ '' at pc '' @ show_nat pc @ '': field '' @ quoted field @
     '' on cross-module type '' @ quoted ty @ '' is private''"
| "verification_error_display (CrossModuleFieldWrite f pc ty field) =
     ''function '' @ quoted f @ '' at pc '' @ show_nat pc @ '': cross-module field write to '' @
     quoted field @ '' on '' @ quoted ty @ '' is forbidden''"
| "verification_error_display (StackUnderflowV f pc expected) =
     ''function '' @ quoted f @ '' at pc '' @ show_nat pc @ '': stack underflow '' @ em_dash @
     '' expected '' @ expected"
| "verification_error_display (TypeMismatch f pc expected found) =
     ''function '' @ quoted f @ '' at pc '' @ show_nat pc @ '': type mismatch '' @ em_dash @
     '' expected '' @ expected @ '', found '' @ found"
| "verification_error_display (StackMergeConflict f join_pc) =
     ''function '' @ quoted f @ '': stack types at join point pc '' @ show_nat join_pc @
     '' differ between branch paths''"
| "verification_error_display (LivenessMergeConflict f join_pc slot) =
     ''function '' @ quoted f @ '': struct liveness at join point pc '' @ show_nat join_pc @
     '' differs between branch paths (slot '' @ show_nat (unat slot) @ '')''"
| "verification_error_display (SlotTypeMergeConflict f join_pc slot) =
     ''function '' @ quoted f @ '': local slot '' @ show_nat (unat slot) @
     '' holds linear values of incompatible types at join point pc '' @ show_nat join_pc @
     '' between branch paths''"
| "verification_error_display (ReturnTypeMismatch f declared found) =
     ''function '' @ quoted f @ '': return type mismatch '' @ em_dash @ '' declared '' @ declared @
     '', found '' @ found"
| "verification_error_display (MissingReturn f) =
     ''function '' @ quoted f @ '': missing Return at end of function''"
| "verification_error_display (StructTypedFieldLoaded f pc field) =
     ''function '' @ quoted f @ '' at pc '' @ show_nat pc @ '': field '' @ quoted field @
     '' has struct type '' @ em_dash @
     '' LoadField on a struct-typed field is forbidden; use UnpackStruct to extract struct fields''"
| "verification_error_display (StructTypedFieldWritten f pc field) =
     ''function '' @ quoted f @ '' at pc '' @ show_nat pc @ '': field '' @ quoted field @
     '' has struct type '' @ em_dash @
     '' StoreField into a struct-typed field is forbidden; the old value would be implicitly dropped''"
| "verification_error_display (GetFieldDropsLinearField f pc ty linear_field) =
     ''function '' @ quoted f @ '' at pc '' @ show_nat pc @ '': GetField on struct '' @ quoted ty @
     '' would silently drop linear field '' @ quoted linear_field @ '' '' @ em_dash @
     '' use UnpackStruct to consume all fields explicitly''"
| "verification_error_display (UseAfterMoveV f pc slot) =
     ''function '' @ quoted f @ '' at pc '' @ show_nat pc @
     '': use-after-move of struct in slot '' @ show_nat (unat slot)"
| "verification_error_display (PopOnStruct f pc) =
     ''function '' @ quoted f @ '' at pc '' @ show_nat pc @ '': Pop on struct value '' @ em_dash @
     '' structs have move semantics and must be explicitly consumed''"
| "verification_error_display (DupOnStruct f pc) =
     ''function '' @ quoted f @ '' at pc '' @ show_nat pc @ '': Dup on struct value '' @ em_dash @
     '' structs have move semantics''"
| "verification_error_display (EqOnLinearTypeV f pc) =
     ''function '' @ quoted f @ '' at pc '' @ show_nat pc @
     '': struct types and tuples containing structs cannot be compared with == or != '' @ em_dash @
     '' destructure and compare fields individually''"
| "verification_error_display (SlotOverwriteV f pc slot) =
     ''function '' @ quoted f @ '' at pc '' @ show_nat pc @
     '': Store overwrites live struct in slot '' @ show_nat (unat slot) @ '' '' @ em_dash @
     '' consume the existing value first''"
| "verification_error_display (UnconsumedStruct f slot) =
     ''function '' @ quoted f @ '': struct in slot '' @ show_nat (unat slot) @
     '' was not consumed before Return''"
| "verification_error_display (UnconsumedStructOnStack f) =
     ''function '' @ quoted f @
     '': a linear value is left on the operand stack beneath the return value '' @ em_dash @
     '' it would be silently dropped at Return''"
| "verification_error_display (UndefinedFunctionV f pc callee) =
     ''function '' @ quoted f @ '' at pc '' @ show_nat pc @ '': call to undefined function '' @
     quoted callee"
| "verification_error_display (NativeArgCountMismatch f pc callee expected found) =
     ''function '' @ quoted f @ '' at pc '' @ show_nat pc @ '': native '' @ quoted callee @
     '' expects '' @ show_nat expected @ '' args but '' @ show_nat found @ '' were provided''"
| "verification_error_display (NativeArgTypeMismatch f pc callee arg_index expected found) =
     ''function '' @ quoted f @ '' at pc '' @ show_nat pc @ '': native '' @ quoted callee @
     '' arg '' @ show_nat arg_index @ '' expects '' @ expected @ '', found '' @ found"

end
