(* ===== verification/Adapter_Context.thy ===== *)
theory Adapter_Context
  imports Object_Laws Error_Messages Vm
begin

text \<open>
  What a transaction's VM call leaves behind, and the native functions that write it:
  \<open>meow-vm-adapter/src/context.rs\<close>, \<open>external_context.rs\<close> and \<open>natives.rs\<close>.
\<close>

section \<open>Contexts\<close>

record external_context =
  ec_rand_seed :: bytes
  ec_timestamp :: u64

definition DEFAULT_RAND_SEED :: bytes where
  "DEFAULT_RAND_SEED = replicate 32 0"

definition external_context_default :: external_context where
  "external_context_default = \<lparr>ec_rand_seed = DEFAULT_RAND_SEED, ec_timestamp = 0\<rparr>"

text \<open>A generator is its seed and the number of values drawn.\<close>

record std_rng =
  rg_seed :: digest
  rg_drawn :: nat

definition create_random_generator :: "chain_ext \<Rightarrow> digest \<Rightarrow> bytes \<Rightarrow> std_rng" where
  "create_random_generator x tx_digest rand_seed =
     \<lparr>rg_seed = digest_compute x (cx_byte_vec x (digest_bytes tx_digest @ rand_seed)), rg_drawn = 0\<rparr>"

record exec_context =
  cn_sender :: address
  cn_tx_digest :: digest
  cn_id_counter :: u64
  cn_fresh_ids :: "address list"
  cn_transfers :: "(val \<times> address) list"
  cn_destroyed :: "address list"
  cn_random_generator :: std_rng
  cn_timestamp :: u64

definition context_new :: "chain_ext \<Rightarrow> address \<Rightarrow> digest \<Rightarrow> bytes \<Rightarrow> u64 \<Rightarrow> exec_context" where
  "context_new x sender tx_digest rand_seed timestamp =
     \<lparr>cn_sender = sender, cn_tx_digest = tx_digest, cn_id_counter = 0, cn_fresh_ids = [],
      cn_transfers = [], cn_destroyed = [],
      cn_random_generator = create_random_generator x tx_digest rand_seed, cn_timestamp = timestamp\<rparr>"

definition context_default :: "chain_ext \<Rightarrow> exec_context" where
  "context_default x = context_new x address_zero digest_zero DEFAULT_RAND_SEED 0"

definition next_fresh_id :: "chain_ext \<Rightarrow> exec_context \<Rightarrow> address \<times> exec_context" where
  "next_fresh_id x c =
     (let a = address_derive x (cn_tx_digest c) 0 (cn_id_counter c) in
      (a, c\<lparr>cn_fresh_ids := cn_fresh_ids c @ [a], cn_id_counter := cn_id_counter c + 1\<rparr>))"

definition context_transfer :: "val \<Rightarrow> address \<Rightarrow> exec_context \<Rightarrow> exec_context" where
  "context_transfer ob new_owner c = c\<lparr>cn_transfers := cn_transfers c @ [(ob, new_owner)]\<rparr>"

definition context_destroy :: "address \<Rightarrow> exec_context \<Rightarrow> exec_context" where
  "context_destroy i c = c\<lparr>cn_destroyed := cn_destroyed c @ [i]\<rparr>"

definition next_rand :: "chain_ext \<Rightarrow> exec_context \<Rightarrow> u64 \<times> exec_context" where
  "next_rand x c =
     (let g = cn_random_generator c in
      (cx_rng x (rg_seed g) (rg_drawn g), c\<lparr>cn_random_generator := g\<lparr>rg_drawn := Suc (rg_drawn g)\<rparr>\<rparr>))"

section \<open>Natives\<close>

text \<open>The closures of \<open>build_natives\<close>; \<open>pop().unwrap()\<close> on too few arguments panics.\<close>

definition fresh_id_func :: "chain_ext \<Rightarrow> val list \<Rightarrow> exec_context \<Rightarrow> native_result \<times> exec_context" where
  "fresh_id_func x args c =
     (let (a, c) = next_fresh_id x c in
      (case meow_object_id_value \<lparr>mo_inner = a\<rparr> of
         Inl (_ :: unit fault) \<Rightarrow> (NativePanic, c)
       | Inr v \<Rightarrow> (NativeReturn (Some v), c)))"

definition transfer_func :: "chain_ext \<Rightarrow> val list \<Rightarrow> exec_context \<Rightarrow> native_result \<times> exec_context" where
  "transfer_func x args c =
     (if length args < 2 then (NativePanic, c)
      else
        let owner_val = last args; obj_val = last (butlast args) in
        (case owner_val of
           VAddress owner \<Rightarrow>
             if object_address x obj_val = None
             then (NativeErr (''meow_vm_transfer: expected struct with id: meow_object::Id as first field, got ''
                     @ value_type_name obj_val), c)
             else (NativeReturn None, context_transfer obj_val owner c)
         | other \<Rightarrow>
             (NativeErr (''meow_vm_transfer: expected address for owner, got '' @ value_type_name other), c)))"

definition destroy_func :: "chain_ext \<Rightarrow> val list \<Rightarrow> exec_context \<Rightarrow> native_result \<times> exec_context" where
  "destroy_func x args c =
     (case args of
        [] \<Rightarrow> (NativePanic, c)
      | id_val # _ \<Rightarrow>
          (case value_to_rust x (meow_object_id_de x) id_val of
             Inr i \<Rightarrow> (NativeReturn None, context_destroy (mo_inner i) c)
           | Inl _ \<Rightarrow>
               (NativeErr (''meow_vm_destroy: expected meow_object::Id struct with inner: address, got ''
                  @ value_type_name id_val), c)))"

definition sender_func :: "val list \<Rightarrow> exec_context \<Rightarrow> native_result \<times> exec_context" where
  "sender_func args c = (NativeReturn (Some (VAddress (cn_sender c))), c)"

definition rand_func :: "chain_ext \<Rightarrow> val list \<Rightarrow> exec_context \<Rightarrow> native_result \<times> exec_context" where
  "rand_func x args c = (let (n, c) = next_rand x c in (NativeReturn (Some (VU64 n)), c))"

definition timestamp_func :: "val list \<Rightarrow> exec_context \<Rightarrow> native_result \<times> exec_context" where
  "timestamp_func args c = (NativeReturn (Some (VU64 (cn_timestamp c))), c)"

definition build_natives :: "chain_ext \<Rightarrow> exec_context native_fn_entry list" where
  "build_natives x =
     (let id_type = TStruct MEOW_OBJECT_ID_BYTECODE_TYPE_NAME in
      [\<lparr>ne_name = NATIVE_FN_FRESH_ID, ne_params = [], ne_return_type = Some id_type,
        ne_gas_cost = 10, ne_func = fresh_id_func x\<rparr>,
       \<lparr>ne_name = NATIVE_FN_TRANSFER, ne_params = [LocalStruct, Concrete TAddress],
        ne_return_type = None, ne_gas_cost = 20, ne_func = transfer_func x\<rparr>,
       \<lparr>ne_name = NATIVE_FN_DESTROY, ne_params = [Concrete id_type], ne_return_type = None,
        ne_gas_cost = 10, ne_func = destroy_func x\<rparr>,
       \<lparr>ne_name = NATIVE_FN_SENDER, ne_params = [], ne_return_type = Some TAddress,
        ne_gas_cost = 1, ne_func = sender_func\<rparr>,
       \<lparr>ne_name = NATIVE_FN_RAND, ne_params = [], ne_return_type = Some TU64,
        ne_gas_cost = 10, ne_func = rand_func x\<rparr>,
       \<lparr>ne_name = NATIVE_FN_TIMESTAMP, ne_params = [], ne_return_type = Some TU64,
        ne_gas_cost = 1, ne_func = timestamp_func\<rparr>])"

definition native_sigs_with_id_type :: "string \<Rightarrow> native_sig list" where
  "native_sigs_with_id_type id_type_name =
     (let id_type = TStruct id_type_name in
      [\<lparr>ns_name = NATIVE_FN_FRESH_ID, ns_params = [], ns_return_type = Some id_type\<rparr>,
       \<lparr>ns_name = NATIVE_FN_TRANSFER, ns_params = [LocalStruct, Concrete TAddress],
        ns_return_type = None\<rparr>,
       \<lparr>ns_name = NATIVE_FN_DESTROY, ns_params = [Concrete id_type], ns_return_type = None\<rparr>,
       \<lparr>ns_name = NATIVE_FN_SENDER, ns_params = [], ns_return_type = Some TAddress\<rparr>,
       \<lparr>ns_name = NATIVE_FN_RAND, ns_params = [], ns_return_type = Some TU64\<rparr>,
       \<lparr>ns_name = NATIVE_FN_TIMESTAMP, ns_params = [], ns_return_type = Some TU64\<rparr>])"

definition adapter_native_sigs :: "native_sig list" where
  "adapter_native_sigs = native_sigs_with_id_type MEOW_OBJECT_ID_BYTECODE_TYPE_NAME"

definition adapter_native_sigs_for_compiler :: "native_sig list" where
  "adapter_native_sigs_for_compiler = native_sigs_with_id_type ''meow_object::Id''"

end
