(* ===== verification/Adapter_Verifier.thy ===== *)
theory Adapter_Verifier
  imports Adapter_Context
begin

text \<open>
  The chain's own bytecode verifier, run after the one of the language:
  \<open>meow-vm-adapter/src/bytecode_verifier/mod.rs\<close>.
\<close>

datatype bytecode_verifier_error =
    IdFieldNotFirst string string
  | ObjectAsFieldType string string string
  | ObjectIdNotFresh string nat string
  | TransferNonObjectStruct string nat string

primrec bytecode_verifier_error_display :: "bytecode_verifier_error \<Rightarrow> string" where
  "bytecode_verifier_error_display (IdFieldNotFirst struct_name field_name) =
     ''struct '' @ quoted struct_name @ '' field '' @ quoted field_name @
     '' has type `meow_object::Id` but is not the first field '' @ em_dash @
     '' an `id: meow_object::Id` field is only allowed as the first field '' @
     ''(which makes the struct an object)''"
| "bytecode_verifier_error_display (ObjectAsFieldType struct_name field_name object_type) =
     ''struct '' @ quoted struct_name @ '' field '' @ quoted field_name @ '' has type '' @
     quoted object_type @ '' which is an object type '' @ em_dash @
     '' objects cannot be nested as struct fields''"
| "bytecode_verifier_error_display (ObjectIdNotFresh f pc object) =
     ''in '' @ quoted f @ '' at pc '' @ show_nat pc @ '': object '' @ quoted object @
     '' constructed with non-fresh id (id must originate directly from meow_vm_fresh_id)''"
| "bytecode_verifier_error_display (TransferNonObjectStruct f pc struct_name) =
     ''in '' @ quoted f @ '' at pc '' @ show_nat pc @ '': meow_vm_transfer argument '' @
     quoted struct_name @ '' is not an on-chain object type '' @ em_dash @
     '' first field must be `id: meow_object::Id`''"

section \<open>Object layout\<close>

definition is_object_def :: "struct_def \<Rightarrow> vtype \<Rightarrow> bool" where
  "is_object_def d id_type =
     (case sd_fields d of
        f # _ \<Rightarrow> fd_name f = MEOW_OBJECT_ID_FIELD_NAME \<and> fd_ty f = id_type
      | [] \<Rightarrow> False)"

definition is_object_field ::
    "hex_codec \<Rightarrow> module_map \<Rightarrow> vtype \<Rightarrow> string list \<Rightarrow> string \<Rightarrow> bool" where
  "is_object_field hx deps id_type object_types field_type_name =
     (case parse_module_ref hx field_type_name of
        Some (dep_addr, type_name) \<Rightarrow>
          (case map_of deps dep_addr of
             None \<Rightarrow> False
           | Some m \<Rightarrow>
               (case get_struct m type_name of None \<Rightarrow> False | Some d \<Rightarrow> is_object_def d id_type))
      | None \<Rightarrow> field_type_name \<in> set object_types)"

definition field_layout_errors ::
    "hex_codec \<Rightarrow> module_map \<Rightarrow> vtype \<Rightarrow> string list \<Rightarrow> struct_def \<Rightarrow> nat \<times> field_def
       \<Rightarrow> bytecode_verifier_error list" where
  "field_layout_errors hx deps id_type object_types s = (\<lambda>(i, field).
     (if fd_ty field = id_type \<and> i \<noteq> 0 then [IdFieldNotFirst (sd_name s) (fd_name field)] else []) @
     (case fd_ty field of
        TStruct field_type_name \<Rightarrow>
          if is_object_field hx deps id_type object_types field_type_name
          then [ObjectAsFieldType (sd_name s) (fd_name field) field_type_name] else []
      | _ \<Rightarrow> []))"

definition check_object_layouts ::
    "hex_codec \<Rightarrow> module \<Rightarrow> module_map \<Rightarrow> vtype \<Rightarrow> string list \<Rightarrow> bytecode_verifier_error list" where
  "check_object_layouts hx m deps id_type object_types =
     concat (map (\<lambda>s. concat (map (field_layout_errors hx deps id_type object_types s)
                                   (List.enumerate 0 (sd_fields s))))
                 (md_structs m))"

section \<open>Abstract states\<close>

datatype fresh = FreshId | FreshOther

datatype struct_tag = TagObject | TagNonObject string | TagOther

record slot =
  sl_fresh :: fresh
  sl_tag :: struct_tag
  sl_tuple :: "struct_tag list option"

definition slot_scalar :: "fresh \<Rightarrow> struct_tag \<Rightarrow> slot" where
  "slot_scalar f t = \<lparr>sl_fresh = f, sl_tag = t, sl_tuple = None\<rparr>"

definition slot_other :: slot where
  "slot_other = slot_scalar FreshOther TagOther"

text \<open>The stack grows to the right, as the vector does.\<close>

record verify_state =
  vs_stack :: "slot list"
  vs_locals :: "slot list"
  vs_reachable :: bool

definition verify_state_new :: "nat \<Rightarrow> verify_state" where
  "verify_state_new local_count =
     \<lparr>vs_stack = [], vs_locals = replicate local_count slot_other, vs_reachable = True\<rparr>"

definition merge_slot :: "slot \<Rightarrow> slot \<Rightarrow> slot" where
  "merge_slot s other =
     \<lparr>sl_fresh = (if sl_fresh other \<noteq> FreshId then FreshOther else sl_fresh s),
      sl_tag = (if sl_tag other \<noteq> sl_tag s then TagOther else sl_tag s),
      sl_tuple =
        (case (sl_tuple s, sl_tuple other) of
           (Some ts, Some us) \<Rightarrow>
             if length ts = length us
             then Some (map2 (\<lambda>t u. if t \<noteq> u then TagOther else t) ts us) else None
         | _ \<Rightarrow> None)\<rparr>"

definition merge_from :: "verify_state \<Rightarrow> verify_state \<Rightarrow> verify_state" where
  "merge_from st other =
     st\<lparr>vs_stack := map2 merge_slot (vs_stack st) (vs_stack other),
        vs_locals := map (\<lambda>i. if i < length (vs_locals other)
                              then merge_slot (vs_locals st ! i) (vs_locals other ! i)
                              else slot_other) [0 ..< length (vs_locals st)]\<rparr>"

definition vs_pop :: "verify_state \<Rightarrow> slot \<times> verify_state" where
  "vs_pop st =
     (if vs_stack st = [] then (slot_other, st)
      else (last (vs_stack st), st\<lparr>vs_stack := butlast (vs_stack st)\<rparr>))"

definition vs_push :: "slot \<Rightarrow> verify_state \<Rightarrow> verify_state" where
  "vs_push s st = st\<lparr>vs_stack := vs_stack st @ [s]\<rparr>"

abbreviation push_other :: "verify_state \<Rightarrow> verify_state" where
  "push_other \<equiv> vs_push slot_other"

fun vs_pops :: "nat \<Rightarrow> verify_state \<Rightarrow> slot list \<times> verify_state" where
  "vs_pops 0 st = ([], st)"
| "vs_pops (Suc n) st =
     (let (s, st) = vs_pop st; (ss, st) = vs_pops n st in (s # ss, st))"

abbreviation vs_drop :: "nat \<Rightarrow> verify_state \<Rightarrow> verify_state" where
  "vs_drop n st \<equiv> snd (vs_pops n st)"

definition nth_opt :: "'a list \<Rightarrow> nat \<Rightarrow> 'a option" where
  "nth_opt xs i = (if i < length xs then Some (xs ! i) else None)"

section \<open>Tags\<close>

definition local_struct_tag :: "string \<Rightarrow> string list \<Rightarrow> struct_tag" where
  "local_struct_tag type_name object_types =
     (if is_qualified type_name then TagOther
      else if type_name \<in> set object_types then TagObject
      else TagNonObject type_name)"

definition type_tag :: "vtype \<Rightarrow> string list \<Rightarrow> struct_tag" where
  "type_tag t object_types =
     (case t of TStruct n \<Rightarrow> local_struct_tag n object_types | _ \<Rightarrow> TagOther)"

definition return_slot :: "string \<Rightarrow> module \<Rightarrow> string list \<Rightarrow> fresh \<Rightarrow> slot" where
  "return_slot name m object_types f =
     (if is_qualified name then slot_scalar f TagOther
      else case (case get_function m name of Some func \<Rightarrow> fn_return_type func | None \<Rightarrow> None) of
        Some (TStruct type_name) \<Rightarrow> slot_scalar f (local_struct_tag type_name object_types)
      | Some (TTuple types) \<Rightarrow>
          \<lparr>sl_fresh = f, sl_tag = TagOther,
           sl_tuple = Some (map (\<lambda>t. type_tag t object_types) types)\<rparr>
      | _ \<Rightarrow> slot_scalar f TagOther)"

definition call_effect ::
    "hex_codec \<Rightarrow> string \<Rightarrow> module \<Rightarrow> module_map \<Rightarrow> native_sig list \<Rightarrow> nat \<times> bool" where
  "call_effect hx name m deps natives =
     (case parse_module_ref hx name of
        Some (dep_addr, callee) \<Rightarrow>
          (case map_of deps dep_addr of
             None \<Rightarrow> (0, False)
           | Some dep \<Rightarrow>
               (case get_function dep callee of
                  None \<Rightarrow> (0, False)
                | Some func \<Rightarrow> (length (fn_params func), fn_return_type func \<noteq> None)))
      | None \<Rightarrow>
          (case List.find (\<lambda>s. ns_name s = name) natives of
             Some sig \<Rightarrow> (length (ns_params sig), ns_return_type sig \<noteq> None)
           | None \<Rightarrow>
               (case get_function m name of
                  Some func \<Rightarrow> (length (fn_params func), fn_return_type func \<noteq> None)
                | None \<Rightarrow> (0, False))))"

definition unpacked_tag :: "module \<Rightarrow> string \<Rightarrow> string list \<Rightarrow> string \<Rightarrow> struct_tag" where
  "unpacked_tag m type_name object_types fname =
     (case get_struct m type_name of
        None \<Rightarrow> TagOther
      | Some d \<Rightarrow>
          (case find_field fname (sd_fields d) of
             None \<Rightarrow> TagOther
           | Some f \<Rightarrow> type_tag (fd_ty f) object_types))"

text \<open>\<open>(pc as isize + offset as isize) as usize\<close>.\<close>

definition av_jump_target :: "nat \<Rightarrow> i32 \<Rightarrow> nat" where
  "av_jump_target pc offset = nat ((int pc + sint offset) mod 2 ^ 64)"

type_synonym pending = "nat \<rightharpoonup> verify_state"

definition enqueue :: "pending \<Rightarrow> nat \<Rightarrow> verify_state \<Rightarrow> pending" where
  "enqueue p target st =
     p(target \<mapsto> (case p target of Some existing \<Rightarrow> merge_from existing st | None \<Rightarrow> st))"

section \<open>The pass over a body\<close>

record av_env =
  av_function :: string
  av_module :: module
  av_deps :: module_map
  av_natives :: "native_sig list"
  av_object_types :: "string list"

definition id_not_fresh :: "av_env \<Rightarrow> nat \<Rightarrow> string \<Rightarrow> nat \<Rightarrow> verify_state \<Rightarrow> bytecode_verifier_error list" where
  "id_not_fresh env pc type_name n st =
     (if type_name \<in> set (av_object_types env) \<and> n > 0 \<and>
         map_option sl_fresh (nth_opt (vs_stack st) (length (vs_stack st) - n)) \<noteq> Some FreshId
      then [ObjectIdNotFresh (av_function env) pc type_name] else [])"

definition transfer_errors :: "av_env \<Rightarrow> nat \<Rightarrow> string \<Rightarrow> nat \<Rightarrow> verify_state \<Rightarrow> bytecode_verifier_error list" where
  "transfer_errors env pc name n_pops st =
     (if name = NATIVE_FN_TRANSFER
      then case map_option sl_tag (nth_opt (vs_stack st) (length (vs_stack st) - n_pops)) of
             Some (TagNonObject struct_name) \<Rightarrow>
               [TransferNonObjectStruct (av_function env) pc struct_name]
           | _ \<Rightarrow> []
      else [])"

definition unpack_tuple_slots :: "nat \<Rightarrow> slot \<Rightarrow> slot list" where
  "unpack_tuple_slots n s =
     (case sl_tuple s of
        Some elems \<Rightarrow>
          if length elems = n then map (slot_scalar FreshOther) (rev elems)
          else replicate n slot_other
      | None \<Rightarrow> replicate n slot_other)"

primrec av_instr ::
    "hex_codec \<Rightarrow> av_env \<Rightarrow> nat \<Rightarrow> pending \<Rightarrow> verify_state \<Rightarrow> instruction
       \<Rightarrow> bytecode_verifier_error list \<times> pending \<times> verify_state" where
  "av_instr hx env pc p st (PushBool b) = ([], p, push_other st)"
| "av_instr hx env pc p st (PushU64 n) = ([], p, push_other st)"
| "av_instr hx env pc p st (PushAddress a) = ([], p, push_other st)"
| "av_instr hx env pc p st (PushStr s) = ([], p, push_other st)"
| "av_instr hx env pc p st (Load s) =
     ([], p, vs_push (case nth_opt (vs_locals st) (unat s) of Some l \<Rightarrow> l | None \<Rightarrow> slot_other) st)"
| "av_instr hx env pc p st (Store s) =
     (let (v, st) = vs_pop st in
      ([], p, st\<lparr>vs_locals := (vs_locals st)[unat s := v]\<rparr>))"
| "av_instr hx env pc p st (LoadField s path) = ([], p, push_other (vs_drop 1 st))"
| "av_instr hx env pc p st (StoreField s path) = ([], p, vs_drop 1 st)"
| "av_instr hx env pc p st Add = ([], p, push_other (vs_drop 2 st))"
| "av_instr hx env pc p st Sub = ([], p, push_other (vs_drop 2 st))"
| "av_instr hx env pc p st Mul = ([], p, push_other (vs_drop 2 st))"
| "av_instr hx env pc p st Div = ([], p, push_other (vs_drop 2 st))"
| "av_instr hx env pc p st Mod = ([], p, push_other (vs_drop 2 st))"
| "av_instr hx env pc p st Eq = ([], p, push_other (vs_drop 2 st))"
| "av_instr hx env pc p st Ne = ([], p, push_other (vs_drop 2 st))"
| "av_instr hx env pc p st Lt = ([], p, push_other (vs_drop 2 st))"
| "av_instr hx env pc p st Le = ([], p, push_other (vs_drop 2 st))"
| "av_instr hx env pc p st Gt = ([], p, push_other (vs_drop 2 st))"
| "av_instr hx env pc p st Ge = ([], p, push_other (vs_drop 2 st))"
| "av_instr hx env pc p st And = ([], p, push_other (vs_drop 2 st))"
| "av_instr hx env pc p st Or = ([], p, push_other (vs_drop 2 st))"
| "av_instr hx env pc p st NotB = ([], p, push_other (vs_drop 1 st))"
| "av_instr hx env pc p st (NewStruct type_name field_names) =
     (let n = length field_names in
      (id_not_fresh env pc type_name n st, p,
       vs_push (slot_scalar FreshOther (local_struct_tag type_name (av_object_types env))) (vs_drop n st)))"
| "av_instr hx env pc p st (GetField f) = ([], p, push_other (vs_drop 1 st))"
| "av_instr hx env pc p st (UnpackStruct type_name field_names) =
     ([], p, fold (\<lambda>fname. vs_push (slot_scalar FreshOther
                (unpacked_tag (av_module env) type_name (av_object_types env) fname)))
              field_names (vs_drop 1 st))"
| "av_instr hx env pc p st Pop = ([], p, vs_drop 1 st)"
| "av_instr hx env pc p st Dup =
     ([], p, vs_push (if vs_stack st = [] then slot_other else last (vs_stack st)) st)"
| "av_instr hx env pc p st (Jump offset) =
     ([], enqueue p (av_jump_target pc offset) st, st\<lparr>vs_reachable := False\<rparr>)"
| "av_instr hx env pc p st (JumpIf offset) =
     (let st = vs_drop 1 st in ([], enqueue p (av_jump_target pc offset) st, st))"
| "av_instr hx env pc p st (JumpIfNot offset) =
     (let st = vs_drop 1 st in ([], enqueue p (av_jump_target pc offset) st, st))"
| "av_instr hx env pc p st Return = ([], p, (vs_drop 1 st)\<lparr>vs_reachable := False\<rparr>)"
| "av_instr hx env pc p st (Call name) =
     (let (n_pops, has_return) = call_effect hx name (av_module env) (av_deps env) (av_natives env);
          st' = vs_drop n_pops st
      in (transfer_errors env pc name n_pops st, p,
          if has_return
          then vs_push (return_slot name (av_module env) (av_object_types env)
                 (if name = NATIVE_FN_FRESH_ID then FreshId else FreshOther)) st'
          else st'))"
| "av_instr hx env pc p st (MakeTuple n) =
     (let (elems, st) = vs_pops (unat n) st in
      ([], p, vs_push \<lparr>sl_fresh = FreshOther, sl_tag = TagOther,
                      sl_tuple = Some (rev (map sl_tag elems))\<rparr> st))"
| "av_instr hx env pc p st (UnpackTuple n) =
     (let (s, st) = vs_pop st in
      ([], p, fold vs_push (unpack_tuple_slots (unat n) s) st))"

fun av_body ::
    "hex_codec \<Rightarrow> av_env \<Rightarrow> nat \<Rightarrow> pending \<Rightarrow> verify_state \<Rightarrow> instruction list
       \<Rightarrow> bytecode_verifier_error list" where
  "av_body hx env pc p st [] = []"
| "av_body hx env pc p st (instr # code) =
     (let (p, st) =
        (case p pc of
           Some incoming \<Rightarrow>
             (p(pc := None), if vs_reachable st then merge_from st incoming else incoming)
         | None \<Rightarrow> (p, st))
      in
        if \<not> vs_reachable st then av_body hx env (Suc pc) p st code
        else let (errs, p, st) = av_instr hx env pc p st instr
             in errs @ av_body hx env (Suc pc) p st code)"

text \<open>The initial state: the slots of struct parameters carry their tag.\<close>

definition av_initial :: "fn \<Rightarrow> string list \<Rightarrow> verify_state" where
  "av_initial func object_types =
     (let st = verify_state_new (unat (fn_local_count func)) in
      st\<lparr>vs_locals :=
           fold (\<lambda>(i, (_, t)) ls.
                  case t of
                    TStruct name \<Rightarrow>
                      if i < length ls
                      then ls[i := (ls ! i)\<lparr>sl_tag := local_struct_tag name object_types\<rparr>] else ls
                  | _ \<Rightarrow> ls)
                (List.enumerate 0 (fn_params func)) (vs_locals st)\<rparr>)"

definition check_function_body ::
    "hex_codec \<Rightarrow> fn \<Rightarrow> module \<Rightarrow> module_map \<Rightarrow> native_sig list \<Rightarrow> string list
       \<Rightarrow> bytecode_verifier_error list" where
  "check_function_body hx func m deps natives object_types =
     av_body hx
       \<lparr>av_function = fn_name func, av_module = m, av_deps = deps, av_natives = natives,
        av_object_types = object_types\<rparr>
       0 Map.empty (av_initial func object_types) (fn_code func)"

definition object_types_of :: "module \<Rightarrow> string list" where
  "object_types_of m =
     map sd_name (filter (\<lambda>s. is_object_def s (TStruct MEOW_OBJECT_ID_BYTECODE_TYPE_NAME)) (md_structs m))"

definition adapter_verify ::
    "hex_codec \<Rightarrow> module \<Rightarrow> module_map \<Rightarrow> native_sig list \<Rightarrow> bytecode_verifier_error list + unit" where
  "adapter_verify hx m deps adapter_natives =
     (let object_types = object_types_of m;
          all_natives = builtin_natives @ adapter_natives;
          errors =
            check_object_layouts hx m deps (TStruct MEOW_OBJECT_ID_BYTECODE_TYPE_NAME) object_types @
            concat (map (\<lambda>func. check_function_body hx func m deps all_natives object_types)
                        (md_functions m))
      in if errors = [] then Ok () else Err errors)"

end
