(* ===== verification/Inputs_Resolver.thy ===== *)
theory Inputs_Resolver
  imports Object_Model
begin

text \<open>
  The objects a transaction needs: \<open>meow-vm-adapter/src/inputs_resolver.rs\<close>.  A fetch is a function
  of the address; awaiting it changes nothing else.
\<close>

type_synonym fetch = "address \<rightharpoonup> object"

text \<open>There are finitely many addresses: the number of those not yet seen bounds every traversal.\<close>

definition unseen :: "address set \<Rightarrow> nat" where
  "unseen S = card (UNIV - S)"

lemma unseen_insert: "a \<notin> S \<Longrightarrow> unseen (insert a S) < unseen S"
  unfolding unseen_def by (rule psubset_card_mono) (auto simp: finite_addresses)

lemma unseen_mono: "S \<subseteq> T \<Longrightarrow> unseen T \<le> unseen S"
  unfolding unseen_def by (rule card_mono) (auto simp: finite_addresses)

definition module_imports :: "chain_ext \<Rightarrow> object \<Rightarrow> address list" where
  "module_imports x ob =
     (case cx_module_de x (ob_content ob) of Inl _ \<Rightarrow> [] | Inr m \<Rightarrow> md_imports m)"

text \<open>The loop of \<open>collect_dep_modules\<close> over the imports of a module, with the recursive call.\<close>

function collect_deps ::
    "chain_ext \<Rightarrow> fetch \<Rightarrow> address list \<Rightarrow> object list \<Rightarrow> address set \<Rightarrow> object list \<times> address set" where
  "collect_deps x get [] inputs seen = (inputs, seen)"
| "collect_deps x get (a # ims) inputs seen =
     (if a \<in> seen then collect_deps x get ims inputs seen
      else case get a of
        None \<Rightarrow> collect_deps x get ims inputs (insert a seen)
      | Some dep_obj \<Rightarrow>
          (case collect_deps x get (module_imports x dep_obj) inputs (insert a seen) of
             (inputs', seen') \<Rightarrow> collect_deps x get ims (inputs' @ [dep_obj]) seen'))"
  by pat_completeness auto
termination
proof -
  let ?R = "inv_image (less_than <*lex*> less_than)
    (\<lambda>(x :: chain_ext, get :: fetch, ims :: address list, inputs :: object list, seen :: address set).
       (unseen seen, length ims))"
  have grows: "collect_deps_dom (x, get, ims, inputs, seen) \<Longrightarrow>
      seen \<subseteq> snd (collect_deps x get ims inputs seen)" for x get ims inputs seen
  proof (induction x get ims inputs seen rule: collect_deps.pinduct)
    case (2 x get a ims inputs seen)
    show ?case
    proof (cases "a \<in> seen")
      case True
      with 2 show ?thesis by (simp add: collect_deps.psimps)
    next
      case new: False
      show ?thesis
      proof (cases "get a")
        case None
        with 2 new show ?thesis by (simp add: collect_deps.psimps)
      next
        case (Some d)
        obtain i s where eq: "collect_deps x get (module_imports x d) inputs (insert a seen) = (i, s)"
          by (cases "collect_deps x get (module_imports x d) inputs (insert a seen)")
        have "seen \<subseteq> s" using 2(4) [OF new Some] eq by auto
        also have "s \<subseteq> snd (collect_deps x get ims (i @ [d]) s)"
          using 2(5) [OF new Some eq [symmetric]] .
        finally have "seen \<subseteq> snd (collect_deps x get ims (i @ [d]) s)" .
        then show ?thesis using 2(1) new Some eq by (simp add: collect_deps.psimps)
      qed
    qed
  next
    case (1 x get inputs seen)
    then show ?case by (simp add: collect_deps.psimps)
  qed
  show ?thesis
  proof (relation ?R)
    fix x get a ims inputs seen dep_obj inputs' seen'
    assume a: "a \<notin> seen" and "get a = Some dep_obj"
      and eq: "(inputs', seen') = collect_deps x get (module_imports x dep_obj) inputs (insert a seen)"
      and dom: "collect_deps_dom (x, get, module_imports x dep_obj, inputs, insert a seen)"
    have "insert a seen \<subseteq> seen'" using grows [OF dom] eq by (metis snd_conv)
    then have "unseen seen' < unseen seen"
      using unseen_mono [of "insert a seen" seen'] unseen_insert [OF a] by linarith
    then show "((x, get, ims, inputs' @ [dep_obj], seen'), x, get, a # ims, inputs, seen) \<in> ?R"
      by simp
  qed (auto simp: unseen_insert)
qed

definition collect_dep_modules ::
    "chain_ext \<Rightarrow> object \<Rightarrow> fetch \<Rightarrow> object list \<Rightarrow> address set \<Rightarrow> object list \<times> address set" where
  "collect_dep_modules x root_obj get inputs seen =
     collect_deps x get (module_imports x root_obj) inputs seen"

definition fetched :: "fetch \<Rightarrow> address \<Rightarrow> object list" where
  "fetched get a = (case get a of Some ob \<Rightarrow> [ob] | None \<Rightarrow> [])"

definition fetched_args :: "fetch \<Rightarrow> input list \<Rightarrow> object list" where
  "fetched_args get args =
     concat (map (\<lambda>arg. case arg of InObject r \<Rightarrow> fetched get (or_address r) | InRaw _ \<Rightarrow> []) args)"

text \<open>
  The loop over the imports of a module to be published is the loop of \<open>collect_dep_modules\<close>, from an
  empty \<open>seen\<close> set.
\<close>

definition collect_inputs :: "chain_ext \<Rightarrow> transaction \<Rightarrow> fetch \<Rightarrow> object list" where
  "collect_inputs x tx get =
     (let inputs = fetched get (or_address (tx_gas_coin tx)) in
      case tx_type tx of
        MeowCall c \<Rightarrow>
          (case get (ca_module c) of
             None \<Rightarrow> inputs
           | Some module_obj \<Rightarrow>
               fst (collect_dep_modules x module_obj get inputs {ca_module c}) @ [module_obj]) @
          fetched_args get (ca_arguments c)
      | MeowModulePublish module_bytes \<Rightarrow>
          (case cx_module_de x module_bytes of
             Inl _ \<Rightarrow> inputs
           | Inr m \<Rightarrow> fst (collect_deps x get (md_imports m) inputs {})))"

section \<open>Prefetching\<close>

text \<open>The breadth-first fetch; the queue is a stack, as \<open>Vec::pop\<close> makes it.\<close>

function bfs_fetch_modules ::
    "chain_ext \<Rightarrow> fetch \<Rightarrow> address list \<Rightarrow> address set \<Rightarrow> fetch \<Rightarrow> fetch" where
  "bfs_fetch_modules x get queue seen cache =
     (if queue = [] then cache
      else
        let a = last queue; queue = butlast queue in
        if a \<in> seen then bfs_fetch_modules x get queue seen cache
        else case get a of
          None \<Rightarrow> bfs_fetch_modules x get queue (insert a seen) cache
        | Some ob \<Rightarrow>
            bfs_fetch_modules x get (queue @ module_imports x ob) (insert a seen) (cache(a \<mapsto> ob)))"
  by pat_completeness auto
termination
  by (relation "inv_image (less_than <*lex*> less_than)
        (\<lambda>(x :: chain_ext, get :: fetch, queue :: address list, seen :: address set, cache :: fetch).
           (unseen seen, length queue))")
    (auto simp: unseen_insert)

declare bfs_fetch_modules.simps [simp del]

definition cache_object :: "fetch \<Rightarrow> address \<Rightarrow> fetch \<Rightarrow> fetch" where
  "cache_object get a cache = (case get a of Some ob \<Rightarrow> cache(a \<mapsto> ob) | None \<Rightarrow> cache)"

fun cache_args :: "fetch \<Rightarrow> input list \<Rightarrow> fetch \<Rightarrow> fetch" where
  "cache_args get [] cache = cache"
| "cache_args get (InObject r # args) cache = cache_args get args (cache_object get (or_address r) cache)"
| "cache_args get (InRaw _ # args) cache = cache_args get args cache"

definition collect_inputs_async :: "chain_ext \<Rightarrow> transaction \<Rightarrow> fetch \<Rightarrow> object list" where
  "collect_inputs_async x tx get =
     (let cache = cache_object get (or_address (tx_gas_coin tx)) Map.empty;
          cache =
            (case tx_type tx of
               MeowCall c \<Rightarrow> cache_args get (ca_arguments c) (bfs_fetch_modules x get [ca_module c] {} cache)
             | MeowModulePublish module_bytes \<Rightarrow>
                 (case cx_module_de x module_bytes of
                    Inl _ \<Rightarrow> cache
                  | Inr m \<Rightarrow> bfs_fetch_modules x get (md_imports m) {} cache))
      in collect_inputs x tx cache)"

function load_deps_async ::
    "(address \<rightharpoonup> module) \<Rightarrow> address list \<Rightarrow> module_map \<Rightarrow> module_map" where
  "load_deps_async get queue loaded =
     (if queue = [] then loaded
      else
        let a = last queue; queue = butlast queue in
        if map_of loaded a \<noteq> None then load_deps_async get queue loaded
        else case get a of
          None \<Rightarrow> load_deps_async get queue loaded
        | Some m \<Rightarrow>
            load_deps_async get (queue @ filter (\<lambda>i. map_of loaded i = None) (md_imports m))
              ((a, m) # loaded))"
  by pat_completeness auto
termination
  by (relation "inv_image (less_than <*lex*> less_than)
        (\<lambda>(get :: address \<rightharpoonup> module, queue :: address list, loaded :: module_map).
           (unseen (fst ` set loaded), length queue))")
    (auto simp: unseen_insert map_of_eq_None_iff)

declare load_deps_async.simps [simp del]

section \<open>Prefetching changes nothing\<close>

definition partial_copy :: "fetch \<Rightarrow> fetch \<Rightarrow> bool" where
  "partial_copy get cache \<longleftrightarrow> (\<forall>a. cache a = None \<or> cache a = get a)"

definition closed_copy :: "chain_ext \<Rightarrow> fetch \<Rightarrow> fetch \<Rightarrow> address set \<Rightarrow> bool" where
  "closed_copy x get cache S \<longleftrightarrow>
     (\<forall>a \<in> S. cache a = get a \<and> (\<forall>ob. get a = Some ob \<longrightarrow> set (module_imports x ob) \<subseteq> S))"

lemma partial_copy_update [simp]:
  "partial_copy get cache \<Longrightarrow> get a = Some ob \<Longrightarrow> partial_copy get (cache(a \<mapsto> ob))"
  by (auto simp: partial_copy_def)

lemma partial_copy_None: "partial_copy get cache \<Longrightarrow> get a = None \<Longrightarrow> cache a = None"
  unfolding partial_copy_def by metis

text \<open>The states of the fetch: what was seen is copied, and its imports were seen or are queued.\<close>

definition bfs_inv :: "chain_ext \<Rightarrow> fetch \<Rightarrow> address list \<Rightarrow> address set \<Rightarrow> fetch \<Rightarrow> bool" where
  "bfs_inv x get queue seen cache \<longleftrightarrow>
     partial_copy get cache \<and>
     (\<forall>a \<in> seen. cache a = get a \<and>
        (\<forall>ob. get a = Some ob \<longrightarrow> set (module_imports x ob) \<subseteq> seen \<union> set queue))"

lemma set_queue: "queue \<noteq> [] \<Longrightarrow> set queue = insert (last queue) (set (butlast queue))"
  by (cases queue rule: rev_cases) simp_all

lemma bfs_inv_seen:
  assumes "bfs_inv x get queue seen cache" "queue \<noteq> []" "last queue \<in> seen"
  shows "bfs_inv x get (butlast queue) seen cache"
  using assms set_queue [OF assms(2)] unfolding bfs_inv_def by auto

lemma bfs_inv_missing:
  assumes "bfs_inv x get queue seen cache" "queue \<noteq> []" "get (last queue) = None"
  shows "bfs_inv x get (butlast queue) (insert (last queue) seen) cache"
  using assms set_queue [OF assms(2)] partial_copy_None [of get cache "last queue"]
  unfolding bfs_inv_def by auto

lemma bfs_inv_found:
  assumes "bfs_inv x get queue seen cache" "queue \<noteq> []" "get (last queue) = Some ob"
  shows "bfs_inv x get (butlast queue @ module_imports x ob) (insert (last queue) seen)
           (cache(last queue \<mapsto> ob))"
  using assms set_queue [OF assms(2)] unfolding bfs_inv_def by auto

lemma bfs_fetch_modules_Nil [simp]: "bfs_fetch_modules x get [] seen cache = cache"
  by (simp add: bfs_fetch_modules.simps)

definition bfs_result :: "chain_ext \<Rightarrow> fetch \<Rightarrow> address set \<Rightarrow> fetch \<Rightarrow> fetch \<Rightarrow> bool" where
  "bfs_result x get goals cache r \<longleftrightarrow>
     partial_copy get r \<and> (\<exists>S. goals \<subseteq> S \<and> closed_copy x get r S) \<and>
     (\<forall>a. cache a = get a \<longrightarrow> r a = get a)"

lemma bfs_result_mono:
  "bfs_result x get goals cache r \<Longrightarrow> goals' \<subseteq> goals \<Longrightarrow>
     (\<And>a. cache' a = get a \<Longrightarrow> cache a = get a) \<Longrightarrow> bfs_result x get goals' cache' r"
  unfolding bfs_result_def by (meson subset_trans)

lemma bfs_fetch_modules_closed:
  "bfs_inv x get queue seen cache \<Longrightarrow>
     bfs_result x get (seen \<union> set queue) cache (bfs_fetch_modules x get queue seen cache)"
proof (induction x get queue seen cache rule: bfs_fetch_modules.induct)
  case (1 x get queue seen cache)
  note inv = 1(4)
  show ?case
  proof (cases "queue = []")
    case True
    then have "closed_copy x get cache seen" "partial_copy get cache"
      using inv by (auto simp: bfs_inv_def closed_copy_def)
    then show ?thesis using True by (auto simp: bfs_result_def)
  next
    case q: False
    note set_q = set_queue [OF q] and unfold = bfs_fetch_modules.simps [of x get queue seen cache]
    show ?thesis
    proof (cases "last queue \<in> seen")
      case True
      have "bfs_result x get (seen \<union> set (butlast queue)) cache (bfs_fetch_modules x get (butlast queue) seen cache)"
        by (rule 1(1)) (use q True bfs_inv_seen [OF inv q True] in simp_all)
      then show ?thesis using q True set_q unfold by (auto simp: insert_absorb)
    next
      case new: False
      show ?thesis
      proof (cases "get (last queue)")
        case None
        have "bfs_result x get (insert (last queue) seen \<union> set (butlast queue)) cache
            (bfs_fetch_modules x get (butlast queue) (insert (last queue) seen) cache)"
          by (rule 1(2)) (use q new None bfs_inv_missing [OF inv q None] in simp_all)
        then show ?thesis using q new None set_q unfold by simp
      next
        case (Some ob)
        let ?q = "butlast queue @ module_imports x ob"
        have "bfs_result x get (insert (last queue) seen \<union> set ?q) (cache(last queue \<mapsto> ob))
            (bfs_fetch_modules x get ?q (insert (last queue) seen) (cache(last queue \<mapsto> ob)))"
          by (rule 1(3)) (use q new Some bfs_inv_found [OF inv q Some] in \<open>simp_all add: fun_upd_def\<close>)
        then have "bfs_result x get (seen \<union> set queue) cache
            (bfs_fetch_modules x get ?q (insert (last queue) seen) (cache(last queue \<mapsto> ob)))"
          by (rule bfs_result_mono) (use set_q Some in auto)
        then show ?thesis using q new Some unfold by (simp add: Let_def)
      qed
    qed
  qed
qed

lemma collect_deps_copy:
  "closed_copy x get cache S \<Longrightarrow> set ims \<subseteq> S \<Longrightarrow>
     collect_deps x cache ims inputs seen = collect_deps x get ims inputs seen"
proof (induction x get ims inputs seen rule: collect_deps.induct)
  case (2 x get a ims inputs seen)
  then have mem: "a \<in> S" and ims: "set ims \<subseteq> S" by auto
  then have a: "cache a = get a" and imps: "\<And>ob. get a = Some ob \<Longrightarrow> set (module_imports x ob) \<subseteq> S"
    using 2(5) unfolding closed_copy_def by blast+
  show ?case
  proof (cases "get a")
    case None
    with 2 a ims show ?thesis by simp
  next
    case (Some ob)
    with 2 a ims imps [OF Some] show ?thesis by (auto split: prod.splits)
  qed
qed simp

lemma cache_object_copy:
  assumes "partial_copy get cache"
  shows "partial_copy get (cache_object get a cache)" "cache_object get a cache a = get a"
    "cache b = get b \<Longrightarrow> cache_object get a cache b = get b"
  using assms partial_copy_None [OF assms, of a]
  by (auto simp: cache_object_def split: option.splits)

lemma cache_args_copy:
  "partial_copy get cache \<Longrightarrow>
     (\<forall>r. InObject r \<in> set args \<longrightarrow> cache_args get args cache (or_address r) = get (or_address r)) \<and>
     (\<forall>b. cache b = get b \<longrightarrow> cache_args get args cache b = get b)"
proof (induction args arbitrary: cache)
  case (Cons arg args)
  show ?case
  proof (cases arg)
    case (InObject r)
    from Cons.IH [OF cache_object_copy(1) [OF Cons.prems, of "or_address r"]] show ?thesis
      using cache_object_copy(2,3) [OF Cons.prems] by (auto simp: InObject)
  qed (use Cons in auto)
qed simp

lemma fetched_args_copy:
  "(\<forall>r. InObject r \<in> set args \<longrightarrow> cache (or_address r) = get (or_address r)) \<Longrightarrow>
     fetched_args cache args = fetched_args get args"
  by (induction args) (auto simp: fetched_args_def fetched_def split: input.splits)

text \<open>C18. Prefetching the inputs of a transaction breadth-first and then ordering them from the cache
  gives exactly the inputs, in the same order, that the direct traversal gives.\<close>

theorem collect_inputs_async_eq: "collect_inputs_async x tx get = collect_inputs x tx get"
proof -
  let ?gas = "or_address (tx_gas_coin tx)"
  let ?c0 = "cache_object get ?gas Map.empty"
  have c0: "partial_copy get ?c0" "?c0 ?gas = get ?gas"
    using cache_object_copy [of get Map.empty] by (simp_all add: partial_copy_def)
  have inv: "bfs_inv x get q {} ?c0" for q using c0(1) by (simp add: bfs_inv_def)
  show ?thesis
  proof (cases "tx_type tx")
    case (MeowCall c)
    let ?m = "ca_module c"
    let ?c1 = "bfs_fetch_modules x get [?m] {} ?c0"
    let ?c2 = "cache_args get (ca_arguments c) ?c1"
    obtain S where c1: "partial_copy get ?c1" "?m \<in> S" "closed_copy x get ?c1 S" "?c1 ?gas = get ?gas"
      using bfs_fetch_modules_closed [OF inv [of "[?m]"]] c0(2) by (auto simp: bfs_result_def)
    note c2 = cache_args_copy [OF c1(1), of "ca_arguments c"]
    have closed: "closed_copy x get ?c2 S" using c1(3) c2 by (simp add: closed_copy_def)
    then have m: "?c2 ?m = get ?m" using c1(2) by (simp add: closed_copy_def)
    have deps: "collect_dep_modules x ob ?c2 inputs seen = collect_dep_modules x ob get inputs seen"
      if "get ?m = Some ob" for ob inputs seen
      unfolding collect_dep_modules_def
      using collect_deps_copy [OF closed] closed c1(2) that by (auto simp: closed_copy_def)
    have "fetched ?c2 ?gas = fetched get ?gas" using c2 c1(4) by (simp add: fetched_def)
    moreover have "fetched_args ?c2 (ca_arguments c) = fetched_args get (ca_arguments c)"
      using c2 by (intro fetched_args_copy) blast
    ultimately show ?thesis
      by (cases "get ?m") (simp_all add: collect_inputs_async_def collect_inputs_def MeowCall m deps)
  next
    case (MeowModulePublish bs)
    show ?thesis
    proof (cases "cx_module_de x bs")
      case (Inl e)
      then show ?thesis
        using c0(2) by (simp add: collect_inputs_async_def collect_inputs_def MeowModulePublish fetched_def)
    next
      case (Inr m)
      let ?c1 = "bfs_fetch_modules x get (md_imports m) {} ?c0"
      obtain S where c1: "set (md_imports m) \<subseteq> S" "closed_copy x get ?c1 S" "?c1 ?gas = get ?gas"
        using bfs_fetch_modules_closed [OF inv [of "md_imports m"]] c0(2) by (auto simp: bfs_result_def)
      then show ?thesis
        using collect_deps_copy [OF c1(2,1)] Inr
        by (simp add: collect_inputs_async_def collect_inputs_def MeowModulePublish fetched_def)
    qed
  qed
qed

end
