(* ===== verification/Executor.thy ===== *)
theory Executor
  imports Adapter_Verifier Inputs_Resolver Verifier_AbsInt
begin

text \<open>
  The transaction executor: \<open>meow-vm-adapter/src/executor/\<close> (\<open>mod.rs\<close>, \<open>resolvers.rs\<close>,
  \<open>effects.rs\<close>, \<open>gas.rs\<close>, \<open>versioning.rs\<close>).  Its result is \<open>None\<close> when the fuel of the VM call is
  used up; \<open>Panicked\<close> is a failed \<open>expect\<close> or \<open>assert!\<close>.
\<close>

section \<open>Errors and versions\<close>

datatype executor_error =
    GasCoinNotFound
  | InvalidGasCoin
  | InvalidGasCoinOwner
  | InvalidObjectDigest address digest digest
  | InvalidObjectVersion address object_version object_version
  | ObjectAtMaxVersion address
  | ModulePublishNotAllowed

primrec object_conversion_error_display :: "object_conversion_error \<Rightarrow> string" where
  "object_conversion_error_display InvalidObjectType = ''invalid object type''"
| "object_conversion_error_display InvalidVMValueType = ''invalid VM value type''"
| "object_conversion_error_display InvalidTypeName =
     ''type name is not a qualified address::name reference''"
| "object_conversion_error_display MissingIdField = ''object struct is missing the required id field''"
| "object_conversion_error_display (InvalidContent e) = ''object content is not valid BCS: '' @ e"
| "object_conversion_error_display (InvalidIdentifierC e) =
     ''VM type name is not a valid identifier: '' @ e"

definition bump_version :: "object \<Rightarrow> 'e fault + object_version" where
  "bump_version ob =
     (case version_next (ob_version ob) of
        None \<Rightarrow> Err (Panicked ''version must increment; object version should never be MAX'')
      | Some v \<Rightarrow> Ok v)"

section \<open>Resolvers\<close>

definition find_object :: "object list \<Rightarrow> address \<Rightarrow> object option" where
  "find_object inputs a = List.find (\<lambda>ob. ob_address ob = a) inputs"

definition show_version :: "object_version \<Rightarrow> string" where
  "show_version v = show_nat (unat v)"

definition resolve_object_arg ::
    "chain_ext \<Rightarrow> object_ref \<Rightarrow> address \<Rightarrow> object list \<Rightarrow> string fault + val" where
  "resolve_object_arg x r sender inputs =
     (case find_object inputs (or_address r) of
        None \<Rightarrow> Err (Fail (''input object '' @ address_display (cx_hex x) (or_address r) @ '' not found''))
      | Some ob \<Rightarrow>
          let a = address_display (cx_hex x) (ob_address ob) in
          if ob_type ob = ModuleTy
          then Err (Fail (''object '' @ a @ '' is a module and cannot be used as a call argument''))
          else if owner_address (ob_owner ob) \<noteq> Some sender
          then Err (Fail (''object '' @ a @ '' is not owned by the sender''))
          else if ob_version ob = VERSION_MAX
          then Err (Fail (''object '' @ a @
                 '' is at the maximum version and cannot be used as a call argument''))
          else if ob_version ob \<noteq> or_version r
          then Err (Fail (''object '' @ a @ '' has invalid version: expected '' @
                 show_version (or_version r) @ '', found '' @ show_version (ob_version ob)))
          else if object_digest x ob \<noteq> or_digest r
          then Err (Fail (''object '' @ a @ '' has invalid digest: expected '' @
                 digest_display x (or_digest r) @ '', found '' @ digest_display x (object_digest x ob)))
          else
            (case object_to_vm_object_value x ob of
               Inl (Fail e) \<Rightarrow> Err (Fail (object_conversion_error_display e))
             | Inl (Panicked m) \<Rightarrow> Err (Panicked m)
             | Inr v \<Rightarrow> Ok v))"

definition decode_raw :: "string \<Rightarrow> ('a \<Rightarrow> val) \<Rightarrow> string + 'a \<Rightarrow> string fault + val" where
  "decode_raw what mk r =
     (case r of Inl e \<Rightarrow> Err (Fail (what @ '' deserialization: '' @ e)) | Inr v \<Rightarrow> Ok (mk v))"

definition resolve_raw_arg :: "chain_ext \<Rightarrow> bytes \<Rightarrow> vtype \<Rightarrow> string fault + val" where
  "resolve_raw_arg x bs expected_type =
     (case expected_type of
        TU64 \<Rightarrow> decode_raw ''u64'' VU64 (cx_u64_de x bs)
      | TBool \<Rightarrow> decode_raw ''bool'' VBool (cx_bool_de x bs)
      | TAddress \<Rightarrow> decode_raw ''address'' VAddress (cx_address_de x bs)
      | TStr \<Rightarrow> decode_raw ''string'' VStr (cx_string_de x bs)
      | other \<Rightarrow>
          Err (Fail (''Raw input cannot be resolved to type '' @ quoted (vtype_name other))))"

definition resolve_arg ::
    "chain_ext \<Rightarrow> input \<Rightarrow> vtype \<Rightarrow> address \<Rightarrow> object list \<Rightarrow> string fault + val" where
  "resolve_arg x inp expected_type sender inputs =
     (case inp of
        InObject r \<Rightarrow> resolve_object_arg x r sender inputs
      | InRaw bs \<Rightarrow> resolve_raw_arg x bs expected_type)"

text \<open>The loop of \<open>resolve_args\<close> at index \<open>i\<close>; the objects found by the arguments are collected.\<close>

fun resolve_args_from ::
    "chain_ext \<Rightarrow> nat \<Rightarrow> (input \<times> string \<times> vtype) list \<Rightarrow> address \<Rightarrow> object list
       \<Rightarrow> string fault + val list \<times> object list" where
  "resolve_args_from x i [] sender inputs = Ok ([], [])"
| "resolve_args_from x i ((inp, _, t) # args) sender inputs =
     (case resolve_arg x inp t sender inputs of
        Inl (Fail e) \<Rightarrow> Err (Fail (''argument '' @ show_nat i @ '': '' @ e))
      | Inl (Panicked m) \<Rightarrow> Err (Panicked m)
      | Inr v \<Rightarrow>
          and_then (resolve_args_from x (Suc i) args sender inputs) (\<lambda>(vs, obs).
            Ok (v # vs,
                (case inp of
                   InObject r \<Rightarrow>
                     (case find_object inputs (or_address r) of Some ob \<Rightarrow> [ob] | None \<Rightarrow> [])
                 | InRaw _ \<Rightarrow> []) @ obs)))"

definition resolve_args ::
    "chain_ext \<Rightarrow> call \<Rightarrow> fn \<Rightarrow> address \<Rightarrow> object list \<Rightarrow> string fault + val list \<times> object list" where
  "resolve_args x c func sender inputs =
     (if length (ca_arguments c) \<noteq> length (fn_params func)
      then Err (Fail (''argument count mismatch: expected '' @ show_nat (length (fn_params func)) @
             '', got '' @ show_nat (length (ca_arguments c))))
      else resolve_args_from x 0 (zip (ca_arguments c) (fn_params func)) sender inputs)"

definition resolve_gas_coin_object ::
    "chain_ext \<Rightarrow> object_ref \<Rightarrow> address \<Rightarrow> object list \<Rightarrow> executor_error + object" where
  "resolve_gas_coin_object x r sender inputs =
     (case find_object inputs (or_address r) of
        None \<Rightarrow> Err GasCoinNotFound
      | Some coin \<Rightarrow>
          if \<not> is_meow_coin_object coin then Err InvalidGasCoin
          else if owner_address (ob_owner coin) \<noteq> Some sender then Err InvalidGasCoinOwner
          else if ob_version coin = VERSION_MAX then Err (ObjectAtMaxVersion (or_address r))
          else if ob_version coin \<noteq> or_version r
          then Err (InvalidObjectVersion (or_address r) (or_version r) (ob_version coin))
          else if object_digest x coin \<noteq> or_digest r
          then Err (InvalidObjectDigest (or_address r) (or_digest r) (object_digest x coin))
          else Ok coin)"

definition resolve_module :: "chain_ext \<Rightarrow> object list \<Rightarrow> address \<Rightarrow> string + module" where
  "resolve_module x inputs module_address =
     (case List.find (\<lambda>ob. ob_type ob = ModuleTy \<and> ob_address ob = module_address) inputs of
        None \<Rightarrow>
          Err (''module object at address '' @ address_display (cx_hex x) module_address @
               '' not found in inputs'')
      | Some ob \<Rightarrow>
          (case cx_module_de x (ob_content ob) of
             Inl e \<Rightarrow>
               Err (''failed to deserialize module at '' @ address_display (cx_hex x) module_address @
                    '': '' @ e)
           | Inr m \<Rightarrow> Ok m))"

definition module_index :: "object list \<Rightarrow> address \<rightharpoonup> object" where
  "module_index inputs =
     map_of (rev (map (\<lambda>ob. (ob_address ob, ob)) (filter (\<lambda>ob. ob_type ob = ModuleTy) inputs)))"

text \<open>The loop of \<open>resolve_dep_modules\<close>.\<close>

function resolve_deps ::
    "chain_ext \<Rightarrow> (address \<rightharpoonup> object) \<Rightarrow> address list \<Rightarrow> module_map \<Rightarrow> string + module_map" where
  "resolve_deps x index queue deps =
     (if queue = [] then Ok deps
      else
        let a = last queue; queue = butlast queue in
        if map_of deps a \<noteq> None then resolve_deps x index queue deps
        else case index a of
          None \<Rightarrow> Err (''missing dependency module at address '' @ address_display (cx_hex x) a)
        | Some dep_obj \<Rightarrow>
            (case cx_module_de x (ob_content dep_obj) of
               Inl e \<Rightarrow>
                 Err (''failed to deserialize dependency module at '' @
                      address_display (cx_hex x) a @ '': '' @ e)
             | Inr dep \<Rightarrow>
                 resolve_deps x index
                   (queue @ filter (\<lambda>i. map_of deps i = None) (md_imports dep)) ((a, dep) # deps)))"
  by pat_completeness auto
termination
  by (relation "inv_image (less_than <*lex*> less_than)
        (\<lambda>(x :: chain_ext, index :: address \<rightharpoonup> object, queue :: address list, deps :: module_map).
           (unseen (fst ` set deps), length queue))")
    (auto simp: unseen_insert map_of_eq_None_iff)

declare resolve_deps.simps [simp del]

definition resolve_dep_modules :: "chain_ext \<Rightarrow> object list \<Rightarrow> address list \<Rightarrow> string + module_map" where
  "resolve_dep_modules x inputs ims = resolve_deps x (module_index inputs) ims []"

section \<open>Effects\<close>

type_synonym object_effects = "object list \<times> object list \<times> object list"

text \<open>The assertions on the object arguments, in order.\<close>

fun assert_object_args :: "object list \<Rightarrow> string fault + unit" where
  "assert_object_args [] = Ok ()"
| "assert_object_args (ob # obs) =
     (if \<not> is_address_owned (ob_owner ob)
      then Err (Panicked ''only address-owned objects can be used as call arguments'')
      else if ob_type ob = ModuleTy
      then Err (Panicked ''module objects cannot be used as call arguments'')
      else if ob_version ob = VERSION_MAX
      then Err (Panicked ''objects at max version cannot be used as call arguments'')
      else assert_object_args obs)"

definition input_by_addr :: "object list \<Rightarrow> address \<rightharpoonup> object" where
  "input_by_addr obj_args = map_of (rev (map (\<lambda>ob. (ob_address ob, ob)) obj_args))"

definition lookup_input :: "(address \<rightharpoonup> object) \<Rightarrow> address \<Rightarrow> string \<Rightarrow> string fault + object" where
  "lookup_input by_addr a msg = ok_or (by_addr a) (Panicked msg)"

text \<open>The version a transferred object gets: 1 when it is fresh, else the next of its input's.\<close>

definition output_version :: "address set \<Rightarrow> (address \<rightharpoonup> object) \<Rightarrow> address \<Rightarrow> string fault + object_version" where
  "output_version fresh_ids by_addr i =
     (if i \<in> fresh_ids then Ok VERSION_ONE
      else and_then (lookup_input by_addr i ''all transferred objects must be found in inputs'') bump_version)"

fun collect_transfers ::
    "chain_ext \<Rightarrow> address set \<Rightarrow> (address \<rightharpoonup> object) \<Rightarrow> digest \<Rightarrow> (val \<times> address) list
       \<Rightarrow> string fault + object list \<times> object list" where
  "collect_transfers x fresh_ids by_addr tx_digest [] = Ok ([], [])"
| "collect_transfers x fresh_ids by_addr tx_digest ((obj_val, owner) # ts) =
     and_then (ok_or (object_address x obj_val) (Panicked ''transferred object must have an address'')) (\<lambda>i.
     and_then (output_version fresh_ids by_addr i) (\<lambda>version.
       case vm_object_value_to_object x obj_val (OwnerAddress owner) tx_digest version of
         Inl (Panicked m) \<Rightarrow> Err (Panicked m)
       | Inl (Fail _) \<Rightarrow> Err (Panicked ''failed to convert VM object value to object'')
       | Inr ob \<Rightarrow>
           and_then (collect_transfers x fresh_ids by_addr tx_digest ts) (\<lambda>(created, changed).
             if i \<in> fresh_ids then Ok (ob # created, changed) else Ok (created, ob # changed))))"

fun collect_destroyed ::
    "address set \<Rightarrow> (address \<rightharpoonup> object) \<Rightarrow> digest \<Rightarrow> address list \<Rightarrow> string fault + object list" where
  "collect_destroyed fresh_ids by_addr tx_digest [] = Ok []"
| "collect_destroyed fresh_ids by_addr tx_digest (i # ids) =
     (if i \<in> fresh_ids then collect_destroyed fresh_ids by_addr tx_digest ids
      else
        and_then (lookup_input by_addr i ''destroyed object must be found in inputs'') (\<lambda>original.
        and_then (bump_version original) (\<lambda>version.
        and_then (collect_destroyed fresh_ids by_addr tx_digest ids) (\<lambda>obs.
          Ok (original\<lparr>ob_transaction := tx_digest, ob_version := version\<rparr> # obs)))))"

definition transferred_ids :: "chain_ext \<Rightarrow> exec_context \<Rightarrow> address set" where
  "transferred_ids x ctx =
     set (concat (map (\<lambda>(v, _). case object_address x v of Some a \<Rightarrow> [a] | None \<Rightarrow> []) (cn_transfers ctx)))"

definition collect_object_effects ::
    "chain_ext \<Rightarrow> exec_context \<Rightarrow> object list \<Rightarrow> digest \<Rightarrow> string fault + object_effects" where
  "collect_object_effects x ctx obj_args tx_digest =
     (let by_addr = input_by_addr obj_args;
          consumed = (\<lambda>i. i \<in> transferred_ids x ctx \<or> i \<in> set (cn_destroyed ctx));
          fresh_ids = set (cn_fresh_ids ctx)
      in
        and_then (assert_object_args obj_args) (\<lambda>_.
          case List.find (\<lambda>i. \<not> consumed i) (cn_fresh_ids ctx) of
            Some i \<Rightarrow> Err (Fail (''created object not consumed: '' @ address_display (cx_hex x) i))
          | None \<Rightarrow>
              (case List.find (\<lambda>ob. \<not> consumed (ob_address ob)) obj_args of
                 Some ob \<Rightarrow>
                   Err (Fail (''input object not accounted for: '' @
                     address_display (cx_hex x) (ob_address ob)))
               | None \<Rightarrow>
                   and_then (collect_transfers x fresh_ids by_addr tx_digest (cn_transfers ctx))
                     (\<lambda>(created, changed).
                   and_then (collect_destroyed fresh_ids by_addr tx_digest (cn_destroyed ctx))
                     (\<lambda>destroyed. Ok (created, changed, destroyed))))))"

section \<open>Gas\<close>

definition apply_gas_spending ::
    "chain_ext \<Rightarrow> execution_result \<Rightarrow> object \<Rightarrow> u64 \<Rightarrow> digest \<Rightarrow> 'e fault + execution_result" where
  "apply_gas_spending x result gas_coin gas_spent tx_digest =
     and_then (ok_or (deduct_gas x gas_coin gas_spent) (Panicked ''gas coin content must be deductible''))
       (\<lambda>updated_content.
     and_then (bump_version gas_coin) (\<lambda>new_version.
       Ok (with_gas_used gas_spent
             (execution_result_new (er_status result) (er_transaction_digest result) (er_created result)
               (er_changed result @
                [gas_coin\<lparr>ob_transaction := tx_digest, ob_version := new_version,
                           ob_content := updated_content\<rparr>])
               (er_destroyed result)))))"

section \<open>Calls and publishing\<close>

definition GAS_PER_MODULE_BYTE :: u64 where "GAS_PER_MODULE_BYTE = 10"

definition BASE_TRANSACTION_GAS_COST :: u64 where "BASE_TRANSACTION_GAS_COST = 1000"

fun return_type_contains_struct :: "vtype \<Rightarrow> bool" where
  "return_type_contains_struct (TStruct _) \<longleftrightarrow> True"
| "return_type_contains_struct (TTuple types) \<longleftrightarrow> list_ex return_type_contains_struct types"
| "return_type_contains_struct _ \<longleftrightarrow> False"

text \<open>What follows the VM call: an error ends the transaction, else its effects are collected.\<close>

definition finish_call ::
    "chain_ext \<Rightarrow> digest \<Rightarrow> object list \<Rightarrow> exec_context outcome \<Rightarrow> (string fault + execution_result) \<times> gas_meter" where
  "finish_call x tx_digest obj_args r =
     (case r of (result, gas, ctx) \<Rightarrow>
        (case result of
           Inl (VmErr (Aborted code message)) \<Rightarrow> (Ok (execution_failure message tx_digest), gas)
         | Inl (VmErr e) \<Rightarrow> (Ok (execution_failure (vm_error_display e) tx_digest), gas)
         | Inl (Panic m) \<Rightarrow> (Err (Panicked m), gas)
         | Inr _ \<Rightarrow>
             (case collect_object_effects x ctx obj_args tx_digest of
                Inr (created, changed, destroyed) \<Rightarrow>
                  (Ok (execution_result_new Success tx_digest created changed destroyed), gas)
              | Inl (Fail e) \<Rightarrow> (Ok (execution_result_new (Failure e) tx_digest [] [] []), gas)
              | Inl (Panicked m) \<Rightarrow> (Err (Panicked m), gas))))"

definition execute_meow_call ::
    "nat \<Rightarrow> chain_ext \<Rightarrow> address \<Rightarrow> digest \<Rightarrow> call \<Rightarrow> object list \<Rightarrow> gas_meter \<Rightarrow> vm_config
       \<Rightarrow> external_context \<Rightarrow> ((string fault + execution_result) \<times> gas_meter) option" where
  "execute_meow_call k x sender tx_digest c inputs gas cfg ec =
     (let fail = (\<lambda>msg. Some (Ok (execution_failure msg tx_digest), gas));
          panic = (\<lambda>msg. Some (Err (Panicked msg), gas));
          name = ident_str (ca_function c)
      in
        case resolve_module x inputs (ca_module c) of
          Inl e \<Rightarrow> fail e
        | Inr m \<Rightarrow>
            (case resolve_dep_modules x inputs (md_imports m) of
               Inl e \<Rightarrow> fail e
             | Inr deps \<Rightarrow>
                 (case get_function m name of
                    None \<Rightarrow> fail (''function '' @ quoted name @ '' not found in module'')
                  | Some func \<Rightarrow>
                      if (case fn_return_type func of Some t \<Rightarrow> return_type_contains_struct t | None \<Rightarrow> False)
                      then fail (''function '' @ quoted name @
                        '' returns a struct and cannot be called directly from a transaction '' @ em_dash @
                        '' structs must be consumed within the call'')
                      else
                        (case resolve_args x c func sender inputs of
                           Inl (Fail e) \<Rightarrow> fail e
                         | Inl (Panicked m) \<Rightarrow> panic m
                         | Inr (vm_args, obj_args) \<Rightarrow>
                             (case vm_new (ca_module c, m) (build_natives x) gas_schedule_default deps cfg of
                                Inl (Panic m) \<Rightarrow> panic m
                              | Inl (VmErr e) \<Rightarrow> panic (vm_error_display e)
                              | Inr vm \<Rightarrow>
                                  map_option (finish_call x tx_digest obj_args)
                                    (vm_call k (cx_hex x) vm name vm_args gas
                                       (context_new x sender tx_digest (ec_rand_seed ec) (ec_timestamp ec))))))))"

definition execute_meow_module_publish ::
    "chain_ext \<Rightarrow> digest \<Rightarrow> bytes \<Rightarrow> object list \<Rightarrow> gas_meter \<Rightarrow> execution_result \<times> gas_meter" where
  "execute_meow_module_publish x tx_digest bs inputs gas =
     (let fail = (\<lambda>msg. execution_failure msg tx_digest) in
      if length bs > MAX_BCS_SERIALIZED_MODULE_SIZE
      then (fail (''module size '' @ show_nat (length bs) @ '' bytes exceeds maximum of '' @
                  show_nat MAX_BCS_SERIALIZED_MODULE_SIZE @ '' bytes''), gas)
      else
        (case cx_module_de x bs of
           Inl e \<Rightarrow> (fail (''failed to deserialize module: '' @ e), gas)
         | Inr m \<Rightarrow>
             (case resolve_dep_modules x inputs (md_imports m) of
                Inl e \<Rightarrow> (fail (''dep resolution: '' @ e), gas)
              | Inr deps \<Rightarrow>
                  (case verify (cx_hex x) m deps adapter_native_sigs compiler_config_chain of
                     Inl errors \<Rightarrow>
                       (fail (''bytecode verification failed: '' @
                          join_with ''; '' (map verification_error_display errors)), gas)
                   | Inr _ \<Rightarrow>
                       (case adapter_verify (cx_hex x) m deps adapter_native_sigs of
                          Inl errors \<Rightarrow>
                            (fail (''adapter bytecode verification failed: '' @
                               join_with ''; '' (map bytecode_verifier_error_display errors)), gas)
                        | Inr _ \<Rightarrow>
                            (case charge (word_of_nat (length bs) * GAS_PER_MODULE_BYTE) gas of
                               (Inl e, gas) \<Rightarrow> (fail (vm_error_display e), gas)
                             | (Inr _, gas) \<Rightarrow>
                                 (execution_result_new Success tx_digest
                                    [fresh_module (address_derive x tx_digest 0 0) tx_digest bs] [] [],
                                  gas)))))))"

section \<open>Transactions\<close>

definition lift_panic :: "string fault + 'a \<Rightarrow> executor_error fault + 'a" where
  "lift_panic r = (case r of Inl (Panicked m) \<Rightarrow> Err (Panicked m) | Inl (Fail m) \<Rightarrow> Err (Panicked m) | Inr a \<Rightarrow> Ok a)"

text \<open>The part of \<open>execute\<close> between the gas coin and the gas accounting.\<close>

definition execute_body ::
    "nat \<Rightarrow> chain_ext \<Rightarrow> transaction \<Rightarrow> object list \<Rightarrow> external_context \<Rightarrow> gas_meter
       \<Rightarrow> ((string fault + execution_result) \<times> gas_meter) option" where
  "execute_body k x tx inputs ec gas =
     (let tx_digest = transaction_digest x tx in
      case charge BASE_TRANSACTION_GAS_COST gas of
        (Inl e, gas) \<Rightarrow> Some (Ok (execution_failure (vm_error_display e) tx_digest), gas)
      | (Inr _, gas) \<Rightarrow>
          (case tx_type tx of
             MeowCall c \<Rightarrow>
               execute_meow_call k x (tx_sender tx) tx_digest c inputs gas vm_config_chain ec
           | MeowModulePublish bs \<Rightarrow>
               (case execute_meow_module_publish x tx_digest bs inputs gas of
                  (r, gas) \<Rightarrow> Some (Ok r, gas))))"

definition execute ::
    "nat \<Rightarrow> chain_ext \<Rightarrow> transaction \<Rightarrow> object list \<Rightarrow> external_context
       \<Rightarrow> (executor_error fault + execution_result) option" where
  "execute k x tx inputs ec =
     (case resolve_gas_coin_object x (tx_gas_coin tx) (tx_sender tx) inputs of
        Inl e \<Rightarrow> Some (Err (Fail e))
      | Inr gas_coin \<Rightarrow>
          (case balance_from_object x gas_coin of
             None \<Rightarrow>
               Some (Err (Panicked ''it is expected to have a valid balance field in the gas coin object''))
           | Some gas_budget \<Rightarrow>
               map_option
                 (\<lambda>(r, gas).
                    and_then (lift_panic r) (\<lambda>result.
                      apply_gas_spending x result gas_coin (gm_spent gas) (transaction_digest x tx)))
                 (execute_body k x tx inputs ec (gas_meter_new gas_budget))))"

definition execute_system_transaction ::
    "nat \<Rightarrow> chain_ext \<Rightarrow> transaction \<Rightarrow> object list \<Rightarrow> (executor_error fault + execution_result) option" where
  "execute_system_transaction k x tx inputs =
     (case tx_type tx of
        MeowCall c \<Rightarrow>
          map_option (\<lambda>(r, gas). lift_panic r)
            (execute_meow_call k x (tx_sender tx) (transaction_digest x tx) c inputs gas_meter_unlimited
               vm_config_privileged external_context_default)
      | MeowModulePublish _ \<Rightarrow> Some (Err (Fail ModulePublishNotAllowed)))"

definition execute_genesis_transaction ::
    "nat \<Rightarrow> chain_ext \<Rightarrow> transaction \<Rightarrow> object list \<Rightarrow> (executor_error fault + execution_result) option" where
  "execute_genesis_transaction k x tx inputs =
     (case tx_type tx of
        MeowCall c \<Rightarrow>
          map_option (\<lambda>(r, gas). lift_panic r)
            (execute_meow_call k x (tx_sender tx) (transaction_digest x tx) c inputs gas_meter_unlimited
               vm_config_privileged external_context_default)
      | MeowModulePublish bs \<Rightarrow>
          Some (Ok (fst (execute_meow_module_publish x (transaction_digest x tx) bs inputs gas_meter_unlimited))))"

end
