(* ===== verification/Executor_Laws.thy ===== *)
theory Executor_Laws
  imports Executor Vm_Safety Object_Laws
begin

text \<open>
  Laws of the executor: what the parts of an execution result can be, how gas is charged, and which
  objects a transaction can touch.
\<close>

section \<open>The host state of a call\<close>

text \<open>An invariant of the host state that every native keeps is kept by a whole call.\<close>

definition natives_keep :: "('s \<Rightarrow> bool) \<Rightarrow> 's vm \<Rightarrow> bool" where
  "natives_keep Inv vm \<longleftrightarrow>
     (\<forall>e \<in> snd ` set (vm_natives vm). \<forall>args w. Inv w \<longrightarrow> Inv (snd (ne_func e args w)))"

primrec next_world :: "'s frame_next \<Rightarrow> 's" where
  "next_world (Done r) = snd (snd r)"
| "next_world (Continue fr g w) = w"
| "next_world (CallOut f m a args fr g w) = w"

lemma call_native_world:
  assumes "call_native hx n fr g w = (r, g', w')"
    and keep: "\<And>args. Inv w \<Longrightarrow> Inv (snd (ne_func n args w))" and "Inv w"
  shows "Inv w'"
proof -
  have "w' = w \<or> (\<exists>args. w' = snd (ne_func n args w))"
    using assms(1)
    by (cases "charge (ne_gas_cost n) g"; cases "pop_n (length (ne_params n)) fr")
      (auto simp: call_native_def split: sum.splits prod.splits native_result.splits option.splits
        if_splits; metis snd_conv)+
  with keep \<open>Inv w\<close> show ?thesis by auto
qed

lemma frame_step_world:
  assumes "natives_keep Inv vm" "Inv w"
  shows "Inv (next_world (frame_step hx vm m a fr gas w))"
proof -
  have nat: "Inv w'" if "map_of (vm_natives vm) name = Some n" "call_native hx n fr g w = (r, g', w')"
    for name n fr g r g' w'
    by (rule call_native_world [OF that(2)])
      (use assms map_of_SomeD [OF that(1)] in \<open>force simp: natives_keep_def\<close>)+
  show ?thesis
    using assms(2)
    by (auto simp: frame_step_def Let_def intro: nat dest!: resolve_call_ToNative
        split: sum.splits option.splits call_target.splits prod.splits)
qed

lemma vm_call_world:
  assumes "natives_keep Inv vm" "vm_call k hx vm f args gas w = Some r" "Inv w"
  shows "Inv (snd (snd r))"
proof -
  have step: "Inv (next_world n)" if "frame_step hx vm m a fr g w = n" "Inv w" for m a fr g w n
    using frame_step_world [OF assms(1) that(2)] that(1) by blast
  have "Inv (snd (snd r))" if "call_inner k hx vm f m a args gas w d = Some r" for m a d
    using that assms(3)
    by (rule run_post(1) [where I = "\<lambda>g w. Inv w" and Q = "\<lambda>r. Inv (snd (snd r))", rotated 5])
      (auto dest: step)
  then show ?thesis
    using assms(2,3) by (auto simp: vm_call_def split: if_splits option.splits)
qed

section \<open>Fresh identifiers\<close>

lemma native_table_entries:
  "native_table natives tab = Inr tab' \<Longrightarrow> snd ` set tab' \<subseteq> set natives \<union> snd ` set tab"
proof (induction natives arbitrary: tab)
  case (Cons e natives)
  then have "native_table natives ((ne_name e, e) # tab) = Inr tab'" by (auto split: if_splits)
  from Cons.IH [OF this] show ?case by auto
qed simp

lemma vm_new_natives:
  assumes "vm_new am natives gs deps cfg = Inr vm"
  shows "snd ` set (vm_natives vm) \<subseteq> insert meow_vm_abort_entry (set natives)"
proof -
  from assms obtain tab tab' where tab: "native_table natives [] = Inr tab" "vm_natives vm = tab'"
    and tab': "(case map_of tab meow_vm_abort of
          Some e \<Rightarrow>
            if ne_params e \<noteq> ns_params meow_vm_abort_sig
            then Err (Panic ''meow_vm_abort override has wrong parameter types'')
            else if ne_return_type e \<noteq> None
            then Err (Panic ''meow_vm_abort override must return void'')
            else Ok tab
        | None \<Rightarrow> Ok ((meow_vm_abort, meow_vm_abort_entry) # tab)) = Inr tab'"
    unfolding vm_new_def and_then_Inr_iff by fastforce
  from tab' have "tab' = tab \<or> tab' = (meow_vm_abort, meow_vm_abort_entry) # tab"
    by (cases "map_of tab meow_vm_abort") (auto split: if_splits)
  with native_table_entries [OF tab(1)] tab(2) show ?thesis by force
qed

definition fresh_inv :: "chain_ext \<Rightarrow> digest \<Rightarrow> exec_context \<Rightarrow> bool" where
  "fresh_inv x d c \<longleftrightarrow> cn_tx_digest c = d \<and> set (cn_fresh_ids c) \<subseteq> range (address_derive x d 0)"

lemma fresh_id_func_inv: "fresh_inv x d w \<Longrightarrow> fresh_inv x d (snd (fresh_id_func x args w))"
  by (auto simp: fresh_id_func_def next_fresh_id_def fresh_inv_def Let_def meow_object_id_value_eq)

lemma transfer_func_inv: "fresh_inv x d w \<Longrightarrow> fresh_inv x d (snd (transfer_func x args w))"
  by (cases "length args < 2"; cases "last args")
    (simp_all add: transfer_func_def Let_def context_transfer_def fresh_inv_def)

lemma destroy_func_inv: "fresh_inv x d w \<Longrightarrow> fresh_inv x d (snd (destroy_func x args w))"
  by (auto simp: destroy_func_def context_destroy_def fresh_inv_def split: list.splits sum.splits)

lemma read_func_inv:
  "fresh_inv x d w \<Longrightarrow> fresh_inv x d (snd (sender_func args w))"
  "fresh_inv x d w \<Longrightarrow> fresh_inv x d (snd (rand_func x args w))"
  "fresh_inv x d w \<Longrightarrow> fresh_inv x d (snd (timestamp_func args w))"
  by (simp_all add: sender_func_def rand_func_def timestamp_func_def next_rand_def Let_def fresh_inv_def)

lemma natives_keep_fresh:
  assumes "vm_new am (build_natives x) gs deps cfg = Inr vm"
  shows "natives_keep (fresh_inv x d) vm"
proof -
  have "fresh_inv x d (snd (ne_func e args w))"
    if e: "e = meow_vm_abort_entry \<or> e \<in> set (build_natives x)" and w: "fresh_inv x d w" for e args w
    using e
  proof
    assume "e \<in> set (build_natives x)"
    then show ?thesis
      using w unfolding build_natives_def Let_def
      by (auto intro: fresh_id_func_inv transfer_func_inv destroy_func_inv read_func_inv)
  qed (simp add: meow_vm_abort_entry_def w)
  with vm_new_natives [OF assms] show ?thesis
    unfolding natives_keep_def by (metis insert_iff subsetD)
qed

section \<open>Resolved arguments\<close>

lemma find_object_SomeD: "find_object inputs a = Some ob \<Longrightarrow> ob \<in> set inputs \<and> ob_address ob = a"
  unfolding find_object_def by (rule find_SomeD)

text \<open>An object the sender may use as an argument, pinned by its reference.\<close>

definition usable :: "chain_ext \<Rightarrow> address \<Rightarrow> object list \<Rightarrow> object_ref \<Rightarrow> object \<Rightarrow> bool" where
  "usable x sender inputs r ob \<longleftrightarrow>
     ob \<in> set inputs \<and> r = object_ref_of x ob \<and> owner_address (ob_owner ob) = Some sender \<and>
     ob_version ob \<noteq> VERSION_MAX \<and> ob_type ob \<noteq> ModuleTy"

lemma resolve_object_arg_usable:
  assumes "resolve_object_arg x r sender inputs = Inr v"
  obtains ob where "find_object inputs (or_address r) = Some ob" "usable x sender inputs r ob"
proof -
  from assms obtain ob where ob: "find_object inputs (or_address r) = Some ob"
    by (auto simp: resolve_object_arg_def split: option.splits)
  have "ob_type ob \<noteq> ModuleTy" "owner_address (ob_owner ob) = Some sender" "ob_version ob \<noteq> VERSION_MAX"
    and ref: "ob_version ob = or_version r" "object_digest x ob = or_digest r"
    using assms ob by (auto simp: resolve_object_arg_def Let_def split: if_splits)
  moreover have "r = object_ref_of x ob"
    using ref find_object_SomeD [OF ob] by (cases r) (simp add: object_ref_of_def)
  ultimately have "usable x sender inputs r ob"
    using find_object_SomeD [OF ob] by (simp add: usable_def)
  from that [OF ob this] show ?thesis .
qed

lemma resolve_args_from_usable:
  "resolve_args_from x i args sender inputs = Inr (vs, obs) \<Longrightarrow>
     \<forall>ob \<in> set obs. \<exists>r. InObject r \<in> fst ` set args \<and> usable x sender inputs r ob"
proof (induction x i args sender inputs arbitrary: vs obs rule: resolve_args_from.induct)
  case (2 x i inp n t args sender inputs)
  from 2(2) obtain v vs' obs' where
    v: "resolve_arg x inp t sender inputs = Inr v" and
    rest: "resolve_args_from x (Suc i) args sender inputs = Inr (vs', obs')" and
    obs: "obs = (case inp of
        InObject r \<Rightarrow> (case find_object inputs (or_address r) of Some ob \<Rightarrow> [ob] | None \<Rightarrow> [])
      | InRaw _ \<Rightarrow> []) @ obs'"
    by (auto simp: and_then_Inr_iff split: sum.splits fault.splits)
  show ?case
  proof (cases inp)
    case (InObject r)
    then have "resolve_object_arg x r sender inputs = Inr v" using v by (simp add: resolve_arg_def)
    then obtain ob where "find_object inputs (or_address r) = Some ob" "usable x sender inputs r ob"
      by (rule resolve_object_arg_usable)
    then show ?thesis using 2(1) [OF v rest] obs InObject by auto
  next
    case (InRaw bs)
    then show ?thesis using 2(1) [OF v rest] obs by auto
  qed
qed simp

lemma resolve_args_usable:
  assumes "resolve_args x c func sender inputs = Inr (vs, obs)" "ob \<in> set obs"
  shows "\<exists>r. InObject r \<in> set (ca_arguments c) \<and> usable x sender inputs r ob"
proof -
  have "resolve_args_from x 0 (zip (ca_arguments c) (fn_params func)) sender inputs = Inr (vs, obs)"
    using assms(1) by (auto simp: resolve_args_def split: if_splits)
  from resolve_args_from_usable [OF this] assms(2) obtain r where
    "InObject r \<in> fst ` set (zip (ca_arguments c) (fn_params func))" "usable x sender inputs r ob" by blast
  moreover from this(1) have "InObject r \<in> set (ca_arguments c)" by (auto dest: set_zip_leftD)
  ultimately show ?thesis by blast
qed

section \<open>Collected effects\<close>

lemma bump_version_Inr: "bump_version ob = Inr v \<longleftrightarrow> version_next (ob_version ob) = Some v"
  by (auto simp: bump_version_def split: option.splits)

lemma vm_object_value_to_object_Inr:
  assumes "vm_object_value_to_object x v owner tx version = Inr ob"
  shows "object_address x v = Some (ob_address ob)" "ob_version ob = version" "ob_owner ob = owner"
    "ob_transaction ob = tx"
  using assms
  by (auto simp: vm_object_value_to_object_def split: val.splits option.splits sum.splits
      identifier_error.splits)

text \<open>The object is the next version of its input.\<close>

definition next_of :: "(address \<rightharpoonup> object) \<Rightarrow> object \<Rightarrow> bool" where
  "next_of by_addr ob \<longleftrightarrow>
     (\<exists>o1. by_addr (ob_address ob) = Some o1 \<and> version_next (ob_version o1) = Some (ob_version ob))"

lemma collect_transfers_Inr:
  "collect_transfers x fresh by_addr tx ts = Inr (created, changed) \<Longrightarrow>
     (\<forall>ob \<in> set created. ob_address ob \<in> fresh \<and> ob_version ob = VERSION_ONE) \<and>
     (\<forall>ob \<in> set changed. ob_address ob \<notin> fresh \<and> next_of by_addr ob) \<and>
     (\<forall>(v, owner) \<in> set ts. \<exists>ob \<in> set created \<union> set changed.
        object_address x v = Some (ob_address ob) \<and> ob_owner ob = OwnerAddress owner)"
proof (induction x fresh by_addr tx ts arbitrary: created changed rule: collect_transfers.induct)
  case (2 x fresh by_addr tx obj_val owner ts)
  from 2(2) obtain i version where
    i: "object_address x obj_val = Some i" and version: "output_version fresh by_addr i = Inr version"
    and body: "(case vm_object_value_to_object x obj_val (OwnerAddress owner) tx version of
         Inl (Panicked m) \<Rightarrow> Err (Panicked m)
       | Inl (Fail _) \<Rightarrow> Err (Panicked ''failed to convert VM object value to object'')
       | Inr ob \<Rightarrow>
           and_then (collect_transfers x fresh by_addr tx ts) (\<lambda>(created, changed).
             if i \<in> fresh then Ok (ob # created, changed) else Ok (created, ob # changed)))
       = Inr (created, changed)"
    unfolding collect_transfers.simps and_then_Inr_iff ok_or_Inr_iff by blast
  from body obtain ob where
    ob: "vm_object_value_to_object x obj_val (OwnerAddress owner) tx version = Inr ob"
    by (auto split: sum.splits fault.splits)
  with body obtain created' changed' where
    rest: "collect_transfers x fresh by_addr tx ts = Inr (created', changed')"
    and eq: "(created, changed) = (if i \<in> fresh then (ob # created', changed') else (created', ob # changed'))"
    by (cases "i \<in> fresh") (auto simp: and_then_Inr_iff)
  note ob' = vm_object_value_to_object_Inr [OF ob]
  have a: "ob_address ob = i" using ob'(1) i by simp
  have "i \<in> fresh \<Longrightarrow> version = VERSION_ONE" "i \<notin> fresh \<Longrightarrow> next_of by_addr ob"
    using version a ob'(2)
    by (auto simp: output_version_def and_then_Inr_iff lookup_input_def ok_or_Inr_iff bump_version_Inr
        next_of_def)
  moreover have "(\<forall>ob \<in> set created'. ob_address ob \<in> fresh \<and> ob_version ob = VERSION_ONE) \<and>
     (\<forall>ob \<in> set changed'. ob_address ob \<notin> fresh \<and> next_of by_addr ob) \<and>
     (\<forall>(v, owner) \<in> set ts. \<exists>ob \<in> set created' \<union> set changed'.
        object_address x v = Some (ob_address ob) \<and> ob_owner ob = OwnerAddress owner)"
    by (rule 2(1)) (use i version ob rest in \<open>simp_all add: ok_or_def\<close>)
  ultimately show ?case using eq a ob' by (cases "i \<in> fresh") auto
qed simp

lemma collect_destroyed_Inr:
  "collect_destroyed fresh by_addr tx ids = Inr obs \<Longrightarrow>
     (\<forall>a o1. by_addr a = Some o1 \<longrightarrow> ob_address o1 = a) \<Longrightarrow>
     (\<forall>ob \<in> set obs. next_of by_addr ob) \<and> addresses obs = set ids - fresh"
proof (induction fresh by_addr tx ids arbitrary: obs rule: collect_destroyed.induct)
  case (2 fresh by_addr tx i ids)
  show ?case
  proof (cases "i \<in> fresh")
    case True
    with 2 show ?thesis by auto
  next
    case False
    with 2(3) obtain o1 v obs' where o1: "by_addr i = Some o1" "version_next (ob_version o1) = Some v"
      and rest: "collect_destroyed fresh by_addr tx ids = Inr obs'"
      and obs: "obs = o1\<lparr>ob_transaction := tx, ob_version := v\<rparr> # obs'"
      by (auto simp: and_then_Inr_iff lookup_input_def ok_or_Inr_iff bump_version_Inr)
    have a: "ob_address o1 = i" using 2(4) o1(1) by blast
    have "(\<forall>ob \<in> set obs'. next_of by_addr ob) \<and> addresses obs' = set ids - fresh"
      by (rule 2(2)) (use False o1 rest 2(4) in \<open>auto simp: lookup_input_def ok_or_def bump_version_def\<close>)
    then show ?thesis using o1 a obs False by (auto simp: next_of_def)
  qed
qed simp

lemma input_by_addr_Some: "input_by_addr obs a = Some ob \<Longrightarrow> ob \<in> set obs \<and> ob_address ob = a"
  by (auto simp: input_by_addr_def dest: map_of_SomeD)

text \<open>The objects of an effect: created ones are fresh, the others continue an argument.\<close>

definition effects_from :: "chain_ext \<Rightarrow> address set \<Rightarrow> object list \<Rightarrow> object_effects \<Rightarrow> bool" where
  "effects_from x fresh args = (\<lambda>(created, changed, destroyed).
     (\<forall>ob \<in> set created. ob_address ob \<in> fresh \<and> ob_version ob = VERSION_ONE) \<and>
     (\<forall>ob \<in> set changed \<union> set destroyed. \<exists>o1 \<in> set args.
        ob_address o1 = ob_address ob \<and> version_next (ob_version o1) = Some (ob_version ob)) \<and>
     (\<forall>o1 \<in> set args. ob_address o1 \<notin> fresh \<longrightarrow>
        ob_address o1 \<in> addresses changed \<union> addresses destroyed))"

lemma next_of_input: "next_of (input_by_addr args) ob \<Longrightarrow>
    \<exists>o1 \<in> set args. ob_address o1 = ob_address ob \<and> version_next (ob_version o1) = Some (ob_version ob)"
  by (auto simp: next_of_def dest!: input_by_addr_Some)

lemma transferred_ids_iff:
  "i \<in> transferred_ids x ctx \<longleftrightarrow> (\<exists>(v, owner) \<in> set (cn_transfers ctx). object_address x v = Some i)"
  by (force simp: transferred_ids_def split: option.splits)

lemma collect_object_effects_from:
  assumes "collect_object_effects x ctx args tx = Inr (created, changed, destroyed)"
  shows "effects_from x (set (cn_fresh_ids ctx)) args (created, changed, destroyed)"
proof -
  let ?fresh = "set (cn_fresh_ids ctx)"
  let ?consumed = "\<lambda>i. i \<in> transferred_ids x ctx \<or> i \<in> set (cn_destroyed ctx)"
  from assms have none: "List.find (\<lambda>ob. \<not> ?consumed (ob_address ob)) args = None"
    and tr: "collect_transfers x ?fresh (input_by_addr args) tx (cn_transfers ctx) = Inr (created, changed)"
    and de: "collect_destroyed ?fresh (input_by_addr args) tx (cn_destroyed ctx) = Inr destroyed"
    unfolding collect_object_effects_def Let_def
    by (auto simp: and_then_Inr_iff split: option.splits)
  note tr = collect_transfers_Inr [OF tr]
  have de: "(\<forall>ob \<in> set destroyed. next_of (input_by_addr args) ob) \<and>
      addresses destroyed = set (cn_destroyed ctx) - ?fresh"
    by (rule collect_destroyed_Inr [OF de]) (auto dest: input_by_addr_Some)
  have "ob_address o1 \<in> addresses changed \<union> addresses destroyed"
    if o1: "o1 \<in> set args" "ob_address o1 \<notin> ?fresh" for o1
  proof (cases "ob_address o1 \<in> set (cn_destroyed ctx)")
    case True
    then show ?thesis using de o1(2) by simp
  next
    case False
    then have "ob_address o1 \<in> transferred_ids x ctx" using none o1(1) by (auto simp: find_None_iff)
    then obtain v owner where "(v, owner) \<in> set (cn_transfers ctx)" "object_address x v = Some (ob_address o1)"
      by (auto simp: transferred_ids_iff)
    then obtain ob where "ob \<in> set created \<union> set changed" "ob_address ob = ob_address o1"
      using tr by fastforce
    moreover from this have "ob \<notin> set created" using tr o1(2) by metis
    ultimately have "ob \<in> set changed" "ob_address ob = ob_address o1" by simp_all
    then show ?thesis by (metis UnI1 imageI)
  qed
  moreover have "\<forall>ob \<in> set changed \<union> set destroyed. next_of (input_by_addr args) ob"
    using tr de by (simp add: ball_Un)
  ultimately show ?thesis
    using tr by (simp add: effects_from_def next_of_input)
qed

section \<open>Executions\<close>

definition object_refs :: "transaction \<Rightarrow> object_ref set" where
  "object_refs tx =
     (case tx_type tx of MeowCall c \<Rightarrow> {r. InObject r \<in> set (ca_arguments c)} | MeowModulePublish _ \<Rightarrow> {})"

definition no_effects :: "execution_result \<Rightarrow> bool" where
  "no_effects r \<longleftrightarrow> er_created r = [] \<and> er_changed r = [] \<and> er_destroyed r = []"

text \<open>What the part of an execution before the gas accounting can change.\<close>

definition body_effects :: "chain_ext \<Rightarrow> address \<Rightarrow> digest \<Rightarrow> object list \<Rightarrow> object_ref set \<Rightarrow> execution_result \<Rightarrow> bool" where
  "body_effects x sender d inputs refs r \<longleftrightarrow>
     er_transaction_digest r = d \<and>
     (er_status r \<noteq> Success \<longrightarrow> no_effects r) \<and>
     (\<forall>ob \<in> set (er_created r). ob_version ob = VERSION_ONE \<and> ob_address ob \<in> range (address_derive x d 0)) \<and>
     (\<forall>ob \<in> set (er_changed r) \<union> set (er_destroyed r). \<exists>r \<in> refs. \<exists>o1.
        usable x sender inputs r o1 \<and> ob_address o1 = ob_address ob \<and>
        version_next (ob_version o1) = Some (ob_version ob))"

lemma failure_effects [simp]: "body_effects x sender d inputs refs (execution_failure msg d)"
  by (simp add: body_effects_def no_effects_def execution_failure_def execution_result_new_def)

lemma finish_call_effects:
  assumes "finish_call x d args (r, gas, ctx) = (Inr res, gas')" "fresh_inv x d ctx"
    and "\<forall>ob \<in> set args. \<exists>r \<in> refs. usable x sender inputs r ob"
  shows "body_effects x sender d inputs refs res \<and> gas' = gas"
proof (cases r)
  case (Inl e)
  with assms(1) obtain msg where "res = execution_failure msg d" "gas' = gas"
    by (auto simp: finish_call_def split: vm_stop.splits vm_error.splits)
  then show ?thesis by simp
next
  case (Inr v)
  show ?thesis
  proof (cases "collect_object_effects x ctx args d")
    case (Inl e)
    then show ?thesis
      using assms(1) Inr
      by (cases e) (auto simp: finish_call_def body_effects_def no_effects_def execution_result_new_def)
  next
    case eff: (Inr es)
    obtain created changed destroyed where es: "es = (created, changed, destroyed)" by (cases es)
    then have res: "res = execution_result_new Success d created changed destroyed" "gas' = gas"
      using assms(1) Inr eff by (auto simp: finish_call_def)
    have prov: "effects_from x (set (cn_fresh_ids ctx)) args (created, changed, destroyed)"
      using collect_object_effects_from eff es by blast
    have "\<forall>ob \<in> set changed \<union> set destroyed. \<exists>r \<in> refs. \<exists>o1.
        usable x sender inputs r o1 \<and> ob_address o1 = ob_address ob \<and>
        version_next (ob_version o1) = Some (ob_version ob)"
      using prov assms(3) unfolding effects_from_def prod.case by blast
    moreover have "\<forall>ob \<in> set created. ob_version ob = VERSION_ONE \<and> ob_address ob \<in> range (address_derive x d 0)"
      using prov assms(2) unfolding effects_from_def fresh_inv_def prod.case by blast
    ultimately show ?thesis
      by (simp add: res body_effects_def execution_result_new_def)
  qed
qed

lemma vm_new_schedule: "vm_new am natives gs deps cfg = Inr vm \<Longrightarrow> vm_gas_schedule vm = gs"
  unfolding vm_new_def and_then_Inr_iff by fastforce

definition stopped_early :: "digest \<Rightarrow> string fault + execution_result \<Rightarrow> bool" where
  "stopped_early d e \<longleftrightarrow> (case e of Inl _ \<Rightarrow> True | Inr res \<Rightarrow> \<exists>msg. res = execution_failure msg d)"

lemma stopped_early_simps [simp]:
  "stopped_early d (Inl e)" "stopped_early d (Inr (execution_failure msg d))"
  by (auto simp: stopped_early_def)

text \<open>A call either ends before the VM is started, or is \<open>finish_call\<close> of what the VM returns.\<close>

lemma execute_meow_call_cases:
  obtains (early) e where "\<forall>k. execute_meow_call k x sender d c inputs gas cfg ec = Some (e, gas)"
      "stopped_early d e"
  | (ran) m func vs obs deps vm where "get_function m (ident_str (ca_function c)) = Some func"
      "resolve_args x c func sender inputs = Inr (vs, obs)"
      "vm_new (ca_module c, m) (build_natives x) gas_schedule_default deps cfg = Inr vm"
      "\<forall>k. execute_meow_call k x sender d c inputs gas cfg ec =
         map_option (finish_call x d obs)
           (vm_call k (cx_hex x) vm (ident_str (ca_function c)) vs gas
              (context_new x sender d (ec_rand_seed ec) (ec_timestamp ec)))"
proof (cases "resolve_module x inputs (ca_module c)")
  case (Inl e)
  with early show thesis by (simp add: execute_meow_call_def)
next
  case m: (Inr m)
  show thesis
  proof (cases "resolve_dep_modules x inputs (md_imports m)")
    case (Inl e)
    with m early show thesis by (simp add: execute_meow_call_def)
  next
    case deps: (Inr deps)
    show thesis
    proof (cases "get_function m (ident_str (ca_function c))")
      case None
      with m deps early show thesis by (simp add: execute_meow_call_def)
    next
      case func: (Some func)
      let ?structs = "case fn_return_type func of Some t \<Rightarrow> return_type_contains_struct t | None \<Rightarrow> False"
      show thesis
      proof (cases ?structs)
        case True
        with m deps func early show thesis by (simp add: execute_meow_call_def)
      next
        case structs: False
        show thesis
        proof (cases "resolve_args x c func sender inputs")
          case (Inl e)
          with m deps func structs early show thesis by (cases e) (simp_all add: execute_meow_call_def)
        next
          case (Inr vo)
          obtain vs obs where args: "resolve_args x c func sender inputs = Inr (vs, obs)"
            using Inr by (cases vo) simp
          show thesis
          proof (cases "vm_new (ca_module c, m) (build_natives x) gas_schedule_default deps cfg")
            case (Inl e)
            with m deps func structs args early show thesis
              by (cases e) (simp_all add: execute_meow_call_def)
          next
            case (Inr vm)
            from ran [OF func args this] show thesis
              using m deps func structs args Inr by (simp add: execute_meow_call_def)
          qed
        qed
      qed
    qed
  qed
qed

lemma context_new_fresh: "fresh_inv x d (context_new x sender d seed t)"
  by (simp add: fresh_inv_def context_new_def)

lemma execute_meow_call_effects:
  assumes "execute_meow_call k x sender d c inputs gas cfg ec = Some (Inr res, gas')"
  shows "body_effects x sender d inputs {r. InObject r \<in> set (ca_arguments c)} res \<and> gas_le gas gas'"
proof (cases rule: execute_meow_call_cases [of x sender d c inputs gas cfg ec])
  case (early e)
  then show ?thesis using assms by (auto simp: stopped_early_def)
next
  case (ran m func vs obs deps vm)
  then obtain r gas1 ctx where run: "vm_call k (cx_hex x) vm (ident_str (ca_function c)) vs gas
      (context_new x sender d (ec_rand_seed ec) (ec_timestamp ec)) = Some (r, gas1, ctx)"
    and fin: "finish_call x d obs (r, gas1, ctx) = (Inr res, gas')"
    using assms by auto
  have "fresh_inv x d ctx"
    using vm_call_world [OF natives_keep_fresh [OF ran(3)] run context_new_fresh] by simp
  then have "body_effects x sender d inputs {r. InObject r \<in> set (ca_arguments c)} res \<and> gas' = gas1"
    by (rule finish_call_effects [OF fin]) (use resolve_args_usable [OF ran(2)] in blast)
  then show ?thesis using vm_call_gas_le [OF run] by simp
qed

lemma execute_meow_module_publish_effects:
  assumes "execute_meow_module_publish x d bs inputs gas = (res, gas')"
  shows "body_effects x sender d inputs {} res \<and> gas_le gas gas'"
proof -
  have "(\<exists>msg. res = execution_failure msg d) \<or>
      res = execution_result_new Success d [fresh_module (address_derive x d 0 0) d bs] [] []"
    and "gas' = gas \<or> gas' = snd (charge (word_of_nat (length bs) * GAS_PER_MODULE_BYTE) gas)"
    using assms
    by (auto simp: execute_meow_module_publish_def Let_def split: if_splits sum.splits prod.splits)
  then show ?thesis
    using charge_gas_le [of gas]
    by (elim disjE exE) (simp_all, simp_all add: body_effects_def execution_result_new_def fresh_module_def)
qed

end
