(* ===== verification/Sample_Execution.thy ===== *)
theory Sample_Execution
  imports Executor Object_Laws
begin

text \<open>
  A transaction that runs through the executor: a published module with one object type, an object
  of it, and a call that gives the object to another address.
\<close>

definition gift_module :: module where
  "gift_module = \<lparr>md_name = ''gift'', md_imports = [],
     md_structs = [\<lparr>sd_name = ''Gift'',
       sd_fields = [\<lparr>fd_name = ''id'', fd_ty = TStruct MEOW_OBJECT_ID_BYTECODE_TYPE_NAME\<rparr>], sd_is_public = True\<rparr>],
     md_functions = [\<lparr>fn_name = ''give'', fn_is_public = True,
       fn_params = [(''g'', TStruct ''Gift''), (''to'', TAddress)], fn_return_type = None, fn_local_count = 2,
       fn_code = [Load 0, Load 1, Call NATIVE_FN_TRANSFER, Pop, Return]\<rparr>]\<rparr>"

definition gift_ext :: chain_ext where
  "gift_ext = sample_ext\<lparr>cx_module_de := (\<lambda>bs. if bs = [1] then Ok gift_module else Err ''module'')\<rparr>"

definition gift_object :: object where
  "gift_object =
     fresh_object (address_suffixed 0x55) sample_sender digest_zero
       \<lparr>odr_module = address_suffixed 7, odr_name = Identifier ''Gift''\<rparr> (enc_fields [])"

definition gift_inputs :: "object list" where
  "gift_inputs = [sample_coin 5000, gift_object, fresh_module (address_suffixed 7) digest_zero [1]]"

definition gift_tx :: transaction where
  "gift_tx =
     \<lparr>tx_sender = sample_sender, tx_gas_coin = object_ref_of gift_ext (sample_coin 5000),
      tx_type = MeowCall \<lparr>ca_module = address_suffixed 7, ca_function = Identifier ''give'',
        ca_arguments = [InObject (object_ref_of gift_ext gift_object), InRaw (address_bytes (address_suffixed 8))]\<rparr>\<rparr>"

definition gift_result :: execution_result where
  "gift_result =
     \<lparr>er_status = Success, er_transaction_digest = transaction_digest gift_ext gift_tx, er_created = [],
      er_changed =
        [gift_object\<lparr>ob_owner := OwnerAddress (address_suffixed 8), ob_version := 2,
           ob_transaction := transaction_digest gift_ext gift_tx\<rparr>,
         (sample_coin 3955)\<lparr>ob_version := 2, ob_transaction := transaction_digest gift_ext gift_tx\<rparr>],
      er_destroyed = [], er_gas_used = 1045\<rparr>"

lemma gift_executes:
  "execute 10 gift_ext gift_tx gift_inputs external_context_default = Some (Ok gift_result)"
  by code_simp

lemma gift_bcs: "bcs_ok gift_ext"
  using std_bcs.bcs_contract by (simp add: gift_ext_def bcs_ok_def)

lemma gift_balances:
  "balance_from_object gift_ext (sample_coin b) = Some b"
  "balance_from_object gift_ext gift_object = None"
  "balance_from_object gift_ext (fresh_module a d bs) = None"
proof -
  have "balance_from_object gift_ext ob = balance_from_object sample_ext ob" for ob
    by (simp add: balance_from_object_def gift_ext_def)
  then show "balance_from_object gift_ext (sample_coin b) = Some b" by (simp add: sample_coin_balance)
  have "\<not> is_meow_coin_object gift_object" by code_simp
  then show "balance_from_object gift_ext gift_object = None" by (simp add: balance_from_object_def)
  show "balance_from_object gift_ext (fresh_module a d bs) = None"
    by (simp add: balance_from_object_def is_meow_coin_object_def fresh_module_def)
qed

definition gift_store :: store where
  "gift_store = with_objects gift_inputs"

lemma gift_addresses:
  "ob_address (sample_coin b) = address_suffixed 0x99" "ob_address gift_object = address_suffixed 0x55"
  "address_suffixed 0x55 \<noteq> address_suffixed 0x99"
  by (simp add: sample_coin_def fresh_object_def, simp add: gift_object_def fresh_object_def, code_simp)

lemma gift_applied:
  obtains s' where "apply_execution_result gift_result gift_store = Ok s'"
    "\<forall>ob \<in> set (er_changed gift_result). get_object s' (ob_address ob) = Some ob"
proof -
  have "applicable gift_result (get_object gift_store)"
    by (simp add: applicable_def gift_result_def gift_store_def gift_inputs_def get_object_with_objects
        gift_addresses)
  then obtain s' where s': "apply_execution_result gift_result gift_store = Ok s'"
    using applicable_Ok by blast
  have "\<forall>ob \<in> set (er_changed gift_result). get_object s' (ob_address ob) = Some ob"
    unfolding apply_execution_result_Ok(2) [OF s'] applied_def
    by (simp add: gift_result_def gift_addresses)
  with s' that show ?thesis by blast
qed

end
