(* ===== verification/Executor_Safety.thy ===== *)
theory Executor_Safety
  imports Executor_Laws Sample_Execution
begin

text \<open>
  What executing a transaction guarantees: the gas it costs, that it returns, the objects it can
  touch, and that it cannot be executed twice.
\<close>

section \<open>Parts of an execution\<close>

lemma execute_body_effects:
  assumes "execute_body k x tx inputs ec gas = Some (Inr res, gas')"
  shows "body_effects x (tx_sender tx) (transaction_digest x tx) inputs (object_refs tx) res \<and>
     gas_le (snd (charge BASE_TRANSACTION_GAS_COST gas)) gas'"
proof (cases rule: charge_cases [of BASE_TRANSACTION_GAS_COST gas])
  case (ok gm)
  show ?thesis
  proof (cases "tx_type tx")
    case (MeowCall c)
    then have "execute_meow_call k x (tx_sender tx) (transaction_digest x tx) c inputs gm vm_config_chain ec =
        Some (Inr res, gas')"
      using assms ok by (simp add: execute_body_def)
    from execute_meow_call_effects [OF this] show ?thesis using MeowCall ok by (simp add: object_refs_def)
  next
    case (MeowModulePublish bs)
    then have "execute_meow_module_publish x (transaction_digest x tx) bs inputs gm = (res, gas')"
      using assms ok by (auto simp: execute_body_def split: prod.splits)
    from execute_meow_module_publish_effects [OF this] show ?thesis
      using MeowModulePublish ok by (simp add: object_refs_def)
  qed
next
  case out
  then show ?thesis using assms by (auto simp: execute_body_def)
qed

lemma execute_Ok:
  assumes "execute k x tx inputs ec = Some (Inr r)"
  obtains coin b res gas bs v where
    "resolve_gas_coin_object x (tx_gas_coin tx) (tx_sender tx) inputs = Inr coin"
    "balance_from_object x coin = Some b"
    "execute_body k x tx inputs ec (gas_meter_new b) = Some (Inr res, gas)"
    "deduct_gas x coin (gm_spent gas) = Some bs" "version_next (ob_version coin) = Some v"
    "r = with_gas_used (gm_spent gas)
       (execution_result_new (er_status res) (er_transaction_digest res) (er_created res)
          (er_changed res @
           [coin\<lparr>ob_transaction := transaction_digest x tx, ob_version := v, ob_content := bs\<rparr>])
          (er_destroyed res))"
proof -
  from assms obtain coin b where
    coin: "resolve_gas_coin_object x (tx_gas_coin tx) (tx_sender tx) inputs = Inr coin"
      "balance_from_object x coin = Some b"
    by (auto simp: execute_def split: sum.splits option.splits)
  with assms obtain p gas where
    body: "execute_body k x tx inputs ec (gas_meter_new b) = Some (p, gas)"
    and r: "and_then (lift_panic p) (\<lambda>res.
        apply_gas_spending x res coin (gm_spent gas) (transaction_digest x tx)) = Inr r"
    by (auto simp: execute_def)
  obtain res where p: "p = Inr res"
    using r by (cases p) (auto simp: lift_panic_def split: fault.splits)
  with r have r: "apply_gas_spending x res coin (gm_spent gas) (transaction_digest x tx) =
      (Inr r :: executor_error fault + execution_result)"
    by (simp add: lift_panic_def)
  from r show ?thesis
    unfolding apply_gas_spending_def and_then_Inr_iff ok_or_Inr_iff bump_version_Inr
    using that [OF coin body [unfolded p]] by auto
qed

section \<open>Gas\<close>

lemma deduct_gas_balance:
  assumes "bcs_ok x" "balance_from_object x coin = Some b" "deduct_gas x coin s = Some bs"
    and "ob_type coin' = ob_type coin" "ob_content coin' = bs"
  shows "balance_from_object x coin' = Some (saturating_sub b s)"
proof -
  from balance_from_object_Some [OF assms(2)] obtain flds v where
    coin: "is_meow_coin_object coin" "cx_fields_de x (ob_content coin) = Ok flds"
    and "find_pair BALANCE_FIELD_NAME flds = Some v" "as_u64 v = Some b" .
  from deduct_balance_split [OF this(3,4), of s] obtain pre post where
    pre: "BALANCE_FIELD_NAME \<notin> fst ` set pre" and
    ded: "deduct_balance s flds = Some (pre @ (BALANCE_FIELD_NAME, VU64 (saturating_sub b s)) # post)"
    by blast
  have "cx_fields x (pre @ (BALANCE_FIELD_NAME, VU64 (saturating_sub b s)) # post) = Ok bs"
    using assms(3) coin ded by (auto simp: deduct_gas_def split: sum.splits if_splits)
  then have "cx_fields_de x bs = Ok (pre @ (BALANCE_FIELD_NAME, VU64 (saturating_sub b s)) # post)"
    using assms(1) by (auto simp: bcs_ok_def)
  then show ?thesis
    using coin(1) assms(4,5)
    by (simp add: balance_from_object_def is_meow_coin_object_def find_pair_append [OF pre] as_u64_def)
qed

lemma base_cost_spent:
  assumes "gas_le (snd (charge BASE_TRANSACTION_GAS_COST (gas_meter_new b))) gas"
  shows "gm_spent gas \<le> b \<and> (gm_spent gas = b \<or> BASE_TRANSACTION_GAS_COST \<le> gm_spent gas)"
proof (cases rule: charge_cases [of BASE_TRANSACTION_GAS_COST "gas_meter_new b"])
  case (ok gm)
  then have "gm = \<lparr>gm_limit = b, gm_spent = BASE_TRANSACTION_GAS_COST\<rparr> \<and> BASE_TRANSACTION_GAS_COST \<le> b"
    by (auto simp: charge_def BASE_TRANSACTION_GAS_COST_def gas_meter_new_def saturating_add_def Let_def not_less split: if_splits)
  then show ?thesis using assms ok by (auto simp: gas_le_def gas_wf_def)
next
  case out
  then show ?thesis using assms by (auto simp: gas_le_def gas_wf_def gas_meter_new_def)
qed

text \<open>C19. Every executed transaction pays for itself with the gas coin it names, which belongs to its
  sender: the gas used is at most the balance, at least the base cost unless it is the whole
  balance, and the coin comes back as its next version with exactly that much less, as the last of
  the changed objects.\<close>

theorem execute_charges_gas:
  assumes "bcs_ok x" "execute k x tx inputs ec = Some (Ok r)"
  shows "\<exists>coin coin' b others.
     resolve_gas_coin_object x (tx_gas_coin tx) (tx_sender tx) inputs = Ok coin \<and>
     balance_from_object x coin = Some b \<and> er_gas_used r \<le> b \<and>
     (er_gas_used r = b \<or> BASE_TRANSACTION_GAS_COST \<le> er_gas_used r) \<and>
     er_changed r = others @ [coin'] \<and> ob_address coin' = ob_address coin \<and>
     ob_owner coin' = ob_owner coin \<and> version_next (ob_version coin) = Some (ob_version coin') \<and>
     balance_from_object x coin' = Some (b - er_gas_used r)"
proof -
  from execute_Ok [OF assms(2)] obtain coin b res gas bs v where
    coin: "resolve_gas_coin_object x (tx_gas_coin tx) (tx_sender tx) inputs = Inr coin"
      "balance_from_object x coin = Some b"
    and body: "execute_body k x tx inputs ec (gas_meter_new b) = Some (Inr res, gas)"
    and bs: "deduct_gas x coin (gm_spent gas) = Some bs" and v: "version_next (ob_version coin) = Some v"
    and r: "r = with_gas_used (gm_spent gas)
       (execution_result_new (er_status res) (er_transaction_digest res) (er_created res)
          (er_changed res @
           [coin\<lparr>ob_transaction := transaction_digest x tx, ob_version := v, ob_content := bs\<rparr>])
          (er_destroyed res))" .
  have spent: "gm_spent gas \<le> b" "gm_spent gas = b \<or> BASE_TRANSACTION_GAS_COST \<le> gm_spent gas"
    using execute_body_effects [OF body] base_cost_spent by blast+
  have "balance_from_object x
      (coin\<lparr>ob_transaction := transaction_digest x tx, ob_version := v, ob_content := bs\<rparr>) =
      Some (b - gm_spent gas)"
    using deduct_gas_balance [OF assms(1) coin(2) bs] spent(1) by (simp add: saturating_sub_def)
  then show ?thesis
    using coin spent v by (simp add: r with_gas_used_def execution_result_new_def)
qed

theorem execute_charges_gas_witness:
  "\<exists>coin coin' b others.
     resolve_gas_coin_object gift_ext (tx_gas_coin gift_tx) (tx_sender gift_tx) gift_inputs = Ok coin \<and>
     balance_from_object gift_ext coin = Some b \<and> 1045 \<le> b \<and>
     (1045 = b \<or> BASE_TRANSACTION_GAS_COST \<le> 1045) \<and>
     er_changed gift_result = others @ [coin'] \<and> ob_address coin' = ob_address coin \<and>
     ob_owner coin' = ob_owner coin \<and> version_next (ob_version coin) = Some (ob_version coin') \<and>
     balance_from_object gift_ext coin' = Some (b - 1045)"
  using execute_charges_gas [OF gift_bcs gift_executes]
  by (simp only: gift_result_def execution_result.select_convs)

section \<open>Termination\<close>

lemma execute_meow_call_returns:
  assumes "gm_limit gas \<noteq> - 1" "gas_wf gas"
  shows "\<exists>k r. \<forall>k' \<ge> k. execute_meow_call k' x sender d c inputs gas cfg ec = Some r"
proof (cases rule: execute_meow_call_cases [of x sender d c inputs gas cfg ec])
  case (ran m func vs obs deps vm)
  from vm_call_returns [OF vm_new_schedule [OF ran(3)] assms] obtain k r where
    "\<forall>k' \<ge> k. vm_call k' (cx_hex x) vm (ident_str (ca_function c)) vs gas
       (context_new x sender d (ec_rand_seed ec) (ec_timestamp ec)) = Some r" by blast
  then have "\<forall>k' \<ge> k. execute_meow_call k' x sender d c inputs gas cfg ec = Some (finish_call x d obs r)"
    using ran(4) by simp
  then show ?thesis by blast
qed blast

lemma execute_body_returns:
  assumes "b \<noteq> - 1"
  shows "\<exists>k r. \<forall>k' \<ge> k. execute_body k' x tx inputs ec (gas_meter_new b) = Some r"
proof (cases rule: charge_cases [of BASE_TRANSACTION_GAS_COST "gas_meter_new b"])
  case (ok gm)
  have "gm_limit gm = b" "gas_wf gm"
    using ok charge_limit [of BASE_TRANSACTION_GAS_COST "gas_meter_new b"]
      charge_wf [of BASE_TRANSACTION_GAS_COST "gas_meter_new b"] by (simp_all add: gas_meter_new_def)
  then show ?thesis
    using ok execute_meow_call_returns [of gm] assms
    by (cases "tx_type tx") (auto simp: execute_body_def split: prod.splits)
qed (auto simp: execute_body_def)

text \<open>C20. Executing a transaction returns, whatever the module it calls: once the VM may take enough
  steps, the outcome no longer depends on their number.  Only a gas coin that holds the largest
  \<open>u64\<close> is exempt, whose meter counts as unlimited.\<close>

theorem execute_terminates:
  assumes "\<And>coin. resolve_gas_coin_object x (tx_gas_coin tx) (tx_sender tx) inputs = Ok coin \<Longrightarrow>
      balance_from_object x coin \<noteq> Some (- 1)"
  shows "\<exists>k r. \<forall>k' \<ge> k. execute k' x tx inputs ec = Some r"
proof (cases "resolve_gas_coin_object x (tx_gas_coin tx) (tx_sender tx) inputs")
  case (Inl e)
  then show ?thesis by (auto simp: execute_def)
next
  case (Inr coin)
  show ?thesis
  proof (cases "balance_from_object x coin")
    case None
    with Inr show ?thesis by (auto simp: execute_def)
  next
    case (Some b)
    with assms [OF Inr] have "b \<noteq> - 1" by auto
    from execute_body_returns [OF this] obtain k r where
      "\<forall>k' \<ge> k. execute_body k' x tx inputs ec (gas_meter_new b) = Some r" by blast
    then have "\<forall>k' \<ge> k. execute k' x tx inputs ec =
        Some (and_then (lift_panic (fst r)) (\<lambda>res.
          apply_gas_spending x res coin (gm_spent (snd r)) (transaction_digest x tx)))"
      using Inr Some by (simp add: execute_def split_beta)
    then show ?thesis by blast
  qed
qed

theorem execute_terminates_witness:
  "\<exists>k r. \<forall>k' \<ge> k. execute k' gift_ext gift_tx gift_inputs external_context_default = Some r"
proof (rule execute_terminates)
  fix coin
  assume "resolve_gas_coin_object gift_ext (tx_gas_coin gift_tx) (tx_sender gift_tx) gift_inputs = Ok coin"
  then have "coin \<in> set gift_inputs"
    by (auto simp: resolve_gas_coin_object_def split: option.splits if_splits dest: find_object_SomeD)
  then show "balance_from_object gift_ext coin \<noteq> Some (- 1)" by (auto simp: gift_inputs_def gift_balances)
qed

section \<open>Touched objects\<close>

text \<open>The gas coin of a transaction is an object of its sender, pinned by the reference.\<close>

lemma gas_coin_usable:
  assumes "resolve_gas_coin_object x r sender inputs = Inr coin"
  shows "usable x sender inputs r coin"
proof -
  from assms have coin: "find_object inputs (or_address r) = Some coin"
    by (auto simp: resolve_gas_coin_object_def split: option.splits if_splits)
  have "is_meow_coin_object coin" "owner_address (ob_owner coin) = Some sender"
    and "ob_version coin \<noteq> VERSION_MAX"
    and ref: "ob_version coin = or_version r" "object_digest x coin = or_digest r"
    using assms coin by (auto simp: resolve_gas_coin_object_def split: if_splits)
  moreover have "r = object_ref_of x coin"
    using ref find_object_SomeD [OF coin] by (cases r) (simp add: object_ref_of_def)
  ultimately show ?thesis
    using find_object_SomeD [OF coin] by (auto simp: usable_def is_meow_coin_object_def split: object_type.splits)
qed

text \<open>C21. A transaction touches only what its sender owns and names: every changed or destroyed
  object is the next version of an input that the sender owns and that the gas coin or an argument
  pins by address, version and digest; every created object has version one and an address derived
  from the transaction's digest; and when the execution fails, nothing but the gas coin changes.\<close>

theorem execute_touches_own_objects:
  assumes "execute k x tx inputs ec = Some (Ok r)"
  shows "(\<forall>ob \<in> set (er_changed r) \<union> set (er_destroyed r).
       \<exists>r \<in> insert (tx_gas_coin tx) (object_refs tx). \<exists>o1 \<in> set inputs.
         r = object_ref_of x o1 \<and> owner_address (ob_owner o1) = Some (tx_sender tx) \<and>
         ob_address ob = ob_address o1 \<and> version_next (ob_version o1) = Some (ob_version ob)) \<and>
     (\<forall>ob \<in> set (er_created r). ob_version ob = VERSION_ONE \<and>
        (\<exists>n. ob_address ob = address_derive x (transaction_digest x tx) 0 n)) \<and>
     (er_status r \<noteq> Success \<longrightarrow> er_created r = [] \<and> er_destroyed r = [] \<and>
        (\<exists>coin. er_changed r = [coin] \<and> ob_address coin = or_address (tx_gas_coin tx)))"
proof -
  from execute_Ok [OF assms] obtain coin b res gas bs v where
    coin: "resolve_gas_coin_object x (tx_gas_coin tx) (tx_sender tx) inputs = Inr coin"
    and body: "execute_body k x tx inputs ec (gas_meter_new b) = Some (Inr res, gas)"
    and v: "version_next (ob_version coin) = Some v"
    and r: "r = with_gas_used (gm_spent gas)
       (execution_result_new (er_status res) (er_transaction_digest res) (er_created res)
          (er_changed res @
           [coin\<lparr>ob_transaction := transaction_digest x tx, ob_version := v, ob_content := bs\<rparr>])
          (er_destroyed res))" .
  note eff = execute_body_effects [OF body, THEN conjunct1, unfolded body_effects_def]
  note usable = gas_coin_usable [OF coin, unfolded usable_def]
  have sel: "er_created r = er_created res" "er_destroyed r = er_destroyed res" "er_status r = er_status res"
    "er_changed r = er_changed res @
       [coin\<lparr>ob_transaction := transaction_digest x tx, ob_version := v, ob_content := bs\<rparr>]"
    by (simp_all add: r with_gas_used_def execution_result_new_def)
  have "\<exists>r \<in> insert (tx_gas_coin tx) (object_refs tx). \<exists>o1 \<in> set inputs.
      r = object_ref_of x o1 \<and> owner_address (ob_owner o1) = Some (tx_sender tx) \<and>
      ob_address ob = ob_address o1 \<and> version_next (ob_version o1) = Some (ob_version ob)"
    if "ob \<in> set (er_changed r) \<union> set (er_destroyed r)" for ob
  proof (cases "ob \<in> set (er_changed res) \<union> set (er_destroyed res)")
    case True
    then obtain q o1 where "q \<in> object_refs tx" "usable x (tx_sender tx) inputs q o1"
      "ob_address o1 = ob_address ob" "version_next (ob_version o1) = Some (ob_version ob)"
      using eff by blast
    then show ?thesis unfolding usable_def by (metis insertCI)
  next
    case False
    with that sel have "ob = coin\<lparr>ob_transaction := transaction_digest x tx, ob_version := v, ob_content := bs\<rparr>"
      by auto
    then show ?thesis using usable v by auto
  qed
  moreover have "or_address (tx_gas_coin tx) = ob_address coin"
    using usable by (simp add: object_ref_of_def)
  ultimately show ?thesis using eff sel by (auto simp: no_effects_def)
qed

theorem execute_touches_own_objects_witness:
  "execute 10 gift_ext gift_tx gift_inputs external_context_default = Some (Ok gift_result) \<and>
     (\<exists>r \<in> insert (tx_gas_coin gift_tx) (object_refs gift_tx). \<exists>o1 \<in> set gift_inputs.
        r = object_ref_of gift_ext o1 \<and> owner_address (ob_owner o1) = Some sample_sender \<and>
        address_suffixed 0x55 = ob_address o1 \<and> version_next (ob_version o1) = Some 2)"
  using execute_touches_own_objects [OF gift_executes] gift_executes
  by (simp add: gift_result_def gift_addresses gift_tx_def)

section \<open>Replay\<close>

lemma version_next_neq: "version_next v = Some v' \<Longrightarrow> v' \<noteq> v"
  by (auto simp: version_next_def checked_add_def split: if_splits)

lemma by_address_last: "by_address (obs @ [ob]) (ob_address ob) = Some ob"
  by (simp add: by_address_def)

text \<open>C22. A transaction is executed at most once: after its result is applied to a store, executing
  it again on objects of the new store is refused, since the gas coin it pins is gone or has moved
  to its next version.\<close>

theorem execute_no_replay:
  assumes "execute k x tx inputs ec = Some (Ok r)" "apply_execution_result r s = Ok s'"
    and "\<forall>ob \<in> set inputs'. get_object s' (ob_address ob) = Some ob"
  shows "\<exists>e. execute k' x tx inputs' ec' = Some (Err (Fail e))"
proof -
  obtain coin coin' others where
    coin: "resolve_gas_coin_object x (tx_gas_coin tx) (tx_sender tx) inputs = Inr coin"
    and v: "version_next (ob_version coin) = Some (ob_version coin')"
    and changed: "er_changed r = others @ [coin']" "ob_address coin' = ob_address coin"
  proof (rule execute_Ok [OF assms(1)])
    fix coin b res gas bs v
    assume "resolve_gas_coin_object x (tx_gas_coin tx) (tx_sender tx) inputs = Inr coin"
      and "version_next (ob_version coin) = Some v"
      and "r = with_gas_used (gm_spent gas)
       (execution_result_new (er_status res) (er_transaction_digest res) (er_created res)
          (er_changed res @
           [coin\<lparr>ob_transaction := transaction_digest x tx, ob_version := v, ob_content := bs\<rparr>])
          (er_destroyed res))"
    then show thesis
      using that [of coin "coin\<lparr>ob_transaction := transaction_digest x tx, ob_version := v, ob_content := bs\<rparr>"
          "er_changed res"]
      by (simp add: with_gas_used_def execution_result_new_def)
  qed
  have ref: "or_address (tx_gas_coin tx) = ob_address coin" "or_version (tx_gas_coin tx) = ob_version coin"
    using gas_coin_usable [OF coin] by (simp_all add: usable_def object_ref_of_def)
  have "get_object s' (ob_address coin) \<in> {None, Some coin'}"
    using by_address_last [of others coin'] changed
    by (auto simp: apply_execution_result_Ok(2) [OF assms(2)] applied_def restrict_map_def map_add_def)
  then have "find_object inputs' (or_address (tx_gas_coin tx)) \<in> {None, Some coin'}"
    using assms(3) find_object_SomeD ref(1)
    by (cases "find_object inputs' (or_address (tx_gas_coin tx))") fastforce+
  then have "\<exists>e. resolve_gas_coin_object x (tx_gas_coin tx) (tx_sender tx) inputs' = Inl e"
    using version_next_neq [OF v] ref(2) by (auto simp: resolve_gas_coin_object_def)
  then show ?thesis by (auto simp: execute_def)
qed

theorem execute_no_replay_witness:
  "\<exists>s' e. apply_execution_result gift_result gift_store = Ok s' \<and>
     execute 10 gift_ext gift_tx (er_changed gift_result) external_context_default = Some (Err (Fail e))"
  by (rule gift_applied) (use execute_no_replay [OF gift_executes] in blast)

end
