(* ===== verification/Executor_Gaps.thy ===== *)
theory Executor_Gaps
  imports Sample_Execution
begin

text \<open>
  What the executor does not check.  An object argument is resolved by its owner, version and digest,
  but not by its type: any object of the sender is accepted for any struct parameter.
\<close>

section \<open>Types of object arguments\<close>

lemma resolve_args_from_types:
  "list_all2 (\<lambda>(i, _, t) (j, _, u). i = j \<and> ((\<exists>r. i = InObject r) \<or> t = u)) args args' \<Longrightarrow>
     resolve_args_from x k args sender inputs = resolve_args_from x k args' sender inputs"
proof (induction args args' arbitrary: k rule: list_all2_induct)
  case (Cons a args b args')
  then have "resolve_arg x (fst a) (snd (snd a)) sender inputs = resolve_arg x (fst b) (snd (snd b)) sender inputs"
    by (auto simp: resolve_arg_def split: input.splits)
  with Cons show ?case by (cases a; cases b) (auto split: sum.splits fault.splits)
qed simp

text \<open>C23. The types of the parameters that receive objects have no influence on the resolution of the arguments:
  two functions with the same number of parameters, whose types differ only where an object is passed, get the
  same values and objects, or the same error, for every call.\<close>

theorem object_argument_type_unchecked:
  assumes "length (fn_params f) = length (fn_params g)"
    and "\<And>i. i < length (ca_arguments c) \<Longrightarrow>
      (\<exists>r. ca_arguments c ! i = InObject r) \<or> snd (fn_params f ! i) = snd (fn_params g ! i)"
  shows "resolve_args x c f sender inputs = resolve_args x c g sender inputs"
proof -
  have "list_all2 (\<lambda>(i, _, t) (j, _, u). i = j \<and> ((\<exists>r. i = InObject r) \<or> t = u))
      (zip (ca_arguments c) (fn_params f)) (zip (ca_arguments c) (fn_params g))"
    using assms by (auto simp: list_all2_conv_all_nth split: prod.split) (metis snd_conv)
  from resolve_args_from_types [OF this] show ?thesis using assms(1) by (simp add: resolve_args_def)
qed

section \<open>Objects of another type\<close>

text \<open>The struct of \<open>meow_object\<close>, and a module that declares a struct with the fields of a coin.\<close>

definition id_module :: module where
  "id_module = \<lparr>md_name = ''meow_object'', md_imports = [],
     md_structs = [\<lparr>sd_name = ''Id'', sd_fields = [\<lparr>fd_name = ''inner'', fd_ty = TAddress\<rparr>], sd_is_public = True\<rparr>],
     md_functions = []\<rparr>"

definition forge_module :: module where
  "forge_module = \<lparr>md_name = ''forge'', md_imports = [MEOW_OBJECT_MODULE_ADDRESS],
     md_structs = [\<lparr>sd_name = ''Fake'',
       sd_fields = [\<lparr>fd_name = ''id'', fd_ty = TStruct MEOW_OBJECT_ID_BYTECODE_TYPE_NAME\<rparr>,
                    \<lparr>fd_name = ''balance'', fd_ty = TU64\<rparr>], sd_is_public = True\<rparr>],
     md_functions = [\<lparr>fn_name = ''inflate'', fn_is_public = True,
       fn_params = [(''c'', TStruct ''Fake'')], fn_return_type = None, fn_local_count = 1,
       fn_code = [PushU64 1000000, StoreField 0 [''balance''], Load 0, Call NATIVE_FN_SENDER,
         Call NATIVE_FN_TRANSFER, Pop, Return]\<rparr>]\<rparr>"

definition forge_ext :: chain_ext where
  "forge_ext = sample_ext\<lparr>cx_module_de :=
     (\<lambda>bs. if bs = [1] then Ok forge_module else if bs = [2] then Ok id_module else Err ''module'')\<rparr>"

text \<open>A second coin of the sender, with a balance of one.\<close>

definition small_coin :: object where
  "small_coin = (sample_coin 1)\<lparr>ob_address := address_suffixed 0x55\<rparr>"

definition forge_inputs :: "object list" where
  "forge_inputs = [sample_coin 5000, small_coin, fresh_module (address_suffixed 7) digest_zero [1],
     fresh_module MEOW_OBJECT_MODULE_ADDRESS digest_zero [2]]"

definition forge_tx :: transaction where
  "forge_tx =
     \<lparr>tx_sender = sample_sender, tx_gas_coin = object_ref_of forge_ext (sample_coin 5000),
      tx_type = MeowCall \<lparr>ca_module = address_suffixed 7, ca_function = Identifier ''inflate'',
        ca_arguments = [InObject (object_ref_of forge_ext small_coin)]\<rparr>\<rparr>"

definition forged_coin :: object where
  "forged_coin = (sample_coin 1000000)\<lparr>ob_address := address_suffixed 0x55, ob_version := 2,
     ob_transaction := transaction_digest forge_ext forge_tx\<rparr>"

definition forge_result :: execution_result where
  "forge_result =
     \<lparr>er_status = Success, er_transaction_digest = transaction_digest forge_ext forge_tx, er_created = [],
      er_changed = [forged_coin,
         (sample_coin 3929)\<lparr>ob_version := 2, ob_transaction := transaction_digest forge_ext forge_tx\<rparr>],
      er_destroyed = [], er_gas_used = 1071\<rparr>"

lemma forge_verified:
  "verify std_hex_codec forge_module [(MEOW_OBJECT_MODULE_ADDRESS, id_module)] adapter_native_sigs
     compiler_config_chain = Ok ()"
  by code_simp

lemma forge_adapter_verified:
  "adapter_verify std_hex_codec forge_module [(MEOW_OBJECT_MODULE_ADDRESS, id_module)] adapter_native_sigs = Ok ()"
  by code_simp

lemma forge_executes:
  "execute 10 forge_ext forge_tx forge_inputs external_context_default = Some (Ok forge_result)"
  by code_simp

lemma coin_balance_forge:
  "balance_from_object forge_ext ((sample_coin b)\<lparr>ob_address := a, ob_version := v, ob_transaction := d\<rparr>) = Some b"
  "balance_from_object forge_ext ((sample_coin b)\<lparr>ob_address := a\<rparr>) = Some b"
  using sample_coin_balance [of b]
  by (auto simp: balance_from_object_def is_meow_coin_object_def forge_ext_def split: if_splits)

text \<open>What follows: a module whose own struct has the fields of a coin is accepted by both verifiers, and its
  function, called with a coin of balance one, returns the coin, still of the coin type, with a balance of a
  million.\<close>

lemma coin_forged:
  "verify (cx_hex forge_ext) forge_module [(MEOW_OBJECT_MODULE_ADDRESS, id_module)] adapter_native_sigs
     compiler_config_chain = Ok () \<and>
   adapter_verify (cx_hex forge_ext) forge_module [(MEOW_OBJECT_MODULE_ADDRESS, id_module)] adapter_native_sigs =
     Ok () \<and>
   execute 10 forge_ext forge_tx forge_inputs external_context_default = Some (Ok forge_result) \<and>
   small_coin \<in> set forge_inputs \<and> balance_from_object forge_ext small_coin = Some 1 \<and>
   forged_coin \<in> set (er_changed forge_result) \<and> ob_address forged_coin = ob_address small_coin \<and>
   ob_type forged_coin = ObjectTy coin_decl \<and> balance_from_object forge_ext forged_coin = Some 1000000"
proof -
  have "cx_hex forge_ext = std_hex_codec" by (simp add: forge_ext_def)
  then show ?thesis
    using forge_verified forge_adapter_verified forge_executes
    by (simp add: forge_inputs_def small_coin_def forged_coin_def forge_result_def coin_balance_forge
        sample_coin_type)
qed

text \<open>The forging function and one that takes a real coin get the same arguments.\<close>

definition take_coin :: fn where
  "take_coin = (hd (md_functions forge_module))\<lparr>fn_params := [(''c'', TStruct MEOW_COIN_OBJECT_BYTECODE_TYPE_NAME)]\<rparr>"

theorem object_argument_type_unchecked_witness:
  "\<exists>v. resolve_args forge_ext \<lparr>ca_module = address_suffixed 7, ca_function = Identifier ''inflate'',
        ca_arguments = [InObject (object_ref_of forge_ext small_coin)]\<rparr> (hd (md_functions forge_module)) sample_sender
        forge_inputs = Ok v \<and>
     resolve_args forge_ext \<lparr>ca_module = address_suffixed 7, ca_function = Identifier ''inflate'',
        ca_arguments = [InObject (object_ref_of forge_ext small_coin)]\<rparr> take_coin sample_sender forge_inputs = Ok v"
proof -
  let ?c = "\<lparr>ca_module = address_suffixed 7, ca_function = Identifier ''inflate'',
        ca_arguments = [InObject (object_ref_of forge_ext small_coin)]\<rparr>"
  have "\<not> isl (resolve_args forge_ext ?c (hd (md_functions forge_module)) sample_sender forge_inputs)" by code_simp
  moreover have "resolve_args forge_ext ?c (hd (md_functions forge_module)) sample_sender forge_inputs =
      resolve_args forge_ext ?c take_coin sample_sender forge_inputs"
    by (rule object_argument_type_unchecked) (simp_all add: forge_module_def take_coin_def)
  ultimately show ?thesis by (metis isl_def sum.exhaust)
qed

end
