(* ===== verification/System_Transactions.thy ===== *)
theory System_Transactions
  imports Executor Store
begin

text \<open>
  The block reward: \<open>meow-nakamoto/src/system_transactions.rs\<close>.  A reward transaction is a call of
  \<open>meow_coin::mint\<close>, made unique by the mining hash in its placeholder gas coin.
\<close>

text \<open>A function that panics but has no error of its own gives \<open>string + 'a\<close>; its callers pass the panic on.\<close>

definition or_panic :: "string + 'a \<Rightarrow> 'e fault + 'a" where
  "or_panic r = (case r of Inl m \<Rightarrow> Err (Panicked m) | Inr a \<Rightarrow> Ok a)"

lemma or_panic_Inr [simp]: "or_panic r = Inr a \<longleftrightarrow> r = Inr a"
  by (auto simp: or_panic_def split: sum.splits)

definition make_reward_transaction ::
    "chain_ext \<Rightarrow> address \<Rightarrow> address \<Rightarrow> u64 \<Rightarrow> digest \<Rightarrow> transaction" where
  "make_reward_transaction x signer reward_address amount mining_block_hash =
     \<lparr>tx_sender = signer,
      tx_gas_coin = \<lparr>or_address = address_zero, or_version = VERSION_ZERO, or_digest = mining_block_hash\<rparr>,
      tx_type = MeowCall
        \<lparr>ca_module = MEOW_COIN_MODULE_ADDRESS, ca_function = Identifier MEOW_COIN_MINT_FUNCTION_NAME,
         ca_arguments = [InRaw (cx_u64 x amount), InRaw (cx_address x reward_address)]\<rparr>\<rparr>"

definition is_valid_reward_transaction :: "chain_ext \<Rightarrow> transaction \<Rightarrow> u64 \<Rightarrow> digest \<Rightarrow> bool" where
  "is_valid_reward_transaction x tx expected_amount mining_block_hash =
     (case tx_type tx of
        MeowModulePublish _ \<Rightarrow> False
      | MeowCall c \<Rightarrow>
          if or_address (tx_gas_coin tx) \<noteq> address_zero \<or> or_version (tx_gas_coin tx) \<noteq> VERSION_ZERO \<or>
             or_digest (tx_gas_coin tx) \<noteq> mining_block_hash then False
          else if ca_module c \<noteq> MEOW_COIN_MODULE_ADDRESS then False
          else if ident_str (ca_function c) \<noteq> MEOW_COIN_MINT_FUNCTION_NAME then False
          else
            (case ca_arguments c of
               [InRaw amount_bytes, InRaw addr_bytes] \<Rightarrow>
                 (case cx_u64_de x amount_bytes of
                    Inl _ \<Rightarrow> False
                  | Inr n \<Rightarrow> n = expected_amount \<and> (case cx_address_de x addr_bytes of Inl _ \<Rightarrow> False | Inr _ \<Rightarrow> True))
             | _ \<Rightarrow> False))"

text \<open>Both framework modules are installed at genesis; a store without them makes the code panic.\<close>

definition collect_inputs_for_reward_transaction :: "store \<Rightarrow> string + object list" where
  "collect_inputs_for_reward_transaction s =
     (let get = (\<lambda>a. ok_or (get_object s a) ''framework module must be present in store'') in
      and_then (get MEOW_OBJECT_MODULE_ADDRESS) (\<lambda>o1.
      and_then (get MEOW_COIN_MODULE_ADDRESS) (\<lambda>o2. Ok [o1, o2])))"

definition execute_reward_transaction ::
    "nat \<Rightarrow> chain_ext \<Rightarrow> transaction \<Rightarrow> store \<Rightarrow> (executor_error fault + execution_result) option" where
  "execute_reward_transaction k x tx s =
     (case collect_inputs_for_reward_transaction s of
        Inl m \<Rightarrow> Some (Err (Panicked m))
      | Inr inputs \<Rightarrow> execute_system_transaction k x tx inputs)"

section \<open>Rewards\<close>

lemma mint_identifier: "identifier_new MEOW_COIN_MINT_FUNCTION_NAME = Ok (Identifier MEOW_COIN_MINT_FUNCTION_NAME)"
  by code_simp

text \<open>What a valid reward transaction mints, and to whom.\<close>

definition mints :: "chain_ext \<Rightarrow> transaction \<Rightarrow> u64 \<Rightarrow> address \<Rightarrow> bool" where
  "mints x tx amount owner \<longleftrightarrow>
     (\<exists>c bs cs. tx_type tx = MeowCall c \<and> ca_module c = MEOW_COIN_MODULE_ADDRESS \<and>
        ident_str (ca_function c) = MEOW_COIN_MINT_FUNCTION_NAME \<and> ca_arguments c = [InRaw bs, InRaw cs] \<and>
        cx_u64_de x bs = Ok amount \<and> cx_address_de x cs = Ok owner)"

lemma two_raw_iff:
  "(case args of [InRaw bs, InRaw cs] \<Rightarrow> P bs cs | _ \<Rightarrow> False) \<longleftrightarrow>
     (\<exists>bs cs. args = [InRaw bs, InRaw cs] \<and> P bs cs)"
  by (cases args; cases "tl args"; cases "tl (tl args)"; cases "hd args"; cases "hd (tl args)") auto

lemma decoded_iff: "(case r of Inl _ \<Rightarrow> False | Inr v \<Rightarrow> P v) \<longleftrightarrow> (\<exists>v. r = Inr v \<and> P v)"
  by (cases r) auto

lemma is_valid_reward_transaction_iff:
  "is_valid_reward_transaction x tx amount d \<longleftrightarrow>
     (\<exists>owner. mints x tx amount owner) \<and>
     tx_gas_coin tx = \<lparr>or_address = address_zero, or_version = VERSION_ZERO, or_digest = d\<rparr>"
proof -
  have coin: "tx_gas_coin tx = \<lparr>or_address = address_zero, or_version = VERSION_ZERO, or_digest = d\<rparr> \<longleftrightarrow>
      or_address (tx_gas_coin tx) = address_zero \<and> or_version (tx_gas_coin tx) = VERSION_ZERO \<and>
      or_digest (tx_gas_coin tx) = d"
    by (cases "tx_gas_coin tx") simp
  show ?thesis
    unfolding coin is_valid_reward_transaction_def mints_def two_raw_iff decoded_iff
    by (cases "tx_type tx") auto
qed

end
