(* ===== verification/Proof_Of_Work.thy ===== *)
theory Proof_Of_Work
  imports Chain_Types "HOL-Library.Code_Target_Nat"
begin

text \<open>
  The difficulty of a block: \<open>meets_difficulty\<close> and \<open>leading_zeros\<close> of
  \<open>meow-nakamoto-types/src/block_header.rs\<close>, and their meaning as a bound on the mining hash read as a
  number.
\<close>

text \<open>\<open>u8::leading_zeros\<close>\<close>

definition byte_leading_zeros :: "u8 \<Rightarrow> nat" where
  "byte_leading_zeros b = length (takeWhile (\<lambda>i. \<not> bit b i) (rev [0..<8]))"

fun leading_zeros_from :: "bytes \<Rightarrow> u32 \<Rightarrow> u32" where
  "leading_zeros_from [] acc = acc"
| "leading_zeros_from (b # bs) acc =
     (let lz = byte_leading_zeros b; acc = acc + word_of_nat lz in
      if lz < 8 then acc else leading_zeros_from bs acc)"

definition leading_zeros :: "digest \<Rightarrow> u32" where
  "leading_zeros d = leading_zeros_from (digest_bytes d) 0"

definition meets_difficulty :: "chain_ext \<Rightarrow> block_header \<Rightarrow> u32 \<Rightarrow> bool" where
  "meets_difficulty x h difficulty \<longleftrightarrow> difficulty \<le> leading_zeros (mining_hash x h)"

section \<open>The hash as a number\<close>

primrec be_value :: "bytes \<Rightarrow> nat" where
  "be_value [] = 0"
| "be_value (b # bs) = unat b * 256 ^ length bs + be_value bs"

fun lz_nat :: "bytes \<Rightarrow> nat" where
  "lz_nat [] = 0"
| "lz_nat (b # bs) = (let lz = byte_leading_zeros b in if lz < 8 then lz else 8 + lz_nat bs)"

lemma byte_leading_zeros_le: "byte_leading_zeros b \<le> 8"
  unfolding byte_leading_zeros_def by (rule order_trans [OF length_takeWhile_le]) simp

lemma le_length_takeWhile:
  "n \<le> length (takeWhile P xs) \<longleftrightarrow> n \<le> length xs \<and> (\<forall>i < n. P (xs ! i))"
proof (induction xs arbitrary: n)
  case (Cons x xs)
  then show ?case by (cases n) (auto simp: All_less_Suc2)
qed auto

lemma byte_less_iff:
  fixes b :: u8
  shows "unat b < 2 ^ m \<longleftrightarrow> (\<forall>j < 8. m \<le> j \<longrightarrow> \<not> bit b j)"
proof -
  have "unat b < 2 ^ m \<longleftrightarrow> take_bit m b = b"
    by (simp add: word_unat_eq_iff unsigned_take_bit_eq take_bit_nat_eq_self_iff)
  also have "\<dots> \<longleftrightarrow> (\<forall>j. m \<le> j \<longrightarrow> \<not> bit b j)"
    using bit_imp_le_length [of b] by (auto simp: bit_eq_iff bit_take_bit_iff not_less) (meson not_less)+
  finally show ?thesis using bit_imp_le_length [of b] by auto
qed

lemma digit_less:
  fixes a c r w :: nat
  assumes "r < w"
  shows "a * w + r < c * w \<longleftrightarrow> a < c"
proof -
  have "(a * w + r) div w = a" using assms by simp
  then show ?thesis using assms div_less_iff_less_mult [of w "a * w + r" c] by auto
qed

lemma byte_leading_zeros_bound:
  assumes "n \<le> 8"
  shows "n \<le> byte_leading_zeros b \<longleftrightarrow> unat b < 2 ^ (8 - n)"
proof -
  have "n \<le> byte_leading_zeros b \<longleftrightarrow> (\<forall>i < n. \<not> bit b (7 - i))"
    using assms by (auto simp: byte_leading_zeros_def le_length_takeWhile rev_nth)
  also have "\<dots> \<longleftrightarrow> (\<forall>j < 8. 8 - n \<le> j \<longrightarrow> \<not> bit b j)"
  proof (intro iffI allI impI)
    fix j :: nat
    assume "\<forall>i < n. \<not> bit b (7 - i)" "j < 8" "8 - n \<le> j"
    then show "\<not> bit b j" using assms by (auto dest: spec [of _ "7 - j"])
  next
    fix i
    assume "\<forall>j < 8. 8 - n \<le> j \<longrightarrow> \<not> bit b j" "i < n"
    then show "\<not> bit b (7 - i)" using assms by (auto dest: spec [of _ "7 - i"])
  qed
  finally show ?thesis by (simp only: byte_less_iff)
qed

lemma be_value_less: "be_value bs < 256 ^ length bs"
proof (induction bs)
  case (Cons b bs)
  have "unat b < 256" using unsigned_less [of b] by simp
  with digit_less [OF Cons, of "unat b" 256] show ?case by simp
qed simp

lemma lz_nat_bound:
  "n \<le> 8 * length bs \<Longrightarrow> n \<le> lz_nat bs \<longleftrightarrow> be_value bs < 2 ^ (8 * length bs - n)"
proof (induction bs arbitrary: n)
  case Nil
  then show ?case by simp
next
  case (Cons b bs)
  let ?w = "256 ^ length bs :: nat"
  have w: "?w = 2 ^ (8 * length bs)" by (simp add: power_mult)
  show ?case
  proof (cases "n \<le> 8")
    case True
    have "n \<le> lz_nat (b # bs) \<longleftrightarrow> n \<le> byte_leading_zeros b"
      using True byte_leading_zeros_le [of b] by (auto simp: Let_def)
    also have "\<dots> \<longleftrightarrow> unat b < 2 ^ (8 - n)" by (rule byte_leading_zeros_bound [OF True])
    also have "\<dots> \<longleftrightarrow> unat b * ?w + be_value bs < 2 ^ (8 - n) * ?w"
      by (rule digit_less [symmetric]) (rule be_value_less)
    also have "2 ^ (8 - n) * ?w = 2 ^ (8 * length (b # bs) - n)"
      using True by (simp add: w power_add [symmetric])
    finally show ?thesis by simp
  next
    case False
    have "n \<le> lz_nat (b # bs) \<longleftrightarrow> byte_leading_zeros b = 8 \<and> n - 8 \<le> lz_nat bs"
      using False byte_leading_zeros_le [of b] by (auto simp: Let_def)
    also have "byte_leading_zeros b = 8 \<longleftrightarrow> unat b = 0"
      using byte_leading_zeros_bound [of 8 b] byte_leading_zeros_le [of b] by simp
    also have "n - 8 \<le> lz_nat bs \<longleftrightarrow> be_value bs < 2 ^ (8 * length bs - (n - 8))"
      by (rule Cons.IH) (use Cons.prems in simp)
    also have "unat b = 0 \<and> be_value bs < 2 ^ (8 * length bs - (n - 8)) \<longleftrightarrow>
        be_value (b # bs) < 2 ^ (8 * length (b # bs) - n)"
    proof -
      have "(2 :: nat) ^ (8 * length bs - (n - 8)) \<le> ?w" unfolding w by (rule power_increasing) auto
      then have "unat b = 0" if "unat b * ?w + be_value bs < 2 ^ (8 * length bs - (n - 8))"
        using that digit_less [of "be_value bs" ?w "unat b" 1] be_value_less [of bs] by linarith
      moreover have "8 * length (b # bs) - n = 8 * length bs - (n - 8)" using False by simp
      ultimately show ?thesis by auto
    qed
    finally show ?thesis .
  qed
qed

lemma lz_nat_le: "lz_nat bs \<le> 8 * length bs"
  by (induction bs) (auto simp: Let_def)

lemma leading_zeros_from_eq: "leading_zeros_from bs acc = acc + word_of_nat (lz_nat bs)"
  by (induction bs acc rule: leading_zeros_from.induct)
    (auto simp: Let_def not_less dest: antisym [OF byte_leading_zeros_le])

lemma unat_leading_zeros: "unat (leading_zeros d) = lz_nat (digest_bytes d)"
proof -
  have "lz_nat (digest_bytes d) \<le> 256"
    using lz_nat_le [of "digest_bytes d"] by (simp add: digest_bytes_def)
  then show ?thesis
    by (simp add: leading_zeros_def leading_zeros_from_eq unat_of_nat take_bit_nat_eq_self_iff)
qed

text \<open>C32. A block meets the difficulty exactly when its mining hash, read as a 256-bit big-endian number,
  is below two to the power of 256 minus the difficulty; no hash meets a difficulty above 256.\<close>

theorem meets_difficulty_iff:
  "meets_difficulty x h difficulty \<longleftrightarrow>
     unat difficulty \<le> 256 \<and> be_value (digest_bytes (mining_hash x h)) < 2 ^ (256 - unat difficulty)"
proof -
  let ?bs = "digest_bytes (mining_hash x h)"
  have len: "8 * length ?bs = 256" by (simp add: digest_bytes_def)
  have "meets_difficulty x h difficulty \<longleftrightarrow> unat difficulty \<le> lz_nat ?bs"
    by (simp add: meets_difficulty_def word_le_nat_alt unat_leading_zeros)
  moreover have "lz_nat ?bs \<le> 256" using lz_nat_le [of ?bs] len by simp
  ultimately show ?thesis using lz_nat_bound [of "unat difficulty" ?bs] len by auto
qed

end
