(* ===== verification/Chain_State.thy ===== *)
theory Chain_State
  imports System_Transactions Proof_Of_Work Tx_Validator
begin

text \<open>
  The chain of blocks: \<open>meow-nakamoto/src/chain\<close>.  The clock is the argument \<open>now\<close>, a panic is a
  \<open>Panicked\<close> fault, \<open>k\<close> bounds the steps of each VM call, and \<open>u64\<close> sums wrap as in a release build.
\<close>

datatype chain_error =
    AlreadyKnown
  | EmptyBlock
  | DuplicateTransaction
  | ExecutionFailed
  | InvalidHeight u64 u64
  | InconsistentReward
  | InvalidReward
  | InvalidSignature
  | PowCheckFailed
  | ResultsCountMismatch
  | ResultsMismatch
  | RewardRootMismatch
  | SnapshotNotAdvancing u64 u64
  | StateRootMismatch
  | TimestampNotAdvancing
  | TimestampTooFarInFuture
  | TooManyTransactions nat nat
  | TransactionsRootMismatch
  | UnknownParent

record chain_state =
  ch_blocks :: "(digest, block) mapping"
  ch_snapshots :: "(digest, store) mapping"
  ch_head :: digest
  ch_difficulty :: u32
  ch_snapshot_depth :: u64

definition MAX_BLOCK_FUTURE_DRIFT_MS :: u64 where
  "MAX_BLOCK_FUTURE_DRIFT_MS = 120000"

definition chain_new :: "chain_ext \<Rightarrow> store \<Rightarrow> u32 \<Rightarrow> u64 \<Rightarrow> chain_state" where
  "chain_new x initial_store difficulty snapshot_depth =
     (let genesis_hash = block_hash x block_genesis in
      \<lparr>ch_blocks = Mapping.update genesis_hash block_genesis Mapping.empty,
       ch_snapshots = Mapping.update genesis_hash initial_store Mapping.empty,
       ch_head = genesis_hash, ch_difficulty = difficulty, ch_snapshot_depth = snapshot_depth\<rparr>)"

section \<open>Structural checks\<close>

fun no_duplicates :: "chain_ext \<Rightarrow> digest set \<Rightarrow> signed_transaction list \<Rightarrow> chain_error + unit" where
  "no_duplicates x seen [] = Ok ()"
| "no_duplicates x seen (st # sts) =
     (let d = transaction_digest x (st_transaction st) in
      if d \<in> seen then Err DuplicateTransaction else no_duplicates x (insert d seen) sts)"

definition reward_root_of :: "chain_ext \<Rightarrow> block \<Rightarrow> digest option" where
  "reward_root_of x b = map_option (\<lambda>st. transaction_digest x (st_transaction st)) (bl_reward_transaction b)"

definition validate_block_structure :: "chain_ext \<Rightarrow> u64 \<Rightarrow> block \<Rightarrow> u32 \<Rightarrow> chain_error + unit" where
  "validate_block_structure x now b difficulty =
     (let h = bl_header b; tx_count = length (bl_transactions b) in
      if tx_count = 0 then Err EmptyBlock
      else if tx_count > MAX_TRANSACTIONS_PER_BLOCK
      then Err (TooManyTransactions MAX_TRANSACTIONS_PER_BLOCK tx_count)
      else and_then (no_duplicates x {} (bl_transactions b)) (\<lambda>_.
        if bh_timestamp h > now + MAX_BLOCK_FUTURE_DRIFT_MS then Err TimestampTooFarInFuture
        else if length (bl_results b) \<noteq> tx_count then Err ResultsCountMismatch
        else if (bl_reward_transaction b \<noteq> None) \<noteq> (bl_reward_transaction_result b \<noteq> None)
        then Err InconsistentReward
        else if bh_height h > 0 \<and> \<not> meets_difficulty x h difficulty then Err PowCheckFailed
        else if compute_transactions_root x (bl_transactions b) \<noteq> bh_transactions_root h
        then Err TransactionsRootMismatch
        else if reward_root_of x b \<noteq> bh_reward_root h then Err RewardRootMismatch
        else Ok ()))"

section \<open>The head\<close>

definition head_block :: "chain_state \<Rightarrow> string + block" where
  "head_block c = ok_or (Mapping.lookup (ch_blocks c) (ch_head c)) ''head always exists''"

definition head_height :: "chain_state \<Rightarrow> string + u64" where
  "head_height c = and_then (head_block c) (\<lambda>b. Ok (bh_height (bl_header b)))"

definition sync_from_height :: "chain_state \<Rightarrow> string + u64" where
  "sync_from_height c = and_then (head_height c) (\<lambda>h. Ok (saturating_sub h (ch_snapshot_depth c)))"

definition head_store :: "chain_state \<Rightarrow> string + store" where
  "head_store c = ok_or (Mapping.lookup (ch_snapshots c) (ch_head c)) ''head snapshot always exists''"

definition prune_finalized_blocks :: "chain_state \<Rightarrow> string + chain_state" where
  "prune_finalized_blocks c =
     and_then (head_height c) (\<lambda>height.
       if height \<le> ch_snapshot_depth c then Ok c
       else
         let cutoff = height - ch_snapshot_depth c;
             to_remove = filter
               (\<lambda>hash. case Mapping.lookup (ch_blocks c) hash of
                  Some b \<Rightarrow> bh_height (bl_header b) < cutoff | None \<Rightarrow> False)
               (Mapping.ordered_keys (ch_blocks c))
         in Ok (c\<lparr>ch_blocks := fold Mapping.delete to_remove (ch_blocks c),
                  ch_snapshots := fold Mapping.delete to_remove (ch_snapshots c)\<rparr>))"

definition insert_block :: "digest \<Rightarrow> block \<Rightarrow> store \<Rightarrow> chain_state \<Rightarrow> chain_state" where
  "insert_block hash b s c =
     c\<lparr>ch_blocks := Mapping.update hash b (ch_blocks c),
       ch_snapshots := Mapping.update hash s (ch_snapshots c)\<rparr>"

definition commit :: "chain_ext \<Rightarrow> u64 \<Rightarrow> block \<Rightarrow> store \<Rightarrow> chain_state \<Rightarrow> string + chain_state" where
  "commit x now b new_store c =
     (case validate_block_structure x now b (ch_difficulty c) of
        Inl _ \<Rightarrow> Err ''commit called with structurally invalid block''
      | Inr _ \<Rightarrow>
          let hash = block_hash x b in
          prune_finalized_blocks ((insert_block hash b new_store c)\<lparr>ch_head := hash\<rparr>))"

definition from_snapshot ::
    "chain_ext \<Rightarrow> u64 \<Rightarrow> u64 \<Rightarrow> block \<Rightarrow> store \<Rightarrow> u32 \<Rightarrow> u64 \<Rightarrow> chain_error + chain_state" where
  "from_snapshot x now current_head_height b s difficulty snapshot_depth =
     (let snap_height = bh_height (bl_header b) in
      if snap_height \<le> current_head_height then Err (SnapshotNotAdvancing snap_height current_head_height)
      else and_then (validate_block_structure x now b difficulty) (\<lambda>_.
        let hash = block_hash x b in
        if compute_state_root x s \<noteq> bh_state_root (bl_header b) then Err StateRootMismatch
        else Ok \<lparr>ch_blocks = Mapping.update hash b Mapping.empty,
                 ch_snapshots = Mapping.update hash s Mapping.empty,
                 ch_head = hash, ch_difficulty = difficulty, ch_snapshot_depth = snapshot_depth\<rparr>))"

section \<open>Blocks of peers\<close>

text \<open>The execution of one transaction of a block on the store, and of all of them.\<close>

definition block_context :: "chain_ext \<Rightarrow> block_header \<Rightarrow> external_context" where
  "block_context x h = \<lparr>ec_rand_seed = digest_bytes (mining_hash x h), ec_timestamp = bh_timestamp h\<rparr>"

definition run_transaction ::
    "nat \<Rightarrow> chain_ext \<Rightarrow> external_context \<Rightarrow> transaction \<Rightarrow> store
       \<Rightarrow> (executor_error fault + (execution_result \<times> store)) option" where
  "run_transaction k x ec tx s =
     (case execute k x tx (collect_inputs x tx (get_object s)) ec of
        None \<Rightarrow> None
      | Some (Inl e) \<Rightarrow> Some (Err e)
      | Some (Inr r) \<Rightarrow>
          (case apply_execution_result r s of
             Inl m \<Rightarrow> Some (Err (Panicked m))
           | Inr s \<Rightarrow> Some (Ok (r, s))))"

fun reexecute ::
    "nat \<Rightarrow> chain_ext \<Rightarrow> external_context \<Rightarrow> signed_transaction list \<Rightarrow> store
       \<Rightarrow> (chain_error fault + (execution_result list \<times> store)) option" where
  "reexecute k x ec [] s = Some (Ok ([], s))"
| "reexecute k x ec (st # sts) s =
     (case run_transaction k x ec (st_transaction st) s of
        None \<Rightarrow> None
      | Some (Inl (Fail _)) \<Rightarrow> Some (Err (Fail ExecutionFailed))
      | Some (Inl (Panicked m)) \<Rightarrow> Some (Err (Panicked m))
      | Some (Inr (r, s)) \<Rightarrow>
          map_option (\<lambda>res. and_then res (\<lambda>(rs, s). Ok (r # rs, s))) (reexecute k x ec sts s))"

text \<open>\<open>None\<close> in the result is the code's \<open>false\<close>.\<close>

definition apply_block_reward_transaction ::
    "nat \<Rightarrow> chain_ext \<Rightarrow> signed_transaction \<Rightarrow> execution_result \<Rightarrow> u64 \<Rightarrow> digest \<Rightarrow> store
       \<Rightarrow> (chain_error fault + store option) option" where
  "apply_block_reward_transaction k x st reward_result total_gas mining_block_hash s =
     (case validate_signed_transaction x st of
        Inl _ \<Rightarrow> Some (Ok None)
      | Inr _ \<Rightarrow>
          if \<not> is_valid_reward_transaction x (st_transaction st) total_gas mining_block_hash
          then Some (Ok None)
          else
            (case execute_reward_transaction k x (st_transaction st) s of
               None \<Rightarrow> None
             | Some (Inl (Fail _)) \<Rightarrow> Some (Ok None)
             | Some (Inl (Panicked m)) \<Rightarrow> Some (Err (Panicked m))
             | Some (Inr r) \<Rightarrow>
                 if r \<noteq> reward_result then Some (Ok None)
                 else (case apply_execution_result r s of
                         Inl m \<Rightarrow> Some (Err (Panicked m))
                       | Inr s \<Rightarrow> Some (Ok (Some s)))))"

definition apply_reward ::
    "nat \<Rightarrow> chain_ext \<Rightarrow> block \<Rightarrow> u64 \<Rightarrow> store \<Rightarrow> (chain_error fault + store option) option" where
  "apply_reward k x b total_gas s =
     (case (bl_reward_transaction b, bl_reward_transaction_result b) of
        (None, None) \<Rightarrow> Some (Ok (if total_gas = 0 then Some s else None))
      | (Some st, Some r) \<Rightarrow>
          if total_gas = 0 then Some (Ok None)
          else apply_block_reward_transaction k x st r total_gas (mining_hash x (bl_header b)) s
      | _ \<Rightarrow> Some (Ok None))"

text \<open>The store after a block, when the results, the reward and the state root are as the block says.\<close>

definition replay_block :: "nat \<Rightarrow> chain_ext \<Rightarrow> block \<Rightarrow> store \<Rightarrow> (chain_error fault + store) option" where
  "replay_block k x b parent_snapshot =
     (case reexecute k x (block_context x (bl_header b)) (bl_transactions b) parent_snapshot of
        None \<Rightarrow> None
      | Some (Inl e) \<Rightarrow> Some (Err e)
      | Some (Inr (recomputed_results, new_store)) \<Rightarrow>
          if recomputed_results \<noteq> bl_results b then Some (Err (Fail ResultsMismatch))
          else
            (case apply_reward k x b (sum_list (map er_gas_used recomputed_results)) new_store of
               None \<Rightarrow> None
             | Some (Inl e) \<Rightarrow> Some (Err e)
             | Some (Inr None) \<Rightarrow> Some (Err (Fail InvalidReward))
             | Some (Inr (Some new_store)) \<Rightarrow>
                 if compute_state_root x new_store \<noteq> bh_state_root (bl_header b)
                 then Some (Err (Fail StateRootMismatch))
                 else Some (Ok new_store)))"

definition adopt_block :: "digest \<Rightarrow> block \<Rightarrow> store \<Rightarrow> chain_state \<Rightarrow> string + (bool \<times> chain_state)" where
  "adopt_block hash b s c =
     (let c = insert_block hash b s c in
      and_then (head_height c) (\<lambda>height.
        if bh_height (bl_header b) > height
        then and_then (prune_finalized_blocks (c\<lparr>ch_head := hash\<rparr>)) (\<lambda>c. Ok (True, c))
        else Ok (False, c)))"

definition apply_block ::
    "nat \<Rightarrow> chain_ext \<Rightarrow> u64 \<Rightarrow> block \<Rightarrow> chain_state \<Rightarrow> (chain_error fault + (bool \<times> chain_state)) option" where
  "apply_block k x now b c =
     (let hash = block_hash x b; h = bl_header b; fail = (\<lambda>e. Some (Err (Fail e))) in
      if Mapping.lookup (ch_blocks c) hash \<noteq> None then fail AlreadyKnown
      else case Mapping.lookup (ch_blocks c) (bh_parent_hash h) of
        None \<Rightarrow> fail UnknownParent
      | Some parent \<Rightarrow>
          (case validate_block_structure x now b (ch_difficulty c) of
             Inl e \<Rightarrow> fail e
           | Inr _ \<Rightarrow>
               let expected = bh_height (bl_header parent) + 1 in
               if bh_height h \<noteq> expected then fail (InvalidHeight expected (bh_height h))
               else if bh_timestamp h \<le> bh_timestamp (bl_header parent) then fail TimestampNotAdvancing
               else if \<not> list_all (\<lambda>st. validate_signed_transaction x st = Ok ()) (bl_transactions b)
               then fail InvalidSignature
               else
                 (case Mapping.lookup (ch_snapshots c) (bh_parent_hash h) of
                    None \<Rightarrow>
                      Some (Err (Panicked ''parent snapshot always exists when parent block is known''))
                  | Some parent_snapshot \<Rightarrow>
                      (case replay_block k x b parent_snapshot of
                         None \<Rightarrow> None
                       | Some (Inl e) \<Rightarrow> Some (Err e)
                       | Some (Inr new_store) \<Rightarrow> Some (or_panic (adopt_block hash b new_store c))))))"

section \<open>Queries\<close>

definition get_block :: "chain_state \<Rightarrow> digest \<Rightarrow> block option" where
  "get_block c d = Mapping.lookup (ch_blocks c) d"

record state_snapshot =
  ss_head :: block
  ss_objects :: "object list"

definition get_block_snapshot :: "chain_state \<Rightarrow> digest \<Rightarrow> state_snapshot option" where
  "get_block_snapshot c d =
     (case Mapping.lookup (ch_blocks c) d of
        None \<Rightarrow> None
      | Some b \<Rightarrow>
          (case Mapping.lookup (ch_snapshots c) d of
             None \<Rightarrow> None
           | Some s \<Rightarrow> Some \<lparr>ss_head = b, ss_objects = store_objects s\<rparr>))"

definition get_blocks_since :: "chain_state \<Rightarrow> u64 \<Rightarrow> block list" where
  "get_blocks_since c height = filter (\<lambda>b. bh_height (bl_header b) \<ge> height) (btree_values (ch_blocks c))"

text \<open>
  The search along the canonical chain from a block to its ancestors: the first answer of \<open>f\<close>, or
  nothing when the ancestors run out.  The outer \<open>None\<close> is a walk that does not end.
\<close>

partial_function (option) find_canonical ::
    "(block \<Rightarrow> 'a option) \<Rightarrow> (digest, block) mapping \<Rightarrow> digest \<Rightarrow> 'a option option" where
  "find_canonical f blocks current =
     (case Mapping.lookup blocks current of
        None \<Rightarrow> Some None
      | Some b \<Rightarrow>
          (case f b of
             Some r \<Rightarrow> Some (Some r)
           | None \<Rightarrow> find_canonical f blocks (bh_parent_hash (bl_header b))))"

definition get_transaction_result :: "chain_state \<Rightarrow> digest \<Rightarrow> execution_result option option" where
  "get_transaction_result c d =
     find_canonical (\<lambda>b. List.find (\<lambda>r. er_transaction_digest r = d) (bl_results b)) (ch_blocks c) (ch_head c)"

definition get_transaction :: "chain_ext \<Rightarrow> chain_state \<Rightarrow> digest \<Rightarrow> signed_transaction option option" where
  "get_transaction x c d =
     find_canonical (\<lambda>b. List.find (\<lambda>st. transaction_digest x (st_transaction st) = d) (bl_transactions b))
       (ch_blocks c) (ch_head c)"

end
