(* ===== verification/Miner.thy ===== *)
theory Miner
  imports Chain_State Mempool
begin

text \<open>
  The miner: \<open>meow-nakamoto/src/miner\<close>.  Grinding is the search for a nonce followed by the execution of
  the batch, repeated without the transactions that were dropped; yielding to the runtime has no
  effect on it.  The clock is the argument \<open>now\<close>.
\<close>

datatype miner_error = ChainError chain_error | MempoolError mempool_error | SimulationError executor_error

record miner_config =
  mc_difficulty :: u32
  mc_keypair :: keypair
  mc_reward_address :: address
  mc_batch_size :: nat
  mc_snapshot_depth :: u64

record mining_work =
  mw_header :: block_header
  mw_batch :: "signed_transaction list"
  mw_parent_store :: store
  mw_difficulty :: u32
  mw_keypair :: keypair
  mw_miner_address :: address
  mw_reward_address :: address

section \<open>Grinding\<close>

function find_nonce :: "chain_ext \<Rightarrow> u32 \<Rightarrow> block_header \<Rightarrow> block_header option" where
  "find_nonce x difficulty h =
     (if meets_difficulty x h difficulty then Some h
      else case checked_add (bh_nonce h) 1 of
        None \<Rightarrow> None
      | Some n \<Rightarrow> find_nonce x difficulty (h\<lparr>bh_nonce := n\<rparr>))"
  by pat_completeness auto
termination
proof (relation "measure (\<lambda>(x, d, h). 2 ^ 64 - unat (bh_nonce h))")
  fix x d h n
  assume "checked_add (bh_nonce h) 1 = Some n"
  then have "unat n = unat (bh_nonce h) + 1" using unat_checked_add by fastforce
  moreover have "unat n < 2 ^ 64" using unsigned_less [of n] by simp
  ultimately show "((x, d, h\<lparr>bh_nonce := n\<rparr>), x, d, h) \<in> measure (\<lambda>(x, d, h). 2 ^ 64 - unat (bh_nonce h))"
    by simp
qed simp

lemma find_nonce_keeps:
  "find_nonce x d h = Some h' \<Longrightarrow> (\<exists>n. h' = h\<lparr>bh_nonce := n\<rparr>) \<and> meets_difficulty x h' d"
proof (induction x d h rule: find_nonce.induct)
  case (1 x d h)
  show ?case
  proof (cases "meets_difficulty x h d")
    case True
    with 1(2) have "h' = h\<lparr>bh_nonce := bh_nonce h\<rparr>" by simp
    with 1(2) True show ?thesis by (metis find_nonce.simps option.inject)
  next
    case False
    with 1(2) obtain n where n: "checked_add (bh_nonce h) 1 = Some n"
      "find_nonce x d (h\<lparr>bh_nonce := n\<rparr>) = Some h'"
      by (auto simp: find_nonce.simps [of x d h] simp del: find_nonce.simps split: option.splits)
    from 1(1) [OF False n] show ?thesis by auto
  qed
qed

declare find_nonce.simps [simp del]

text \<open>The execution of a batch; a transaction that is refused is dropped.\<close>

fun execute_batch ::
    "nat \<Rightarrow> chain_ext \<Rightarrow> external_context \<Rightarrow> signed_transaction list \<Rightarrow> store
       \<Rightarrow> (string + (signed_transaction list \<times> execution_result list \<times> store)) option" where
  "execute_batch k x ec [] s = Some (Ok ([], [], s))"
| "execute_batch k x ec (st # sts) s =
     (case run_transaction k x ec (st_transaction st) s of
        None \<Rightarrow> None
      | Some (Inl (Panicked m)) \<Rightarrow> Some (Err m)
      | Some (Inl (Fail _)) \<Rightarrow> execute_batch k x ec sts s
      | Some (Inr (r, s)) \<Rightarrow>
          map_option (\<lambda>res. and_then res (\<lambda>(sts, rs, s). Ok (st # sts, r # rs, s)))
            (execute_batch k x ec sts s))"

text \<open>The reward of the surviving transactions, and the finished block.\<close>

definition mint_reward ::
    "nat \<Rightarrow> chain_ext \<Rightarrow> mining_work \<Rightarrow> u64 \<Rightarrow> store
       \<Rightarrow> (string + (signed_transaction option \<times> execution_result option \<times> store)) option" where
  "mint_reward k x w total_reward s =
     (if total_reward > 0
      then
        let tx = make_reward_transaction x (mw_miner_address w) (mw_reward_address w) total_reward
              (mining_hash x (mw_header w));
            st = fst (transaction_sign x (mw_keypair w) tx)
        in
          (case execute_reward_transaction k x (st_transaction st) s of
             None \<Rightarrow> None
           | Some (Inl (Panicked m)) \<Rightarrow> Some (Err m)
           | Some (Inl (Fail _)) \<Rightarrow> Some (Err ''block reward mint must not fail'')
           | Some (Inr r) \<Rightarrow>
               (case apply_execution_result r s of
                  Inl m \<Rightarrow> Some (Err m)
                | Inr s \<Rightarrow> Some (Ok (Some st, Some r, s))))
      else Some (Ok (None, None, s)))"

definition finish_block ::
    "nat \<Rightarrow> chain_ext \<Rightarrow> mining_work \<Rightarrow> signed_transaction list \<Rightarrow> execution_result list \<Rightarrow> store
       \<Rightarrow> (string + (block \<times> store)) option" where
  "finish_block k x w executed results s =
     map_option
       (\<lambda>res. and_then res (\<lambda>(reward, reward_result, s).
          Ok (\<lparr>bl_header = (mw_header w)
                 \<lparr>bh_reward_root := map_option (\<lambda>st. transaction_digest x (st_transaction st)) reward,
                  bh_state_root := compute_state_root x s\<rparr>,
               bl_transactions = executed, bl_results = results, bl_reward_transaction = reward,
               bl_reward_transaction_result = reward_result\<rparr>, s)))
       (mint_reward k x w (sum_list (map er_gas_used results)) s)"

text \<open>A batch is executed transaction by transaction: each is dropped or kept.\<close>

lemma execute_batch_Cons:
  assumes "execute_batch k x ec (st # sts) s = Some (Inr (executed, results, s'))"
  obtains (dropped) e where "run_transaction k x ec (st_transaction st) s = Some (Inl (Fail e))"
      "execute_batch k x ec sts s = Some (Inr (executed, results, s'))"
  | (kept) r s1 executed' results' where "run_transaction k x ec (st_transaction st) s = Some (Inr (r, s1))"
      "execute_batch k x ec sts s1 = Some (Inr (executed', results', s'))"
      "executed = st # executed'" "results = r # results'"
proof (cases "run_transaction k x ec (st_transaction st) s")
  case None
  with assms show thesis by simp
next
  case (Some res)
  show thesis
  proof (cases res)
    case (Inl e)
    with Some assms dropped show thesis by (cases e) auto
  next
    case (Inr p)
    with Some assms kept show thesis by (cases p) (auto simp: and_then_Inr_iff)
  qed
qed

lemma execute_batch_length:
  "execute_batch k x ec batch s = Some (Inr (executed, results, s')) \<Longrightarrow>
     length executed < length batch \<or> executed = batch"
proof (induction batch arbitrary: s executed results)
  case (Cons st sts)
  from Cons.prems show ?case
    by (cases rule: execute_batch_Cons) (use Cons.IH in fastforce)+
qed simp

text \<open>A round of \<open>grind\<close> either returns or goes on with fewer transactions and their root.\<close>

definition stale_root :: "chain_ext \<Rightarrow> mining_work \<Rightarrow> nat" where
  "stale_root x w =
     (if compute_transactions_root x (mw_batch w) = bh_transactions_root (mw_header w) then 0 else 1)"

function grind :: "nat \<Rightarrow> chain_ext \<Rightarrow> mining_work \<Rightarrow> (string + (block \<times> store) option) option" where
  "grind k x w =
     (case find_nonce x (mw_difficulty w) ((mw_header w)\<lparr>bh_nonce := 0\<rparr>) of
        None \<Rightarrow> Some (Ok None)
      | Some h \<Rightarrow>
          (case execute_batch k x (block_context x h) (mw_batch w) (mw_parent_store w) of
             None \<Rightarrow> None
           | Some (Inl e) \<Rightarrow> Some (Err e)
           | Some (Inr (executed, results, new_store)) \<Rightarrow>
               if executed = [] then Some (Ok None)
               else
                 let root = compute_transactions_root x executed in
                 if root = bh_transactions_root h
                 then map_option (\<lambda>res. and_then res (\<lambda>bs. Ok (Some bs)))
                        (finish_block k x (w\<lparr>mw_header := h\<rparr>) executed results new_store)
                 else grind k x (w\<lparr>mw_header := h\<lparr>bh_transactions_root := root\<rparr>, mw_batch := executed\<rparr>)))"
  by pat_completeness auto
termination
proof (relation "measure (\<lambda>(k, x, w). 2 * length (mw_batch w) + stale_root x w)")
  fix k x and w :: mining_work and h y z executed q root
  assume batch: "execute_batch k x (block_context x h) (mw_batch w) (mw_parent_store w) = Some y" "y = Inr z"
    "(executed, q) = z"
    and nonce: "find_nonce x (mw_difficulty w) ((mw_header w)\<lparr>bh_nonce := 0\<rparr>) = Some h"
    and root: "root = compute_transactions_root x executed" "root \<noteq> bh_transactions_root h"
  obtain results s' where q: "q = (results, s')" by (cases q)
  have len: "length executed < length (mw_batch w) \<or> executed = mw_batch w"
    using execute_batch_length batch q by blast
  have "bh_transactions_root h = bh_transactions_root (mw_header w)" using find_nonce_keeps [OF nonce] by auto
  then have "stale_root x w = 1" if "executed = mw_batch w" using that root by (simp add: stale_root_def)
  then show "((k, x, w\<lparr>mw_header := h\<lparr>bh_transactions_root := root\<rparr>, mw_batch := executed\<rparr>), k, x, w)
      \<in> measure (\<lambda>(k, x, w). 2 * length (mw_batch w) + stale_root x w)"
    using len root by (auto simp: stale_root_def)
qed simp

declare grind.simps [simp del]

section \<open>The miner\<close>

record miner =
  mi_chain :: chain_state
  mi_mempool :: mempool
  mi_keypair :: keypair
  mi_miner_address :: address
  mi_reward_address :: address
  mi_batch_size :: nat

definition miner_new :: "chain_ext \<Rightarrow> store \<Rightarrow> miner_config \<Rightarrow> miner" where
  "miner_new x s cfg =
     \<lparr>mi_chain = chain_new x s (mc_difficulty cfg) (mc_snapshot_depth cfg), mi_mempool = mempool_empty,
      mi_keypair = mc_keypair cfg, mi_miner_address = keypair_address x (mc_keypair cfg),
      mi_reward_address = mc_reward_address cfg, mi_batch_size = mc_batch_size cfg\<rparr>"

definition miner_empty :: "chain_ext \<Rightarrow> miner_config \<Rightarrow> miner" where
  "miner_empty x cfg = miner_new x store_default cfg"

definition with_genesis :: "chain_ext \<Rightarrow> object list \<Rightarrow> miner_config \<Rightarrow> miner" where
  "with_genesis x genesis_objects cfg = miner_new x (with_objects genesis_objects) cfg"

definition get_state_snapshot :: "miner \<Rightarrow> string + state_snapshot" where
  "get_state_snapshot m =
     and_then (head_block (mi_chain m)) (\<lambda>b.
     and_then (head_store (mi_chain m)) (\<lambda>s. Ok \<lparr>ss_head = b, ss_objects = store_objects s\<rparr>))"

text \<open>Errors of the parts become errors of the miner; panics stay panics.\<close>

definition map_fault :: "('e \<Rightarrow> 'f) \<Rightarrow> 'e fault + 'a \<Rightarrow> 'f fault + 'a" where
  "map_fault f r = (case r of Inl (Fail e) \<Rightarrow> Err (Fail (f e)) | Inl (Panicked m) \<Rightarrow> Err (Panicked m) | Inr a \<Rightarrow> Ok a)"

definition fail_with :: "('e \<Rightarrow> 'f) \<Rightarrow> 'e + 'a \<Rightarrow> 'f fault + 'a" where
  "fail_with f r = (case r of Inl e \<Rightarrow> Err (Fail (f e)) | Inr a \<Rightarrow> Ok a)"

definition submit_transaction ::
    "chain_ext \<Rightarrow> signed_transaction \<Rightarrow> miner \<Rightarrow> (miner_error fault + unit) \<times> miner" where
  "submit_transaction x st m =
     (case head_store (mi_chain m) of
        Inl e \<Rightarrow> (Err (Panicked e), m)
      | Inr s \<Rightarrow>
          let (r, mp) = submit x st s (mi_mempool m) in (fail_with MempoolError r, m\<lparr>mi_mempool := mp\<rparr>))"

definition simulate_transaction ::
    "nat \<Rightarrow> chain_ext \<Rightarrow> transaction \<Rightarrow> miner \<Rightarrow> (miner_error fault + execution_result) option" where
  "simulate_transaction k x tx m =
     (case and_then (or_panic (head_store (mi_chain m))) (\<lambda>s.
             and_then (or_panic (head_block (mi_chain m))) (\<lambda>b.
             and_then (fail_with MempoolError (validate_against_store x tx s)) (\<lambda>_. Ok (s, b)))) of
        Inl e \<Rightarrow> Some (Err e)
      | Inr (s, b) \<Rightarrow>
          map_option (map_fault SimulationError)
            (execute k x tx (collect_inputs x tx (get_object s)) (block_context x (bl_header b))))"

definition replace_from_snapshot ::
    "chain_ext \<Rightarrow> u64 \<Rightarrow> state_snapshot \<Rightarrow> miner \<Rightarrow> miner_error fault + miner" where
  "replace_from_snapshot x now snap m =
     and_then (or_panic (head_height (mi_chain m))) (\<lambda>height.
     and_then
       (fail_with ChainError
          (from_snapshot x now height (ss_head snap) (with_objects (ss_objects snap))
             (ch_difficulty (mi_chain m)) (ch_snapshot_depth (mi_chain m))))
       (\<lambda>c. Ok (m\<lparr>mi_chain := c, mi_mempool := mempool_empty\<rparr>)))"

definition miner_apply_block ::
    "nat \<Rightarrow> chain_ext \<Rightarrow> u64 \<Rightarrow> block \<Rightarrow> miner \<Rightarrow> (miner_error fault + (bool \<times> miner)) option" where
  "miner_apply_block k x now b m =
     map_option
       (\<lambda>res. and_then (map_fault ChainError res) (\<lambda>(reorged, c).
          if reorged
          then and_then (or_panic (head_store c)) (\<lambda>s.
                 Ok (True, m\<lparr>mi_chain := c, mi_mempool := retain_valid x s (mi_mempool m)\<rparr>))
          else Ok (False, m\<lparr>mi_chain := c\<rparr>)))
       (apply_block k x now b (mi_chain m))"

definition prepare_round ::
    "chain_ext \<Rightarrow> u64 \<Rightarrow> miner \<Rightarrow> string + (mining_work option \<times> miner)" where
  "prepare_round x now m =
     (if mempool_len (mi_mempool m) < mi_batch_size m then Ok (None, m)
      else
        let (batch, mp) = drain_batch x (mi_batch_size m) (mi_mempool m) in
        and_then (head_height (mi_chain m)) (\<lambda>height.
        and_then (head_store (mi_chain m)) (\<lambda>parent_store.
          Ok (Some
                \<lparr>mw_header =
                   \<lparr>bh_height = height + 1, bh_parent_hash = ch_head (mi_chain m),
                    bh_transactions_root = compute_transactions_root x batch, bh_reward_root = None,
                    bh_state_root = digest_zero, bh_timestamp = now, bh_nonce = 0\<rparr>,
                 mw_batch = batch, mw_parent_store = parent_store,
                 mw_difficulty = ch_difficulty (mi_chain m), mw_keypair = mi_keypair m,
                 mw_miner_address = mi_miner_address m, mw_reward_address = mi_reward_address m\<rparr>,
              m\<lparr>mi_mempool := mp\<rparr>))))"

definition commit_mined :: "chain_ext \<Rightarrow> u64 \<Rightarrow> block \<Rightarrow> store \<Rightarrow> miner \<Rightarrow> string + (bool \<times> miner)" where
  "commit_mined x now b new_store m =
     (if bh_parent_hash (bl_header b) \<noteq> ch_head (mi_chain m) then Ok (False, m)
      else and_then (commit x now b new_store (mi_chain m)) (\<lambda>c. Ok (True, m\<lparr>mi_chain := c\<rparr>)))"

end
