(* ===== verification/Chain_Laws.thy ===== *)
theory Chain_Laws
  imports Chain_State Bcs_Codec
begin

text \<open>
  Laws of the chain state: its invariant, the window of retained blocks, the choice of the head, and
  the searches along the canonical chain.
\<close>

section \<open>Retained blocks\<close>

lemma finite_digests [simp, intro]: "finite (A :: digest set)"
proof -
  have "inj digest_array" by (rule injI) (rule digest.expand)
  then show ?thesis using finite_imageD [of digest_array A] by (simp add: inj_on_def)
qed

lemma lookup_fold_delete:
  "Mapping.lookup (fold Mapping.delete ds m) d = (if d \<in> set ds then None else Mapping.lookup m d)"
proof (induction ds arbitrary: m)
  case (Cons a ds)
  have "Mapping.lookup (Mapping.delete a m) d = (if d = a then None else Mapping.lookup m d)"
    by (cases "d = a") simp_all
  with Cons show ?case by auto
qed simp

text \<open>A block within \<open>snapshot_depth\<close> of a head at height \<open>h\<close>.\<close>

definition within_depth :: "chain_state \<Rightarrow> u64 \<Rightarrow> block \<Rightarrow> bool" where
  "within_depth c h b \<longleftrightarrow> unat h \<le> unat (bh_height (bl_header b)) + unat (ch_snapshot_depth c)"

lemma within_depth_iff:
  "within_depth c h b \<longleftrightarrow> h \<le> ch_snapshot_depth c \<or> \<not> bh_height (bl_header b) < h - ch_snapshot_depth c"
proof (cases "h \<le> ch_snapshot_depth c")
  case False
  then have "unat (h - ch_snapshot_depth c) = unat h - unat (ch_snapshot_depth c)"
    "unat (ch_snapshot_depth c) < unat h"
    by (simp_all add: unat_sub word_le_nat_alt)
  then show ?thesis using False by (auto simp: within_depth_def word_less_nat_alt)
qed (simp add: within_depth_def word_le_nat_alt trans_le_add2)

lemma within_depth_update [simp]:
  "within_depth (c\<lparr>ch_head := d\<rparr>) = within_depth c" "within_depth (insert_block d b s c) = within_depth c"
  by (simp_all add: within_depth_def insert_block_def fun_eq_iff)

lemma insert_block_sel [simp]:
  "ch_head (insert_block d b s c) = ch_head c" "ch_difficulty (insert_block d b s c) = ch_difficulty c"
  by (simp_all add: insert_block_def)

lemma head_height_Inr:
  "head_height c = Inr h \<longleftrightarrow>
     (\<exists>b. Mapping.lookup (ch_blocks c) (ch_head c) = Some b \<and> bh_height (bl_header b) = h)"
  by (auto simp: head_height_def head_block_def and_then_Inr_iff ok_or_Inr_iff)

lemma prune_Inr:
  assumes "Mapping.lookup (ch_blocks c) (ch_head c) = Some hb"
  obtains c' where "prune_finalized_blocks c = Inr c'"
    "ch_head c' = ch_head c" "ch_difficulty c' = ch_difficulty c" "ch_snapshot_depth c' = ch_snapshot_depth c"
    "\<And>d b. Mapping.lookup (ch_blocks c') d = Some b \<longleftrightarrow>
       Mapping.lookup (ch_blocks c) d = Some b \<and> within_depth c (bh_height (bl_header hb)) b"
    "\<And>d s. Mapping.lookup (ch_snapshots c') d = Some s \<longleftrightarrow>
       Mapping.lookup (ch_snapshots c) d = Some s \<and>
       (\<forall>b. Mapping.lookup (ch_blocks c) d = Some b \<longrightarrow> within_depth c (bh_height (bl_header hb)) b)"
proof -
  let ?h = "bh_height (bl_header hb)"
  have hh: "head_height c = Inr ?h" using assms by (simp add: head_height_Inr)
  show ?thesis
  proof (cases "?h \<le> ch_snapshot_depth c")
    case True
    with hh have "prune_finalized_blocks c = Inr c" by (simp add: prune_finalized_blocks_def)
    then show ?thesis using True by (intro that [of c]) (auto simp: within_depth_iff)
  next
    case False
    define rem where "rem = filter
        (\<lambda>hash. case Mapping.lookup (ch_blocks c) hash of
           Some b \<Rightarrow> bh_height (bl_header b) < ?h - ch_snapshot_depth c | None \<Rightarrow> False)
        (Mapping.ordered_keys (ch_blocks c))"
    have rem: "d \<in> set rem \<longleftrightarrow>
        (\<exists>b. Mapping.lookup (ch_blocks c) d = Some b \<and> \<not> within_depth c ?h b)" for d
      using False
      by (auto simp: rem_def within_depth_iff set_ordered_keys keys_dom_lookup dom_def split: option.splits)
    have "prune_finalized_blocks c =
        Inr (c\<lparr>ch_blocks := fold Mapping.delete rem (ch_blocks c),
               ch_snapshots := fold Mapping.delete rem (ch_snapshots c)\<rparr>)"
      using hh False by (simp add: prune_finalized_blocks_def Let_def rem_def)
    then show ?thesis
    proof (rule that)
      fix d b
      show "Mapping.lookup (ch_blocks (c\<lparr>ch_blocks := fold Mapping.delete rem (ch_blocks c),
               ch_snapshots := fold Mapping.delete rem (ch_snapshots c)\<rparr>)) d = Some b \<longleftrightarrow>
          Mapping.lookup (ch_blocks c) d = Some b \<and> within_depth c ?h b"
        using rem [of d] by (cases "d \<in> set rem") (auto simp: lookup_fold_delete)
    next
      fix d s
      show "Mapping.lookup (ch_snapshots (c\<lparr>ch_blocks := fold Mapping.delete rem (ch_blocks c),
               ch_snapshots := fold Mapping.delete rem (ch_snapshots c)\<rparr>)) d = Some s \<longleftrightarrow>
          Mapping.lookup (ch_snapshots c) d = Some s \<and>
          (\<forall>b. Mapping.lookup (ch_blocks c) d = Some b \<longrightarrow> within_depth c ?h b)"
        using rem [of d] by (cases "d \<in> set rem") (auto simp: lookup_fold_delete)
    qed simp_all
  qed
qed

section \<open>The invariant\<close>

text \<open>A block that passed the structural checks at some time.\<close>

definition block_sound :: "chain_ext \<Rightarrow> u32 \<Rightarrow> block \<Rightarrow> bool" where
  "block_sound x difficulty b \<longleftrightarrow> (\<exists>now. validate_block_structure x now b difficulty = Ok ())"

text \<open>A block and its snapshot as they are stored under a hash.\<close>

definition entry_wf :: "chain_ext \<Rightarrow> u32 \<Rightarrow> digest \<Rightarrow> block \<Rightarrow> store \<Rightarrow> bool" where
  "entry_wf x difficulty d b s \<longleftrightarrow>
     block_hash x b = d \<and> store_wf s \<and>
     (b = block_genesis \<or> block_sound x difficulty b \<and> compute_state_root x s = bh_state_root (bl_header b))"

definition chain_wf :: "chain_ext \<Rightarrow> chain_state \<Rightarrow> bool" where
  "chain_wf x c \<longleftrightarrow>
     Mapping.lookup (ch_blocks c) (ch_head c) \<noteq> None \<and>
     Mapping.keys (ch_snapshots c) = Mapping.keys (ch_blocks c) \<and>
     (\<forall>d b s. Mapping.lookup (ch_blocks c) d = Some b \<and> Mapping.lookup (ch_snapshots c) d = Some s \<longrightarrow>
        entry_wf x (ch_difficulty c) d b s)"

lemma chain_wf_snapshot:
  "chain_wf x c \<Longrightarrow> Mapping.lookup (ch_snapshots c) d = None \<longleftrightarrow> Mapping.lookup (ch_blocks c) d = None"
  by (metis chain_wf_def domIff keys_dom_lookup)

lemma chain_wf_head:
  assumes "chain_wf x c"
  obtains b s where "Mapping.lookup (ch_blocks c) (ch_head c) = Some b"
    "Mapping.lookup (ch_snapshots c) (ch_head c) = Some s" "store_wf s"
    "head_block c = Inr b" "head_height c = Inr (bh_height (bl_header b))" "head_store c = Inr s"
proof -
  obtain b s where bs: "Mapping.lookup (ch_blocks c) (ch_head c) = Some b"
    "Mapping.lookup (ch_snapshots c) (ch_head c) = Some s"
    using assms chain_wf_snapshot [OF assms] by (metis chain_wf_def not_None_eq)
  moreover have "store_wf s" using assms bs unfolding chain_wf_def entry_wf_def by blast
  ultimately show ?thesis
    by (intro that) (simp_all add: head_block_def head_height_def head_store_def ok_or_def)
qed

lemma chain_wf_new: "store_wf s \<Longrightarrow> chain_wf x (chain_new x s difficulty depth)"
  by (auto simp: chain_wf_def entry_wf_def chain_new_def Let_def lookup_update' split: if_splits)

lemma chain_wf_insert:
  assumes "chain_wf x c" "block_sound x (ch_difficulty c) b" "store_wf s"
    "compute_state_root x s = bh_state_root (bl_header b)"
  shows "chain_wf x (insert_block (block_hash x b) b s c)"
  using assms by (auto simp: chain_wf_def entry_wf_def insert_block_def lookup_update' keys_update)

lemma chain_wf_head_switch:
  "chain_wf x c \<Longrightarrow> Mapping.lookup (ch_blocks c) d \<noteq> None \<Longrightarrow> chain_wf x (c\<lparr>ch_head := d\<rparr>)"
  by (simp add: chain_wf_def)

lemma chain_wf_prune:
  assumes wf: "chain_wf x c" and "prune_finalized_blocks c = Inr c'"
  shows "chain_wf x c'"
proof -
  obtain hb where hb: "Mapping.lookup (ch_blocks c) (ch_head c) = Some hb"
    using wf by (auto simp: chain_wf_def)
  obtain c1 where c1: "prune_finalized_blocks c = Inr c1"
    "ch_head c1 = ch_head c" "ch_difficulty c1 = ch_difficulty c"
    and blocks: "\<And>d b. Mapping.lookup (ch_blocks c1) d = Some b \<longleftrightarrow>
       Mapping.lookup (ch_blocks c) d = Some b \<and> within_depth c (bh_height (bl_header hb)) b"
    and snaps: "\<And>d s. Mapping.lookup (ch_snapshots c1) d = Some s \<longleftrightarrow>
       Mapping.lookup (ch_snapshots c) d = Some s \<and>
       (\<forall>b. Mapping.lookup (ch_blocks c) d = Some b \<longrightarrow> within_depth c (bh_height (bl_header hb)) b)"
    by (rule prune_Inr [OF hb]) blast
  have c': "c' = c1" using assms(2) c1(1) by (metis Inr_inject)
  have "Mapping.lookup (ch_blocks c1) (ch_head c1) = Some hb"
    using blocks hb c1(2) by (simp add: within_depth_def)
  then have "Mapping.lookup (ch_blocks c1) (ch_head c1) \<noteq> None" by simp
  moreover have "Mapping.keys (ch_snapshots c1) = Mapping.keys (ch_blocks c1)"
  proof -
    have "(\<exists>s. Mapping.lookup (ch_snapshots c1) d = Some s) \<longleftrightarrow> (\<exists>b. Mapping.lookup (ch_blocks c1) d = Some b)" for d
      using chain_wf_snapshot [OF wf, of d]
      by (cases "Mapping.lookup (ch_blocks c) d"; cases "Mapping.lookup (ch_snapshots c) d")
        (simp_all add: snaps blocks)
    then show ?thesis by (simp add: keys_dom_lookup dom_def)
  qed
  ultimately show ?thesis
    using wf c1(3) by (simp add: c' chain_wf_def blocks snaps)
qed

section \<open>Blocks of peers\<close>

text \<open>What \<open>apply_block\<close> has checked of a block it accepts.\<close>

lemma apply_block_Ok:
  assumes "apply_block k x now b c = Some (Inr (reorged, c'))"
  obtains parent s s' where
    "Mapping.lookup (ch_blocks c) (block_hash x b) = None"
    "Mapping.lookup (ch_blocks c) (bh_parent_hash (bl_header b)) = Some parent"
    "validate_block_structure x now b (ch_difficulty c) = Ok ()"
    "bh_height (bl_header b) = bh_height (bl_header parent) + 1"
    "bh_timestamp (bl_header b) > bh_timestamp (bl_header parent)"
    "\<forall>st \<in> set (bl_transactions b). validate_signed_transaction x st = Ok ()"
    "Mapping.lookup (ch_snapshots c) (bh_parent_hash (bl_header b)) = Some s"
    "replay_block k x b s = Some (Ok s')"
    "adopt_block (block_hash x b) b s' c = Inr (reorged, c')"
proof -
  from assms have new: "Mapping.lookup (ch_blocks c) (block_hash x b) = None"
    by (auto simp: apply_block_def Let_def split: if_splits)
  with assms obtain parent where parent: "Mapping.lookup (ch_blocks c) (bh_parent_hash (bl_header b)) = Some parent"
    by (auto simp: apply_block_def Let_def split: option.splits)
  have struct: "validate_block_structure x now b (ch_difficulty c) = Ok ()"
    using assms new parent by (cases "validate_block_structure x now b (ch_difficulty c)") (auto simp: apply_block_def)
  have checks: "bh_height (bl_header b) = bh_height (bl_header parent) + 1"
    "\<not> bh_timestamp (bl_header b) \<le> bh_timestamp (bl_header parent)"
    "list_all (\<lambda>st. validate_signed_transaction x st = Ok ()) (bl_transactions b)"
    using assms new parent struct by (auto simp: apply_block_def Let_def split: if_splits)
  obtain s where s: "Mapping.lookup (ch_snapshots c) (bh_parent_hash (bl_header b)) = Some s"
    using assms new parent struct checks by (cases "Mapping.lookup (ch_snapshots c) (bh_parent_hash (bl_header b))")
      (auto simp: apply_block_def)
  have "case replay_block k x b s of None \<Rightarrow> False | Some (Inl e) \<Rightarrow> False
      | Some (Inr s') \<Rightarrow> adopt_block (block_hash x b) b s' c = Inr (reorged, c')"
    using assms new parent struct checks s by (auto simp: apply_block_def split: option.splits sum.splits)
  then obtain s' where "replay_block k x b s = Some (Ok s')"
    "adopt_block (block_hash x b) b s' c = Inr (reorged, c')"
    by (auto split: option.splits sum.splits)
  then show ?thesis
    using new parent struct checks s by (intro that) (auto simp: list_all_iff not_le)
qed

lemma adopt_block_cases:
  assumes "chain_wf x c" "adopt_block (block_hash x b) b s c = Inr (reorged, c')"
    and hb: "Mapping.lookup (ch_blocks c) (ch_head c) = Some hb"
    and new: "Mapping.lookup (ch_blocks c) (block_hash x b) = None"
  shows "(reorged \<longleftrightarrow> bh_height (bl_header b) > bh_height (bl_header hb)) \<and>
     (if reorged then prune_finalized_blocks ((insert_block (block_hash x b) b s c)\<lparr>ch_head := block_hash x b\<rparr>) = Inr c'
      else c' = insert_block (block_hash x b) b s c)"
proof -
  have "head_height (insert_block (block_hash x b) b s c) = Inr (bh_height (bl_header hb))"
    using hb new by (auto simp: head_height_Inr insert_block_def lookup_update')
  then show ?thesis
    using assms(2) by (auto simp: adopt_block_def Let_def and_then_Inr_iff split: if_splits)
qed

section \<open>The store after a block\<close>

lemma run_transaction_Inr:
  "run_transaction k x ec tx s = Some (Inr (r, s')) \<longleftrightarrow>
     execute k x tx (collect_inputs x tx (get_object s)) ec = Some (Inr r) \<and> apply_execution_result r s = Inr s'"
  by (auto simp: run_transaction_def split: option.splits sum.splits)

lemma reexecute_Cons:
  assumes "reexecute k x ec (st # sts) s = Some (Inr (rs, s'))"
  obtains r s1 rs' where "run_transaction k x ec (st_transaction st) s = Some (Inr (r, s1))"
    "reexecute k x ec sts s1 = Some (Inr (rs', s'))" "rs = r # rs'"
proof (cases "run_transaction k x ec (st_transaction st) s")
  case None
  with assms show thesis by simp
next
  case (Some res)
  show thesis
  proof (cases res)
    case (Inl e)
    with Some assms show thesis by (cases e) auto
  next
    case (Inr p)
    with Some assms that show thesis by (cases p) (auto simp: and_then_Inr_iff)
  qed
qed

lemma reexecute_wf: "reexecute k x ec sts s = Some (Inr (rs, s')) \<Longrightarrow> store_wf s \<Longrightarrow> store_wf s'"
proof (induction sts arbitrary: s rs)
  case (Cons st sts)
  from Cons.prems(1) obtain r s1 rs' where
    run: "run_transaction k x ec (st_transaction st) s = Some (Inr (r, s1))"
    and rest: "reexecute k x ec sts s1 = Some (Inr (rs', s'))"
    by (rule reexecute_Cons)
  have "store_wf s1" using run store_wf_apply [OF Cons.prems(2)] unfolding run_transaction_Inr by blast
  then show ?case by (rule Cons.IH [OF rest])
qed simp

lemma apply_reward_Some:
  assumes "apply_reward k x b total_gas s = Some (Inr (Some s'))"
  obtains (none) "total_gas = 0" "bl_reward_transaction b = None" "bl_reward_transaction_result b = None" "s' = s"
  | (reward) st r where "total_gas \<noteq> 0" "bl_reward_transaction b = Some st"
      "bl_reward_transaction_result b = Some r" "validate_signed_transaction x st = Ok ()"
      "is_valid_reward_transaction x (st_transaction st) total_gas (mining_hash x (bl_header b))"
      "execute_reward_transaction k x (st_transaction st) s = Some (Inr r)"
      "apply_execution_result r s = Inr s'"
proof (cases "bl_reward_transaction b")
  case None
  with assms none show thesis by (auto simp: apply_reward_def split: option.splits if_splits)
next
  case (Some st)
  with assms obtain r where r: "bl_reward_transaction_result b = Some r" "total_gas \<noteq> 0"
    and app: "apply_block_reward_transaction k x st r total_gas (mining_hash x (bl_header b)) s = Some (Inr (Some s'))"
    by (auto simp: apply_reward_def split: option.splits if_splits)
  from app have "validate_signed_transaction x st = Ok ()"
    "is_valid_reward_transaction x (st_transaction st) total_gas (mining_hash x (bl_header b))"
    by (auto simp: apply_block_reward_transaction_def split: sum.splits if_splits)
  moreover from this app have "execute_reward_transaction k x (st_transaction st) s = Some (Inr r)"
    "apply_execution_result r s = Inr s'"
    by (auto simp: apply_block_reward_transaction_def split: option.splits sum.splits fault.splits if_splits)
  ultimately show thesis using reward Some r by blast
qed

lemma replay_block_Some:
  assumes "replay_block k x b s = Some (Inr s')"
  obtains s1 where
    "reexecute k x (block_context x (bl_header b)) (bl_transactions b) s = Some (Inr (bl_results b, s1))"
    "apply_reward k x b (sum_list (map er_gas_used (bl_results b))) s1 = Some (Inr (Some s'))"
    "compute_state_root x s' = bh_state_root (bl_header b)"
  using assms
  by (auto simp: replay_block_def split: option.splits sum.splits prod.splits if_splits)

lemma replay_block_wf:
  assumes "replay_block k x b s = Some (Inr s')" "store_wf s"
  shows "store_wf s'"
proof -
  obtain s1 where
    "reexecute k x (block_context x (bl_header b)) (bl_transactions b) s = Some (Inr (bl_results b, s1))"
    and rw: "apply_reward k x b (sum_list (map er_gas_used (bl_results b))) s1 = Some (Inr (Some s'))"
    using replay_block_Some [OF assms(1)] by blast
  then have "store_wf s1" using reexecute_wf assms(2) by blast
  with rw show ?thesis by (cases rule: apply_reward_Some) (auto intro: store_wf_apply)
qed

lemma apply_block_wf:
  assumes wf: "chain_wf x c" and app: "apply_block k x now b c = Some (Inr (reorged, c'))"
  shows "chain_wf x c'"
  using app
proof (rule apply_block_Ok)
  fix parent s s'
  assume new: "Mapping.lookup (ch_blocks c) (block_hash x b) = None"
    and parent: "Mapping.lookup (ch_blocks c) (bh_parent_hash (bl_header b)) = Some parent"
    and struct: "validate_block_structure x now b (ch_difficulty c) = Ok ()"
    and snap: "Mapping.lookup (ch_snapshots c) (bh_parent_hash (bl_header b)) = Some s"
    and replay: "replay_block k x b s = Some (Ok s')"
    and adopt: "adopt_block (block_hash x b) b s' c = Inr (reorged, c')"
  obtain hb where hb: "Mapping.lookup (ch_blocks c) (ch_head c) = Some hb" using wf by (auto simp: chain_wf_def)
  have "store_wf s" using wf parent snap by (auto simp: chain_wf_def entry_wf_def)
  then have "store_wf s'" by (rule replay_block_wf [OF replay])
  moreover have "compute_state_root x s' = bh_state_root (bl_header b)"
    using replay_block_Some [OF replay] by blast
  ultimately have ins: "chain_wf x (insert_block (block_hash x b) b s' c)"
    using chain_wf_insert [OF wf] struct unfolding block_sound_def by blast
  then have "chain_wf x ((insert_block (block_hash x b) b s' c)\<lparr>ch_head := block_hash x b\<rparr>)"
    by (rule chain_wf_head_switch) (simp add: insert_block_def)
  then show ?thesis
    using adopt_block_cases [OF wf adopt hb new] chain_wf_prune ins by (metis (full_types))
qed

lemma commit_wf:
  assumes "chain_wf x c" "commit x now b s c = Inr c'" "store_wf s"
    "compute_state_root x s = bh_state_root (bl_header b)"
  shows "chain_wf x c'"
proof -
  have struct: "validate_block_structure x now b (ch_difficulty c) = Ok ()"
    using assms(2) by (auto simp: commit_def split: sum.splits)
  then have "chain_wf x (insert_block (block_hash x b) b s c)"
    using chain_wf_insert [OF assms(1)] assms(3,4) unfolding block_sound_def by blast
  then have "chain_wf x ((insert_block (block_hash x b) b s c)\<lparr>ch_head := block_hash x b\<rparr>)"
    by (rule chain_wf_head_switch) (simp add: insert_block_def)
  then show ?thesis
    by (rule chain_wf_prune) (use assms(2) struct in \<open>simp add: commit_def Let_def\<close>)
qed

lemma from_snapshot_wf:
  assumes "from_snapshot x now height b s difficulty depth = Inr c" "store_wf s"
  shows "chain_wf x c"
proof -
  have "validate_block_structure x now b difficulty = Ok ()" "compute_state_root x s = bh_state_root (bl_header b)"
    "c = \<lparr>ch_blocks = Mapping.update (block_hash x b) b Mapping.empty,
          ch_snapshots = Mapping.update (block_hash x b) s Mapping.empty,
          ch_head = block_hash x b, ch_difficulty = difficulty, ch_snapshot_depth = depth\<rparr>"
    using assms(1) by (auto simp: from_snapshot_def Let_def and_then_Inr_iff split: if_splits)
  then show ?thesis
    using assms(2) by (auto simp: chain_wf_def entry_wf_def block_sound_def lookup_update' split: if_splits)
qed

section \<open>The choice of the head\<close>

definition head_highest :: "chain_state \<Rightarrow> bool" where
  "head_highest c \<longleftrightarrow>
     (\<exists>hb. Mapping.lookup (ch_blocks c) (ch_head c) = Some hb \<and>
        (\<forall>d b. Mapping.lookup (ch_blocks c) d = Some b \<longrightarrow> bh_height (bl_header b) \<le> bh_height (bl_header hb)))"

text \<open>C30. An accepted block of a peer is added to the chain, and the head moves to it exactly when it is
  higher than the head; then the blocks that remain are exactly those within \<open>snapshot_depth\<close> of it.
  The head stays a highest block.\<close>

theorem apply_block_fork_choice:
  assumes "chain_wf x c" "apply_block k x now b c = Some (Ok (reorged, c'))"
    and "Mapping.lookup (ch_blocks c) (ch_head c) = Some hb" "head_highest c"
  shows "(reorged \<longleftrightarrow> bh_height (bl_header b) > bh_height (bl_header hb)) \<and>
     ch_head c' = (if reorged then block_hash x b else ch_head c) \<and> head_highest c' \<and>
     (\<forall>d b'. get_block c' d = Some b' \<longleftrightarrow>
        (if d = block_hash x b then b' = b else get_block c d = Some b') \<and>
        (reorged \<longrightarrow> within_depth c (bh_height (bl_header b)) b'))"
  using assms(2)
proof (rule apply_block_Ok)
  fix parent s s'
  assume new: "Mapping.lookup (ch_blocks c) (block_hash x b) = None"
    and adopt: "adopt_block (block_hash x b) b s' c = Inr (reorged, c')"
  let ?c = "insert_block (block_hash x b) b s' c" and ?h = "bh_height (bl_header b)"
  note ad = adopt_block_cases [OF assms(1) adopt assms(3) new]
  have ins: "Mapping.lookup (ch_blocks ?c) d = (if d = block_hash x b then Some b else get_block c d)" for d
    by (simp add: insert_block_def get_block_def lookup_update')
  have high: "bh_height (bl_header b') \<le> bh_height (bl_header hb)" if "get_block c d = Some b'" for d b'
    using assms(3,4) that by (auto simp: head_highest_def get_block_def)
  show ?thesis
  proof (cases reorged)
    case True
    have hd: "Mapping.lookup (ch_blocks (?c\<lparr>ch_head := block_hash x b\<rparr>)) (ch_head (?c\<lparr>ch_head := block_hash x b\<rparr>)) = Some b"
      using ins by simp
    have pr: "prune_finalized_blocks (?c\<lparr>ch_head := block_hash x b\<rparr>) = Inr c'" using ad True by simp
    have c': "ch_head c' = block_hash x b"
      "Mapping.lookup (ch_blocks c') d = Some b' \<longleftrightarrow>
         Mapping.lookup (ch_blocks ?c) d = Some b' \<and> within_depth c ?h b'" for d b'
      by (rule prune_Inr [OF hd], use pr in simp)+
    have low: "bh_height (bl_header b') \<le> ?h" if "Mapping.lookup (ch_blocks ?c) d = Some b'" for d b'
      using that high [of d b'] ad True by (auto simp: ins split: if_splits)
    have "Mapping.lookup (ch_blocks ?c) (block_hash x b) = Some b" by (simp add: ins)
    moreover have "within_depth c ?h b" by (simp add: within_depth_def)
    ultimately have "head_highest c'" unfolding head_highest_def c' using low by blast
    then show ?thesis using ad True c' by (auto simp: get_block_def ins)
  next
    case False
    then have "c' = ?c" "\<not> bh_height (bl_header hb) < ?h" using ad by auto
    moreover have "head_highest ?c"
      unfolding head_highest_def
      by (rule exI [of _ hb])
        (use assms(3) new high calculation in \<open>auto simp: ins get_block_def not_less split: if_splits\<close>)
    ultimately show ?thesis using False ad by (auto simp: get_block_def ins)
  qed
qed

section \<open>The canonical chain\<close>

text \<open>The blocks on the way from a hash to the oldest retained ancestor.\<close>

inductive on_chain :: "(digest, block) mapping \<Rightarrow> digest \<Rightarrow> block \<Rightarrow> bool" for blocks where
  here: "Mapping.lookup blocks d = Some b \<Longrightarrow> on_chain blocks d b"
| parent: "Mapping.lookup blocks d = Some b \<Longrightarrow> on_chain blocks (bh_parent_hash (bl_header b)) b' \<Longrightarrow>
    on_chain blocks d b'"

inductive_simps on_chain_step: "on_chain blocks d b"

text \<open>The parents of the retained blocks, as far as they are retained themselves.\<close>

definition parent_links :: "(digest, block) mapping \<Rightarrow> (digest \<times> digest) set" where
  "parent_links blocks =
     {(p, d). \<exists>b. Mapping.lookup blocks d = Some b \<and> bh_parent_hash (bl_header b) = p \<and> Mapping.lookup blocks p \<noteq> None}"

text \<open>From one set of retained blocks to the next: a block that was not there before is the parent of none.
  A block names its parent by a hash, so that only a hash known before the block is made could break this.\<close>

definition new_blocks_unnamed :: "(digest, block) mapping \<Rightarrow> (digest, block) mapping \<Rightarrow> bool" where
  "new_blocks_unnamed blocks blocks' \<longleftrightarrow>
     (\<forall>d b. Mapping.lookup blocks' d = Some b \<longrightarrow>
        Mapping.lookup blocks d = Some b \<or>
        (\<forall>d' b'. Mapping.lookup blocks' d' = Some b' \<longrightarrow> bh_parent_hash (bl_header b') \<noteq> d))"

lemma wf_parent_links_step:
  assumes "wf (parent_links B)" "new_blocks_unnamed B B'"
  shows "wf (parent_links B')"
proof -
  have kept: "Mapping.lookup B p = Mapping.lookup B' p" if "(p, d) \<in> parent_links B'" for p d
    using assms(2) that unfolding new_blocks_unnamed_def parent_links_def by fastforce
  have old: "d \<in> Wellfounded.acc (parent_links B')" if "Mapping.lookup B d = Mapping.lookup B' d" for d
    using assms(1) that
  proof (induction d rule: wf_induct_rule)
    case (less d)
    show ?case
    proof (rule Wellfounded.accI)
      fix p
      assume p: "(p, d) \<in> parent_links B'"
      with less.prems kept [OF p] have "(p, d) \<in> parent_links B" by (auto simp: parent_links_def)
      from less.IH [OF this kept [OF p]] show "p \<in> Wellfounded.acc (parent_links B')" .
    qed
  qed
  show ?thesis
    unfolding wf_iff_acc by (auto intro: Wellfounded.accI old kept)
qed

lemma wf_parent_links_empty: "wf (parent_links Mapping.empty)"
  by (simp add: parent_links_def)

lemma on_chain_iff:
  "on_chain blocks d b' \<longleftrightarrow>
     (case Mapping.lookup blocks d of
        None \<Rightarrow> False
      | Some b \<Rightarrow> b' = b \<or> on_chain blocks (bh_parent_hash (bl_header b)) b')"
  by (subst on_chain_step) (auto split: option.splits)

lemma find_canonical_returns:
  assumes "wf (parent_links blocks)"
  shows "\<exists>r. find_canonical f blocks d = Some r \<and>
     (case r of None \<Rightarrow> \<forall>b. on_chain blocks d b \<longrightarrow> f b = None | Some v \<Rightarrow> \<exists>b. on_chain blocks d b \<and> f b = Some v)"
  using assms
proof (induction d rule: wf_induct_rule)
  case (less d)
  show ?case
  proof (cases "Mapping.lookup blocks d")
    case None
    then show ?thesis by (subst find_canonical.simps) (simp add: on_chain_iff [of _ d])
  next
    case (Some b)
    let ?p = "bh_parent_hash (bl_header b)"
    have step: "find_canonical f blocks d = (case f b of Some r \<Rightarrow> Some (Some r) | None \<Rightarrow> find_canonical f blocks ?p)"
      using Some by (subst find_canonical.simps) simp
    have chain: "on_chain blocks d b' \<longleftrightarrow> b' = b \<or> on_chain blocks ?p b'" for b'
      using Some by (simp add: on_chain_iff [of _ d])
    show ?thesis
    proof (cases "f b")
      case (Some v)
      then show ?thesis unfolding step chain by auto
    next
      case fb: None
      have "\<exists>r. find_canonical f blocks ?p = Some r \<and>
          (case r of None \<Rightarrow> \<forall>b. on_chain blocks ?p b \<longrightarrow> f b = None | Some v \<Rightarrow> \<exists>b. on_chain blocks ?p b \<and> f b = Some v)"
      proof (cases "Mapping.lookup blocks ?p")
        case None
        then show ?thesis by (subst find_canonical.simps) (simp add: on_chain_iff [of _ ?p])
      next
        case p: (Some p)
        with Some have "(?p, d) \<in> parent_links blocks" by (simp add: parent_links_def)
        then show ?thesis by (rule less.IH)
      qed
      then obtain r where "find_canonical f blocks ?p = Some r"
        "case r of None \<Rightarrow> \<forall>b. on_chain blocks ?p b \<longrightarrow> f b = None | Some v \<Rightarrow> \<exists>b. on_chain blocks ?p b \<and> f b = Some v"
        by blast
      then show ?thesis unfolding step chain using fb by (intro exI [of _ r]) (cases r; auto)
    qed
  qed
qed

end
