(* ===== verification/Miner_Laws.thy ===== *)
theory Miner_Laws
  imports Miner Chain_Laws "HOL-Library.Sublist"
begin

text \<open>
  Laws of the miner: what a ground block satisfies, and why every node that has the parent accepts it.
\<close>

section \<open>Signatures and rewards\<close>

text \<open>
  What mining relies on of the packages: a signature made with a key pair verifies under its public
  key, and the serialization of a reward transaction is within the size limit of a call.
\<close>

locale signing =
  fixes x :: chain_ext
  assumes sign_verifies: "cx_verify x (cx_sign x kp msg) (cx_public x kp) msg"
    and reward_size: "length (cx_transaction x (make_reward_transaction x signer owner amount d)) \<le> 32768"
begin

lemma signed_reward_valid:
  assumes "signer = keypair_address x kp"
  shows "validate_signed_transaction x
    (fst (transaction_sign x kp (make_reward_transaction x signer owner amount d))) = Ok ()"
proof -
  let ?tx = "make_reward_transaction x signer owner amount d"
  have "validate_transaction x ?tx = Ok ()"
    using reward_size [of signer owner amount d]
    by (simp add: validate_transaction_Ok make_reward_transaction_def well_formed_call_def)
  moreover have "tx_sender ?tx = signer" by (simp add: make_reward_transaction_def)
  ultimately show ?thesis
    using assms sign_verifies
    by (simp add: validate_signed_transaction_def transaction_sign_def keypair_sign_def Let_def
        validate_signed_transaction_sender_def verify_signed_transaction_signature_def
        signature_signer_def signature_verify_def keypair_address_def)
qed

end

lemma made_reward_valid:
  assumes "bcs_ok x"
  shows "is_valid_reward_transaction x (make_reward_transaction x signer owner amount d) amount d"
  using assms
  by (auto simp: is_valid_reward_transaction_iff mints_def make_reward_transaction_def bcs_ok_def)

section \<open>Ground blocks\<close>

lemma reexecute_batch:
  "execute_batch k x ec batch s = Some (Inr (executed, results, s')) \<Longrightarrow>
     reexecute k x ec executed s = Some (Inr (results, s'))"
proof (induction batch arbitrary: s executed results)
  case (Cons st sts)
  from Cons.prems show ?case
    by (cases rule: execute_batch_Cons) (use Cons.IH in auto)
qed simp

lemma execute_batch_subseq:
  "execute_batch k x ec batch s = Some (Inr (executed, results, s')) \<Longrightarrow> subseq executed batch"
proof (induction batch arbitrary: s executed results)
  case (Cons st sts)
  from Cons.prems show ?case
    by (cases rule: execute_batch_Cons) (use Cons.IH in auto)
qed simp

lemma execute_batch_results:
  "execute_batch k x ec batch s = Some (Inr (executed, results, s')) \<Longrightarrow> length results = length executed"
proof (induction batch arbitrary: s executed results)
  case (Cons st sts)
  from Cons.prems show ?case
    by (cases rule: execute_batch_Cons) (use Cons.IH in auto)
qed simp

lemma mining_hash_roots [simp]:
  "mining_hash x (h\<lparr>bh_reward_root := r, bh_state_root := s\<rparr>) = mining_hash x h"
  by (simp add: mining_hash_def mining_header_of_def)

lemma block_context_roots [simp]:
  "block_context x (h\<lparr>bh_reward_root := r, bh_state_root := s\<rparr>) = block_context x h"
  by (simp add: block_context_def)

lemma meets_difficulty_roots [simp]:
  "meets_difficulty x (h\<lparr>bh_reward_root := r, bh_state_root := s\<rparr>) d = meets_difficulty x h d"
  by (simp add: meets_difficulty_def)

text \<open>What \<open>grind\<close> returns: a block on the work's parent, with a nonce that meets the difficulty, whose
  transactions come from the batch and whose results, reward and roots are those of its execution.\<close>

definition ground :: "nat \<Rightarrow> chain_ext \<Rightarrow> mining_work \<Rightarrow> block \<Rightarrow> store \<Rightarrow> bool" where
  "ground k x w b s \<longleftrightarrow>
     bl_transactions b \<noteq> [] \<and> subseq (bl_transactions b) (mw_batch w) \<and>
     length (bl_results b) = length (bl_transactions b) \<and>
     meets_difficulty x (bl_header b) (mw_difficulty w) \<and>
     bh_transactions_root (bl_header b) = compute_transactions_root x (bl_transactions b) \<and>
     bh_height (bl_header b) = bh_height (mw_header w) \<and>
     bh_parent_hash (bl_header b) = bh_parent_hash (mw_header w) \<and>
     bh_timestamp (bl_header b) = bh_timestamp (mw_header w) \<and>
     reward_root_of x b = bh_reward_root (bl_header b) \<and>
     compute_state_root x s = bh_state_root (bl_header b) \<and>
     (\<exists>s1. reexecute k x (block_context x (bl_header b)) (bl_transactions b) (mw_parent_store w) =
             Some (Inr (bl_results b, s1)) \<and>
        mint_reward k x (w\<lparr>mw_header := bl_header b\<rparr>) (sum_list (map er_gas_used (bl_results b))) s1 =
          Some (Inr (bl_reward_transaction b, bl_reward_transaction_result b, s)))"

lemma mint_reward_roots:
  "mint_reward k x (w\<lparr>mw_header := h\<lparr>bh_reward_root := r, bh_state_root := d\<rparr>\<rparr>) amount s =
     mint_reward k x (w\<lparr>mw_header := h\<rparr>) amount s"
  by (simp add: mint_reward_def)

lemma finish_block_ground:
  assumes "finish_block k x (w\<lparr>mw_header := h\<rparr>) executed results s1 = Some (Inr (b, s))"
    and "execute_batch k x (block_context x h) (mw_batch w) (mw_parent_store w) = Some (Inr (executed, results, s1))"
    and "executed \<noteq> []" "compute_transactions_root x executed = bh_transactions_root h"
    and "find_nonce x (mw_difficulty w) ((mw_header w)\<lparr>bh_nonce := 0\<rparr>) = Some h"
  shows "ground k x w b s"
proof -
  obtain reward reward_result where
    mint: "mint_reward k x (w\<lparr>mw_header := h\<rparr>) (sum_list (map er_gas_used results)) s1 =
      Some (Inr (reward, reward_result, s))"
    and b: "b = \<lparr>bl_header = h\<lparr>bh_reward_root := map_option (\<lambda>st. transaction_digest x (st_transaction st)) reward,
                  bh_state_root := compute_state_root x s\<rparr>,
               bl_transactions = executed, bl_results = results, bl_reward_transaction = reward,
               bl_reward_transaction_result = reward_result\<rparr>"
    using assms(1) by (auto simp: finish_block_def and_then_Inr_iff)
  note nonce = find_nonce_keeps [OF assms(5)]
  have "meets_difficulty x h (mw_difficulty w)" "bh_height h = bh_height (mw_header w)"
    "bh_parent_hash h = bh_parent_hash (mw_header w)" "bh_timestamp h = bh_timestamp (mw_header w)"
    using nonce by auto
  then show ?thesis
    using assms(3,4) mint execute_batch_subseq [OF assms(2)] execute_batch_results [OF assms(2)]
      reexecute_batch [OF assms(2)]
    by (simp add: ground_def b reward_root_of_def mint_reward_roots)
qed

lemma ground_retry:
  assumes "ground k x (w\<lparr>mw_header := h\<lparr>bh_transactions_root := root\<rparr>, mw_batch := executed\<rparr>) b s"
    and "subseq executed (mw_batch w)" "h = (mw_header w)\<lparr>bh_nonce := n\<rparr>"
  shows "ground k x w b s"
proof -
  have mint: "mint_reward k x ((w\<lparr>mw_header := h\<lparr>bh_transactions_root := root\<rparr>, mw_batch := executed\<rparr>)
      \<lparr>mw_header := h'\<rparr>) amount s1 = mint_reward k x (w\<lparr>mw_header := h'\<rparr>) amount s1" for h' amount s1
    by (simp add: mint_reward_def)
  show ?thesis
    using assms(1) subseq_order.trans [OF _ assms(2)] unfolding ground_def mint by (auto simp: assms(3))
qed

lemma grind_ground: "grind k x w = Some (Inr (Some (b, s))) \<Longrightarrow> ground k x w b s"
proof (induction k x w rule: grind.induct)
  case (1 k x w)
  from "1.prems" obtain h where nonce: "find_nonce x (mw_difficulty w) ((mw_header w)\<lparr>bh_nonce := 0\<rparr>) = Some h"
    by (subst (asm) grind.simps) (auto split: option.splits)
  with "1.prems" obtain executed results s1 where
    batch: "execute_batch k x (block_context x h) (mw_batch w) (mw_parent_store w) = Some (Inr (executed, results, s1))"
    and ne: "executed \<noteq> []"
    by (subst (asm) grind.simps) (auto split: option.splits sum.splits if_splits)
  let ?root = "compute_transactions_root x executed"
  show ?case
  proof (cases "?root = bh_transactions_root h")
    case True
    then have "finish_block k x (w\<lparr>mw_header := h\<rparr>) executed results s1 = Some (Inr (b, s))"
      using "1.prems" nonce batch ne by (subst (asm) grind.simps) (auto simp: and_then_Inr_iff)
    then show ?thesis by (rule finish_block_ground [OF _ batch ne True nonce])
  next
    case False
    then have "grind k x (w\<lparr>mw_header := h\<lparr>bh_transactions_root := ?root\<rparr>, mw_batch := executed\<rparr>) =
        Some (Inr (Some (b, s)))"
      using "1.prems" nonce batch ne by (subst (asm) grind.simps) simp
    from 1(1) [OF nonce batch _ _ _ ne _ False, OF _ _ _ _ this]
    have "ground k x (w\<lparr>mw_header := h\<lparr>bh_transactions_root := ?root\<rparr>, mw_batch := executed\<rparr>) b s" by blast
    moreover obtain n where "h = (mw_header w)\<lparr>bh_nonce := n\<rparr>" using find_nonce_keeps [OF nonce] by auto
    ultimately show ?thesis using ground_retry execute_batch_subseq [OF batch] by blast
  qed
qed

section \<open>Acceptance\<close>

lemma mint_reward_cases:
  assumes "mint_reward k x w amount s1 = Some (Inr (reward, reward_result, s))"
  obtains (none) "amount = 0" "reward = None" "reward_result = None" "s = s1"
  | (minted) st r where "amount \<noteq> 0" "reward = Some st" "reward_result = Some r"
      "st = fst (transaction_sign x (mw_keypair w)
         (make_reward_transaction x (mw_miner_address w) (mw_reward_address w) amount (mining_hash x (mw_header w))))"
      "execute_reward_transaction k x (st_transaction st) s1 = Some (Inr r)" "apply_execution_result r s1 = Inr s"
  using assms
  by (auto simp: mint_reward_def Let_def word_gt_0 split: if_splits option.splits sum.splits fault.splits)

lemma st_transaction_sign [simp]: "st_transaction (fst (transaction_sign x kp tx)) = tx"
  by (simp add: transaction_sign_def Let_def)

context signing
begin

lemma mint_reward_accepted:
  assumes "bcs_ok x" "mw_miner_address w = keypair_address x (mw_keypair w)"
    and mint: "mint_reward k x w amount s1 = Some (Inr (bl_reward_transaction b, bl_reward_transaction_result b, s))"
    and "mining_hash x (bl_header b) = mining_hash x (mw_header w)"
  shows "apply_reward k x b amount s1 = Some (Inr (Some s))"
  using mint
proof (cases rule: mint_reward_cases)
  case none
  then show ?thesis by (simp add: apply_reward_def)
next
  case (minted st r)
  have "validate_signed_transaction x st = Ok ()"
    using minted(4) signed_reward_valid [OF assms(2)] by simp
  moreover have "is_valid_reward_transaction x (st_transaction st) amount (mining_hash x (bl_header b))"
    using made_reward_valid [OF assms(1)] minted(4) assms(4) by simp
  ultimately show ?thesis
    using minted by (simp add: apply_reward_def apply_block_reward_transaction_def)
qed

lemma ground_replay:
  assumes "bcs_ok x" "mw_miner_address w = keypair_address x (mw_keypair w)" "ground k x w b s"
  shows "replay_block k x b (mw_parent_store w) = Some (Ok s)"
proof -
  from assms(3) obtain s1 where
    run: "reexecute k x (block_context x (bl_header b)) (bl_transactions b) (mw_parent_store w) =
      Some (Inr (bl_results b, s1))"
    and mint: "mint_reward k x (w\<lparr>mw_header := bl_header b\<rparr>) (sum_list (map er_gas_used (bl_results b))) s1 =
      Some (Inr (bl_reward_transaction b, bl_reward_transaction_result b, s))"
    and root: "compute_state_root x s = bh_state_root (bl_header b)"
    unfolding ground_def by blast
  have "apply_reward k x b (sum_list (map er_gas_used (bl_results b))) s1 = Some (Inr (Some s))"
    by (rule mint_reward_accepted [OF assms(1) _ mint]) (use assms(2) in simp_all)
  then show ?thesis by (simp add: replay_block_def run root)
qed

end

lemma no_duplicates_Ok:
  "no_duplicates x seen sts = Inr u \<longleftrightarrow>
     distinct (map (st_digest x) sts) \<and> seen \<inter> st_digest x ` set sts = {}"
  by (induction x seen sts rule: no_duplicates.induct) (auto simp: Let_def)

lemma subseq_distinct: "subseq xs ys \<Longrightarrow> distinct ys \<Longrightarrow> distinct xs"
  by (induction rule: list_emb.induct) (auto dest: list_emb_set)

lemma ground_structure:
  assumes g: "ground k x w b s" and "distinct (map (st_digest x) (mw_batch w))"
    "length (mw_batch w) \<le> MAX_TRANSACTIONS_PER_BLOCK"
    "bh_timestamp (mw_header w) \<le> now + MAX_BLOCK_FUTURE_DRIFT_MS"
  shows "validate_block_structure x now b (mw_difficulty w) = Ok ()"
proof -
  have sub: "subseq (bl_transactions b) (mw_batch w)" using g by (simp add: ground_def)
  have "distinct (map (st_digest x) (bl_transactions b))"
    using subseq_map [OF sub] assms(2) by (rule subseq_distinct)
  then have "no_duplicates x {} (bl_transactions b) = Inr ()" by (simp add: no_duplicates_Ok)
  moreover have "length (bl_transactions b) \<le> MAX_TRANSACTIONS_PER_BLOCK"
    using list_emb_length [OF sub] assms(3) by simp
  moreover have "(bl_reward_transaction b \<noteq> None) = (bl_reward_transaction_result b \<noteq> None)"
    using g unfolding ground_def by (auto elim: mint_reward_cases)
  ultimately show ?thesis
    using g assms(4) by (simp add: ground_def validate_block_structure_def Let_def not_less)
qed

lemma ground_wf:
  assumes "ground k x w b s" "store_wf (mw_parent_store w)"
  shows "store_wf s"
proof -
  obtain s1 where
    "reexecute k x (block_context x (bl_header b)) (bl_transactions b) (mw_parent_store w) =
      Some (Inr (bl_results b, s1))"
    and mint: "mint_reward k x (w\<lparr>mw_header := bl_header b\<rparr>) (sum_list (map er_gas_used (bl_results b))) s1 =
      Some (Inr (bl_reward_transaction b, bl_reward_transaction_result b, s))"
    using assms(1) unfolding ground_def by blast
  then have "store_wf s1" using reexecute_wf assms(2) by blast
  with mint show ?thesis by (cases rule: mint_reward_cases) (auto intro: store_wf_apply)
qed

section \<open>Nodes\<close>

text \<open>What a node does, on its state and the mining rounds it has handed out so far.\<close>

inductive node_step :: "chain_ext \<Rightarrow> miner \<Rightarrow> mining_work set \<Rightarrow> miner \<Rightarrow> mining_work set \<Rightarrow> bool" for x where
  submitted: "node_step x m W (snd (submit_transaction x st m)) W"
| peer_block: "miner_apply_block k x now b m = Some (Ok (reorged, m')) \<Longrightarrow> node_step x m W m' W"
| snapshot: "replace_from_snapshot x now snap m = Ok m' \<Longrightarrow> node_step x m W m' W"
| prepared: "prepare_round x now m = Ok (wo, m') \<Longrightarrow> node_step x m W m' (set_option wo \<union> W)"
| mined: "w \<in> W \<Longrightarrow> grind k x w = Some (Ok (Some (b, s))) \<Longrightarrow> commit_mined x now b s m = Ok (committed, m') \<Longrightarrow>
    node_step x m W m' W"

inductive node_reachable :: "chain_ext \<Rightarrow> miner \<Rightarrow> mining_work set \<Rightarrow> bool" for x where
  start: "node_reachable x (with_genesis x genesis_objects cfg) {}"
| step: "node_reachable x m W \<Longrightarrow> node_step x m W m' W' \<Longrightarrow> node_reachable x m' W'"

definition work_wf :: "chain_ext \<Rightarrow> u32 \<Rightarrow> nat \<Rightarrow> mining_work \<Rightarrow> bool" where
  "work_wf x difficulty batch_size w \<longleftrightarrow>
     store_wf (mw_parent_store w) \<and> mw_difficulty w = difficulty \<and> length (mw_batch w) = batch_size \<and>
     distinct (map (st_digest x) (mw_batch w)) \<and>
     (\<forall>st \<in> set (mw_batch w). validate_signed_transaction x st = Ok ()) \<and>
     mw_miner_address w = keypair_address x (mw_keypair w)"

definition node_wf :: "chain_ext \<Rightarrow> miner \<Rightarrow> mining_work set \<Rightarrow> bool" where
  "node_wf x m W \<longleftrightarrow>
     chain_wf x (mi_chain m) \<and> mempool_wf x (mi_mempool m) \<and>
     mi_miner_address m = keypair_address x (mi_keypair m) \<and>
     (\<forall>w \<in> W. work_wf x (ch_difficulty (mi_chain m)) (mi_batch_size m) w)"

lemma prepare_round_work:
  assumes "prepare_round x now m = Inr (Some w, m')" "node_wf x m W"
    and hb: "Mapping.lookup (ch_blocks (mi_chain m)) (ch_head (mi_chain m)) = Some hb"
  shows "work_wf x (ch_difficulty (mi_chain m)) (mi_batch_size m) w"
    and "mw_header w = \<lparr>bh_height = bh_height (bl_header hb) + 1, bh_parent_hash = ch_head (mi_chain m),
           bh_transactions_root = compute_transactions_root x (mw_batch w), bh_reward_root = None,
           bh_state_root = digest_zero, bh_timestamp = now, bh_nonce = 0\<rparr>"
    and "Mapping.lookup (ch_snapshots (mi_chain m)) (ch_head (mi_chain m)) = Some (mw_parent_store w)"
proof -
  have wf: "chain_wf x (mi_chain m)" and pool: "mempool_wf x (mi_mempool m)" using assms(2) by (auto simp: node_wf_def)
  obtain b s where head: "Mapping.lookup (ch_blocks (mi_chain m)) (ch_head (mi_chain m)) = Some b"
    "Mapping.lookup (ch_snapshots (mi_chain m)) (ch_head (mi_chain m)) = Some s" "store_wf s"
    "head_height (mi_chain m) = Inr (bh_height (bl_header b))" "head_store (mi_chain m) = Inr s"
    using chain_wf_head [OF wf] by metis
  let ?batch = "take (mi_batch_size m) (mp_pending (mi_mempool m))"
  have size: "mi_batch_size m \<le> length (mp_pending (mi_mempool m))"
    and w: "mw_header w = \<lparr>bh_height = bh_height (bl_header b) + 1, bh_parent_hash = ch_head (mi_chain m),
           bh_transactions_root = compute_transactions_root x ?batch, bh_reward_root = None,
           bh_state_root = digest_zero, bh_timestamp = now, bh_nonce = 0\<rparr>"
      "mw_batch w = ?batch" "mw_parent_store w = s" "mw_difficulty w = ch_difficulty (mi_chain m)"
      "mw_miner_address w = mi_miner_address m" "mw_keypair w = mi_keypair m"
    using assms(1) head(4,5)
    by (auto simp: prepare_round_def drain_batch_def mempool_len_def Let_def not_less min_def split: if_splits)
  show "work_wf x (ch_difficulty (mi_chain m)) (mi_batch_size m) w"
    using pool size assms(2) head(3) w
    by (auto simp: work_wf_def node_wf_def mempool_wf_def take_map [symmetric] dest: in_set_takeD)
  show "Mapping.lookup (ch_snapshots (mi_chain m)) (ch_head (mi_chain m)) = Some (mw_parent_store w)"
    using head(2) w(3) by simp
  show "mw_header w = \<lparr>bh_height = bh_height (bl_header hb) + 1, bh_parent_hash = ch_head (mi_chain m),
           bh_transactions_root = compute_transactions_root x (mw_batch w), bh_reward_root = None,
           bh_state_root = digest_zero, bh_timestamp = now, bh_nonce = 0\<rparr>"
    using hb head(1) w(1,2) by simp
qed

lemma map_fault_Inr [simp]: "map_fault f r = Inr a \<longleftrightarrow> r = Inr a"
  by (auto simp: map_fault_def split: sum.splits fault.splits)

lemma fail_with_Inr [simp]: "fail_with f r = Inr a \<longleftrightarrow> r = Inr a"
  by (auto simp: fail_with_def split: sum.splits)

lemma node_wf_chain:
  "node_wf x m W \<Longrightarrow> chain_wf x c \<Longrightarrow> mempool_wf x mp \<Longrightarrow> ch_difficulty c = ch_difficulty (mi_chain m) \<Longrightarrow>
     node_wf x (m\<lparr>mi_chain := c, mi_mempool := mp\<rparr>) W"
  by (simp add: node_wf_def)

lemma prune_difficulty: "prune_finalized_blocks c = Inr c' \<Longrightarrow> ch_difficulty c' = ch_difficulty c"
  by (auto simp: prune_finalized_blocks_def and_then_Inr_iff Let_def split: if_splits)

lemma apply_block_difficulty:
  assumes "apply_block k x now b c = Some (Inr (reorged, c'))"
  shows "ch_difficulty c' = ch_difficulty c"
  using assms
  by (rule apply_block_Ok)
    (auto simp: adopt_block_def Let_def and_then_Inr_iff dest!: prune_difficulty split: if_splits)

lemma node_wf_peer_block:
  assumes wf: "node_wf x m W" and app: "miner_apply_block k x now b m = Some (Inr (reorged, m'))"
  shows "node_wf x m' W"
proof -
  from app obtain r c where c: "apply_block k x now b (mi_chain m) = Some (Inr (r, c))"
    and rest: "(if r
          then and_then (or_panic (head_store c)) (\<lambda>s.
                 Ok (True, m\<lparr>mi_chain := c, mi_mempool := retain_valid x s (mi_mempool m)\<rparr>))
          else Ok (False, m\<lparr>mi_chain := c\<rparr>)) = (Inr (reorged, m') :: miner_error fault + _)"
    by (auto simp: miner_apply_block_def and_then_Inr_iff)
  have m': "\<exists>mp. (mp = mi_mempool m \<or> (\<exists>s. mp = retain_valid x s (mi_mempool m))) \<and>
      m' = m\<lparr>mi_chain := c, mi_mempool := mp\<rparr>"
    using rest by (cases r) (auto simp: and_then_Inr_iff intro: exI [of _ "mi_mempool m"])
  have "chain_wf x c" by (rule apply_block_wf [OF _ c]) (use wf in \<open>simp add: node_wf_def\<close>)
  then show ?thesis
    using m' node_wf_chain [OF wf] apply_block_difficulty [OF c] retain_valid_wf wf
    by (auto simp: node_wf_def)
qed

lemma node_wf_snapshot:
  assumes wf: "node_wf x m W" and "replace_from_snapshot x now snap m = Inr m'"
  shows "node_wf x m' W"
proof -
  from assms(2) obtain height c where
    c: "from_snapshot x now height (ss_head snap) (with_objects (ss_objects snap))
      (ch_difficulty (mi_chain m)) (ch_snapshot_depth (mi_chain m)) = Inr c"
    and m': "m' = m\<lparr>mi_chain := c, mi_mempool := mempool_empty\<rparr>"
    by (auto simp: replace_from_snapshot_def and_then_Inr_iff)
  have "ch_difficulty c = ch_difficulty (mi_chain m)"
    using c by (auto simp: from_snapshot_def Let_def and_then_Inr_iff split: if_splits)
  then show ?thesis using node_wf_chain [OF wf from_snapshot_wf [OF c]] m' by simp
qed

lemma node_wf_mined:
  assumes wf: "node_wf x m W" and w: "w \<in> W" and g: "grind k x w = Some (Inr (Some (b, s)))"
    and com: "commit_mined x now b s m = Inr (committed, m')"
  shows "node_wf x m' W"
proof (cases "bh_parent_hash (bl_header b) = ch_head (mi_chain m)")
  case True
  with com obtain c where c: "commit x now b s (mi_chain m) = Inr c" and m': "m' = m\<lparr>mi_chain := c\<rparr>"
    by (auto simp: commit_mined_def and_then_Inr_iff)
  note ground = grind_ground [OF g]
  have "store_wf s" using ground_wf [OF ground] wf w by (auto simp: node_wf_def work_wf_def)
  moreover have "compute_state_root x s = bh_state_root (bl_header b)" using ground by (simp add: ground_def)
  ultimately have "chain_wf x c"
    using commit_wf [OF _ c] wf by (simp add: node_wf_def)
  moreover have "ch_difficulty c = ch_difficulty (mi_chain m)"
    using c by (auto simp: commit_def Let_def dest!: prune_difficulty split: sum.splits)
  ultimately show ?thesis using wf m' by (simp add: node_wf_def)
next
  case False
  then show ?thesis using com wf by (auto simp: commit_mined_def)
qed

lemma node_wf_prepared:
  assumes wf: "node_wf x m W" and prep: "prepare_round x now m = Inr (wo, m')"
  shows "node_wf x m' (set_option wo \<union> W)"
proof -
  obtain hb where hb: "Mapping.lookup (ch_blocks (mi_chain m)) (ch_head (mi_chain m)) = Some hb"
    using wf by (auto simp: node_wf_def chain_wf_def)
  have "\<exists>mp. m' = m\<lparr>mi_mempool := mp\<rparr> \<and> mempool_wf x mp"
    using prep wf drain_batch_wf [of x "mi_mempool m" "mi_batch_size m"]
    by (auto simp: prepare_round_def node_wf_def and_then_Inr_iff split: if_splits prod.splits intro: exI [of _ "mi_mempool m"])
  moreover have "work_wf x (ch_difficulty (mi_chain m)) (mi_batch_size m) w" if "wo = Some w" for w
    using prepare_round_work(1) [OF prep [unfolded that] wf hb] .
  ultimately show ?thesis using wf by (auto simp: node_wf_def)
qed

lemma node_step_wf:
  assumes "node_step x m W m' W'" "node_wf x m W"
  shows "node_wf x m' W'"
  using assms
proof (cases rule: node_step.cases)
  case (submitted st)
  with assms(2) show ?thesis
    using submit_wf [of x "mi_mempool m" st]
    by (cases "head_store (mi_chain m)") (simp_all add: node_wf_def submit_transaction_def split_beta)
qed (blast intro: assms(2) node_wf_peer_block node_wf_snapshot node_wf_prepared node_wf_mined)+

lemma node_reachable_wf: "node_reachable x m W \<Longrightarrow> node_wf x m W"
proof (induction rule: node_reachable.induct)
  case (start genesis_objects cfg)
  show ?case by (simp add: node_wf_def with_genesis_def miner_new_def chain_wf_new)
qed (rule node_step_wf)

end
