(* ===== verification/Consensus.thy ===== *)
theory Consensus
  imports Miner_Laws Sample_Chain
begin

text \<open>
  How nodes agree: the invariant of a node, the acceptance of mined blocks by every node that has the
  parent, and the transfer of the state by a snapshot.
\<close>

section \<open>A sample network\<close>

text \<open>A genesis with a coin and two module objects, and a miner that puts one transaction in a block.\<close>

definition net_genesis :: "object list" where
  "net_genesis = [sample_coin 5000, fresh_module MEOW_OBJECT_MODULE_ADDRESS digest_zero [],
     fresh_module MEOW_COIN_MODULE_ADDRESS digest_zero []]"

definition net_config :: miner_config where
  "net_config = \<lparr>mc_difficulty = 8, mc_keypair = sample_key, mc_reward_address = address_suffixed 3,
     mc_batch_size = 1, mc_snapshot_depth = 10\<rparr>"

definition net_start :: miner where
  "net_start = with_genesis sample_ext net_genesis net_config"

definition net_submitted :: miner where
  "net_submitted = snd (submit_transaction sample_ext sample_signed net_start)"

definition net_round :: "mining_work option \<times> miner" where
  "net_round = (case prepare_round sample_ext 1000 net_submitted of Inl _ \<Rightarrow> (None, net_submitted) | Inr r \<Rightarrow> r)"

definition net_work :: mining_work where
  "net_work = the (fst net_round)"

definition net_mined :: "block \<times> store" where
  "net_mined = (case grind 10 sample_ext net_work of Some (Inr (Some bs)) \<Rightarrow> bs | _ \<Rightarrow> (block_genesis, store_default))"

lemma net_prepared: "prepare_round sample_ext 1000 net_submitted = Ok (Some net_work, snd net_round)"
  by code_simp

lemma net_ground: "grind 10 sample_ext net_work = Some (Ok (Some (fst net_mined, snd net_mined)))"
proof -
  have "(case grind 10 sample_ext net_work of Some (Inr (Some _)) \<Rightarrow> True | _ \<Rightarrow> False)" by code_simp
  then show ?thesis by (auto simp: net_mined_def split: option.splits sum.splits)
qed

lemma net_reachable: "node_reachable sample_ext net_start {}" "node_reachable sample_ext net_submitted {}"
  by (auto simp: net_start_def net_submitted_def intro: node_reachable.intros node_step.submitted)

interpretation std_signing: signing sample_ext
proof
  show "cx_verify sample_ext (cx_sign sample_ext kp msg) (cx_public sample_ext kp) msg" for kp msg
    by (simp add: sample_ext_def)
  show "length (cx_transaction sample_ext (make_reward_transaction sample_ext signer owner amount d)) \<le> 32768"
    for signer owner amount d
    by (simp add: sample_ext_def to_le_bytes_def)
qed

section \<open>Rewards\<close>

text \<open>C29. The check of the block reward accepts the transaction the miner builds for exactly its amount and
  its mining hash, and no other.\<close>

theorem reward_transaction_exact:
  assumes "bcs_ok x"
  shows "is_valid_reward_transaction x (make_reward_transaction x signer owner amount d) n e \<longleftrightarrow> n = amount \<and> e = d"
  using assms by (auto simp: is_valid_reward_transaction_iff mints_def make_reward_transaction_def bcs_ok_def)

theorem reward_transaction_exact_witness:
  "is_valid_reward_transaction sample_ext
     (make_reward_transaction sample_ext sample_sender sample_sender 1000 digest_zero) 1000 digest_zero \<and>
   \<not> is_valid_reward_transaction sample_ext
     (make_reward_transaction sample_ext sample_sender sample_sender 1000 digest_zero) 1001 digest_zero"
  using reward_transaction_exact [OF std_bcs.bcs_contract] by simp

section \<open>Nodes\<close>

text \<open>C24. Whatever a node receives, submits and mines, its state stays sound: the head block and its
  snapshot exist, every block has a snapshot and is stored under its hash, every block but the
  genesis passed the structural checks and its snapshot has the state root of its header, and the
  pool keeps its invariant.  So the \<open>expect\<close>s on the head never panic.\<close>

theorem node_invariant:
  assumes "node_reachable x m W"
  shows "(\<exists>b. head_block (mi_chain m) = Ok b \<and> block_hash x b = ch_head (mi_chain m)) \<and>
     (\<exists>s. head_store (mi_chain m) = Ok s \<and> store_wf s) \<and>
     Mapping.keys (ch_snapshots (mi_chain m)) = Mapping.keys (ch_blocks (mi_chain m)) \<and>
     (\<forall>d b s. get_block (mi_chain m) d = Some b \<and> Mapping.lookup (ch_snapshots (mi_chain m)) d = Some s \<longrightarrow>
        block_hash x b = d \<and>
        (b = block_genesis \<or>
         block_sound x (ch_difficulty (mi_chain m)) b \<and> compute_state_root x s = bh_state_root (bl_header b))) \<and>
     mempool_wf x (mi_mempool m)"
proof -
  have wf: "chain_wf x (mi_chain m)" and pool: "mempool_wf x (mi_mempool m)"
    using node_reachable_wf [OF assms] by (auto simp: node_wf_def)
  obtain b s where "Mapping.lookup (ch_blocks (mi_chain m)) (ch_head (mi_chain m)) = Some b"
    "Mapping.lookup (ch_snapshots (mi_chain m)) (ch_head (mi_chain m)) = Some s"
    "head_block (mi_chain m) = Ok b" "head_store (mi_chain m) = Ok s"
    using chain_wf_head [OF wf] by metis
  then show ?thesis using wf pool by (auto simp: chain_wf_def entry_wf_def get_block_def)
qed

theorem node_invariant_witness:
  "(\<exists>b. head_block (mi_chain net_submitted) = Ok b \<and> block_hash sample_ext b = ch_head (mi_chain net_submitted)) \<and>
   (\<exists>s. head_store (mi_chain net_submitted) = Ok s \<and> store_wf s) \<and> mempool_wf sample_ext (mi_mempool net_submitted)"
  using node_invariant [OF net_reachable(2)] by blast

section \<open>Mined blocks\<close>

lemma prune_keeps_head:
  assumes "Mapping.lookup (ch_blocks c) (ch_head c) = Some hb" "Mapping.lookup (ch_snapshots c) (ch_head c) = Some s"
  shows "\<exists>c'. prune_finalized_blocks c = Inr c' \<and> ch_head c' = ch_head c \<and>
     Mapping.lookup (ch_blocks c') (ch_head c) = Some hb \<and> Mapping.lookup (ch_snapshots c') (ch_head c) = Some s"
  by (rule prune_Inr [OF assms(1)]) (use assms in \<open>auto simp: within_depth_def\<close>)

lemma adopt_block_keeps:
  assumes "chain_wf x c"
  shows "\<exists>reorged c'. adopt_block d b s c = Inr (reorged, c') \<and> Mapping.lookup (ch_snapshots c') d = Some s"
proof -
  let ?c = "insert_block d b s c"
  have new: "Mapping.lookup (ch_blocks ?c) d = Some b" "Mapping.lookup (ch_snapshots ?c) d = Some s"
    by (simp_all add: insert_block_def)
  obtain h where h: "head_height ?c = Inr h"
    using assms by (cases "d = ch_head c") (auto simp: head_height_Inr insert_block_def lookup_update' chain_wf_def)
  show ?thesis
  proof (cases "bh_height (bl_header b) > h")
    case True
    then show ?thesis
      using prune_keeps_head [of "?c\<lparr>ch_head := d\<rparr>" b s] new h by (auto simp: adopt_block_def)
  next
    case False
    then show ?thesis using new h by (auto simp: adopt_block_def)
  qed
qed

lemma mined_block:
  assumes "node_reachable x m W" and prep: "prepare_round x t m = Inr (Some w, m')"
    and mined: "grind k x w = Some (Inr (Some (b, s)))"
    and parent: "get_block (mi_chain m) (ch_head (mi_chain m)) = Some parent"
    and "mi_batch_size m \<le> MAX_TRANSACTIONS_PER_BLOCK" "t \<le> now + MAX_BLOCK_FUTURE_DRIFT_MS"
  shows "ground k x w b s" "work_wf x (ch_difficulty (mi_chain m)) (mi_batch_size m) w"
    and "bh_height (bl_header b) = bh_height (bl_header parent) + 1"
      "bh_parent_hash (bl_header b) = ch_head (mi_chain m)" "bh_timestamp (bl_header b) = t"
    and "validate_block_structure x now b (ch_difficulty (mi_chain m)) = Ok ()"
    and "Mapping.lookup (ch_snapshots (mi_chain m)) (ch_head (mi_chain m)) = Some (mw_parent_store w)"
proof -
  have wf: "node_wf x m W" by (rule node_reachable_wf [OF assms(1)])
  note work = prepare_round_work [OF prep wf parent [unfolded get_block_def]]
  show g: "ground k x w b s" by (rule grind_ground [OF mined])
  show "bh_height (bl_header b) = bh_height (bl_header parent) + 1"
    "bh_parent_hash (bl_header b) = ch_head (mi_chain m)" "bh_timestamp (bl_header b) = t"
    using g work(2) by (simp_all add: ground_def)
  show "validate_block_structure x now b (ch_difficulty (mi_chain m)) = Ok ()"
    using ground_structure [OF g] work(1,2) assms(5,6) by (simp add: work_wf_def)
  show "work_wf x (ch_difficulty (mi_chain m)) (mi_batch_size m) w"
    "Mapping.lookup (ch_snapshots (mi_chain m)) (ch_head (mi_chain m)) = Some (mw_parent_store w)"
    by (rule work)+
qed

lemma mined_block_applies:
  assumes "signing x" "bcs_ok x" "node_reachable x m W"
    and prep: "prepare_round x t m = Inr (Some w, m')" and mined: "grind k x w = Some (Inr (Some (b, s)))"
    and "mi_batch_size m \<le> MAX_TRANSACTIONS_PER_BLOCK" "ch_difficulty c = ch_difficulty (mi_chain m)"
    and parent: "get_block (mi_chain m) (ch_head (mi_chain m)) = Some parent"
      "get_block c (ch_head (mi_chain m)) = Some parent"
      "Mapping.lookup (ch_snapshots c) (ch_head (mi_chain m)) =
         Mapping.lookup (ch_snapshots (mi_chain m)) (ch_head (mi_chain m))"
    and new: "get_block c (block_hash x b) = None"
    and time: "bh_timestamp (bl_header parent) < t" "t \<le> now + MAX_BLOCK_FUTURE_DRIFT_MS"
  shows "apply_block k x now b c = Some (or_panic (adopt_block (block_hash x b) b s c))"
proof -
  note block = mined_block [OF assms(3) prep mined parent(1) assms(6) time(2)]
  have late: "\<not> bh_timestamp (bl_header b) \<le> bh_timestamp (bl_header parent)" using block(5) time(1) by simp
  have "list_all (\<lambda>st. validate_signed_transaction x st = Ok ()) (bl_transactions b)"
    using block(1,2) list_emb_set [of "(=)"] by (fastforce simp: ground_def work_wf_def list_all_iff)
  moreover have "replay_block k x b (mw_parent_store w) = Some (Ok s)"
    by (rule signing.ground_replay [OF assms(1,2) _ block(1)]) (use block(2) in \<open>simp add: work_wf_def\<close>)
  ultimately show ?thesis
    using block(3,4,6,7) parent(2,3) new late assms(7) by (simp add: apply_block_def get_block_def)
qed

text \<open>C25. A block that a node mines is accepted by every node of the same difficulty that has the parent
  block with the same store and does not have the block yet, when the batch is within the block limit and
  the clock of the round is after the parent's timestamp and at most two minutes ahead of the other node's
  clock: \<open>apply_block\<close> accepts it and computes the miner's store.  Signatures of the miner must verify, and
  the codec must read back what it writes.\<close>

theorem mined_block_accepted:
  assumes "signing x" "bcs_ok x" "node_reachable x m W"
    and "prepare_round x t m = Ok (Some w, m')" "grind k x w = Some (Ok (Some (b, s)))"
    and "mi_batch_size m \<le> MAX_TRANSACTIONS_PER_BLOCK" "ch_difficulty c = ch_difficulty (mi_chain m)"
    and "get_block (mi_chain m) (ch_head (mi_chain m)) = Some parent"
      "get_block c (ch_head (mi_chain m)) = Some parent"
      "Mapping.lookup (ch_snapshots c) (ch_head (mi_chain m)) =
         Mapping.lookup (ch_snapshots (mi_chain m)) (ch_head (mi_chain m))"
    and "get_block c (block_hash x b) = None"
    and "bh_timestamp (bl_header parent) < t" "t \<le> now + MAX_BLOCK_FUTURE_DRIFT_MS" and "chain_wf x c"
  shows "\<exists>reorged c'. apply_block k x now b c = Some (Ok (reorged, c')) \<and>
     Mapping.lookup (ch_snapshots c') (block_hash x b) = Some s"
  using mined_block_applies [OF assms(1-13)] adopt_block_keeps [OF assms(14), of "block_hash x b" b s]
  by (auto simp: or_panic_def)

lemma net_parent: "get_block (mi_chain net_start) (ch_head (mi_chain net_start)) = Some block_genesis"
  by (simp add: net_start_def with_genesis_def miner_new_def chain_new_def get_block_def Let_def)

lemma net_submitted_chain:
  "mi_chain net_submitted = mi_chain net_start" "mi_batch_size net_submitted = 1"
  by (auto simp: net_submitted_def submit_transaction_def net_start_def with_genesis_def miner_new_def net_config_def
      split: sum.splits prod.splits)

lemma net_start_wf: "chain_wf sample_ext (mi_chain net_start)"
  using node_reachable_wf [OF net_reachable(1)] by (simp add: node_wf_def)

lemma net_block_new: "get_block (mi_chain net_start) (block_hash sample_ext (fst net_mined)) = None"
  by code_simp

lemmas net_facts = net_submitted_chain net_parent net_start_wf MAX_TRANSACTIONS_PER_BLOCK_def
  block_genesis_def MAX_BLOCK_FUTURE_DRIFT_MS_def

theorem mined_block_accepted_witness:
  "\<exists>reorged c'. apply_block 10 sample_ext 1000 (fst net_mined) (mi_chain net_start) = Some (Ok (reorged, c')) \<and>
     Mapping.lookup (ch_snapshots c') (block_hash sample_ext (fst net_mined)) = Some (snd net_mined)"
  by (rule mined_block_accepted [OF std_signing.signing_axioms std_bcs.bcs_contract net_reachable(2)
        net_prepared net_ground _ _ _ _ _ net_block_new])
    (auto simp: net_facts)

lemma net_applies:
  "\<exists>reorged c'. apply_block 10 sample_ext 1000 (fst net_mined) (mi_chain net_start) = Some (Inr (reorged, c'))"
proof -
  have "apply_block 10 sample_ext 1000 (fst net_mined) (mi_chain net_start) = Some (or_panic
      (adopt_block (block_hash sample_ext (fst net_mined)) (fst net_mined) (snd net_mined) (mi_chain net_start)))"
    by (rule mined_block_applies [OF std_signing.signing_axioms std_bcs.bcs_contract net_reachable(2)
          net_prepared net_ground _ _ _ _ _ net_block_new])
      (auto simp: net_facts)
  then show ?thesis using adopt_block_keeps [OF net_start_wf] by (metis or_panic_Inr)
qed

lemma net_start_highest: "head_highest (mi_chain net_start)"
  by (simp add: head_highest_def net_start_def with_genesis_def miner_new_def chain_new_def Let_def lookup_update')

theorem apply_block_fork_choice_witness:
  "\<exists>c'. apply_block 10 sample_ext 1000 (fst net_mined) (mi_chain net_start) = Some (Ok (True, c')) \<and>
     ch_head c' = block_hash sample_ext (fst net_mined) \<and> head_highest c'"
proof -
  obtain reorged c' where
    app: "apply_block 10 sample_ext 1000 (fst net_mined) (mi_chain net_start) = Some (Inr (reorged, c'))"
    using net_applies by blast
  have "bh_height (bl_header (fst net_mined)) = 1"
    using mined_block(3) [OF net_reachable(2) net_prepared net_ground, of block_genesis 1000]
    by (simp add: net_facts)
  with apply_block_fork_choice [OF net_start_wf app net_parent [unfolded get_block_def] net_start_highest] app
  show ?thesis by (simp add: net_facts)
qed

lemma commit_mined_ok:
  assumes "node_reachable x m W" "w \<in> W" and mined: "grind k x w = Some (Inr (Some (b, s)))"
    and "mi_batch_size m \<le> MAX_TRANSACTIONS_PER_BLOCK"
    and "bh_timestamp (mw_header w) \<le> now + MAX_BLOCK_FUTURE_DRIFT_MS"
    and "bh_parent_hash (bl_header b) = ch_head (mi_chain m)"
  shows "\<exists>m'. commit_mined x now b s m = Inr (True, m') \<and> ch_head (mi_chain m') = block_hash x b \<and>
     head_block (mi_chain m') = Inr b \<and> head_store (mi_chain m') = Inr s"
proof -
  have "work_wf x (ch_difficulty (mi_chain m)) (mi_batch_size m) w"
    using node_reachable_wf [OF assms(1)] assms(2) by (simp add: node_wf_def)
  then have struct: "validate_block_structure x now b (ch_difficulty (mi_chain m)) = Ok ()"
    using ground_structure [OF grind_ground [OF mined]] assms(4,5) by (simp add: work_wf_def)
  let ?c = "(insert_block (block_hash x b) b s (mi_chain m))\<lparr>ch_head := block_hash x b\<rparr>"
  obtain c' where "prune_finalized_blocks ?c = Inr c'" "ch_head c' = block_hash x b"
    "Mapping.lookup (ch_blocks c') (block_hash x b) = Some b"
    "Mapping.lookup (ch_snapshots c') (block_hash x b) = Some s"
    using prune_keeps_head [of ?c b s] by (auto simp: insert_block_def)
  then show ?thesis
    using assms(6) struct by (auto simp: commit_mined_def commit_def head_block_def head_store_def ok_or_def)
qed

text \<open>C26. A node commits what it mines without a panic: when the batch is within the block limit and the
  clock did not go back by more than two minutes since the round was prepared, \<open>commit_mined\<close> either
  discards the block because the head has moved, or makes it the head with the ground store.\<close>

theorem commit_mined_safe:
  assumes "node_reachable x m W" "w \<in> W" "grind k x w = Some (Ok (Some (b, s)))"
    and "mi_batch_size m \<le> MAX_TRANSACTIONS_PER_BLOCK"
    and "bh_timestamp (mw_header w) \<le> now + MAX_BLOCK_FUTURE_DRIFT_MS"
  shows "\<exists>m'. commit_mined x now b s m = Ok (bh_parent_hash (bl_header b) = ch_head (mi_chain m), m') \<and>
     (if bh_parent_hash (bl_header b) = ch_head (mi_chain m)
      then ch_head (mi_chain m') = block_hash x b \<and> head_store (mi_chain m') = Ok s else m' = m)"
  using commit_mined_ok [OF assms]
  by (cases "bh_parent_hash (bl_header b) = ch_head (mi_chain m)") (auto simp: commit_mined_def)

lemma net_round_reachable: "node_reachable sample_ext (snd net_round) {net_work}"
  using node_reachable.step [OF net_reachable(2) node_step.prepared [OF net_prepared]] by simp

lemma prepare_round_miner: "prepare_round x t m = Inr (wo, m') \<Longrightarrow> mi_chain m' = mi_chain m \<and> mi_batch_size m' = mi_batch_size m"
  by (auto simp: prepare_round_def and_then_Inr_iff split: if_splits prod.splits)

lemma net_round_facts:
  "mi_batch_size (snd net_round) = 1" "bh_timestamp (mw_header net_work) = 1000"
proof -
  show "mi_batch_size (snd net_round) = 1"
    using prepare_round_miner [OF net_prepared] net_submitted_chain by simp
  have "Mapping.lookup (ch_blocks (mi_chain net_submitted)) (ch_head (mi_chain net_submitted)) = Some block_genesis"
    using net_parent net_submitted_chain(1) by (simp add: get_block_def)
  from prepare_round_work(2) [OF net_prepared node_reachable_wf [OF net_reachable(2)] this]
  show "bh_timestamp (mw_header net_work) = 1000" by simp
qed

theorem commit_mined_safe_witness:
  "\<exists>m'. commit_mined sample_ext 1000 (fst net_mined) (snd net_mined) (snd net_round) =
     Ok (bh_parent_hash (bl_header (fst net_mined)) = ch_head (mi_chain (snd net_round)), m')"
  using commit_mined_safe [OF net_round_reachable _ net_ground, of 1000]
  by (auto simp: net_round_facts MAX_TRANSACTIONS_PER_BLOCK_def MAX_BLOCK_FUTURE_DRIFT_MS_def)

text \<open>C27. Committing does not compare the timestamp with the parent's, but a node that receives the block does:
  a block mined while the clock is not after the parent's timestamp, with a batch within the block limit and a clock
  at most two minutes ahead at the commit, is committed by its miner, and at the same time refused by every node of
  the same difficulty that has the parent and not the block.\<close>

theorem stale_clock_block_refused:
  assumes "node_reachable x m W" "prepare_round x t m = Ok (Some w, m')" "grind k x w = Some (Ok (Some (b, s)))"
    and "mi_batch_size m \<le> MAX_TRANSACTIONS_PER_BLOCK" "t \<le> now + MAX_BLOCK_FUTURE_DRIFT_MS"
    and parent: "get_block (mi_chain m) (ch_head (mi_chain m)) = Some parent"
      "get_block c (ch_head (mi_chain m)) = Some parent"
    and "ch_difficulty c = ch_difficulty (mi_chain m)" "get_block c (block_hash x b) = None"
    and "t \<le> bh_timestamp (bl_header parent)"
  shows "(\<exists>m''. commit_mined x now b s m' = Ok (True, m'')) \<and>
     apply_block k' x now b c = Some (Err (Fail TimestampNotAdvancing))"
proof -
  note block = mined_block [OF assms(1-3) parent(1) assms(4,5)]
  have m': "mi_chain m' = mi_chain m" using prepare_round_miner [OF assms(2)] by simp
  let ?c = "(insert_block (block_hash x b) b s (mi_chain m))\<lparr>ch_head := block_hash x b\<rparr>"
  obtain c' where "prune_finalized_blocks ?c = Inr c'"
    using prune_keeps_head [of ?c b s] by (auto simp: insert_block_def)
  then have "\<exists>m''. commit_mined x now b s m' = Ok (True, m'')"
    using block(4,6) m' by (simp add: commit_mined_def commit_def)
  moreover have "apply_block k' x now b c = Some (Err (Fail TimestampNotAdvancing))"
    using block(3-6) parent(2) assms(8-10) by (simp add: apply_block_def get_block_def)
  ultimately show ?thesis by blast
qed

definition late_work :: mining_work where
  "late_work = (case prepare_round sample_ext 0 net_submitted of Inr (Some w, _) \<Rightarrow> w | _ \<Rightarrow> net_work)"

definition late_mined :: "block \<times> store" where
  "late_mined = (case grind 10 sample_ext late_work of Some (Inr (Some bs)) \<Rightarrow> bs | _ \<Rightarrow> (block_genesis, store_default))"

lemma late_prepared: "prepare_round sample_ext 0 net_submitted = Ok (Some late_work, snd net_round)"
  by code_simp

lemma late_ground: "grind 10 sample_ext late_work = Some (Ok (Some (fst late_mined, snd late_mined)))"
proof -
  have "(case grind 10 sample_ext late_work of Some (Inr (Some _)) \<Rightarrow> True | _ \<Rightarrow> False)" by code_simp
  then show ?thesis by (auto simp: late_mined_def split: option.splits sum.splits)
qed

theorem stale_clock_block_refused_witness:
  "(\<exists>m''. commit_mined sample_ext 0 (fst late_mined) (snd late_mined) (snd net_round) = Ok (True, m'')) \<and>
     apply_block 10 sample_ext 0 (fst late_mined) (mi_chain net_start) = Some (Err (Fail TimestampNotAdvancing))"
proof (rule stale_clock_block_refused [OF net_reachable(2) late_prepared late_ground])
  show "get_block (mi_chain net_start) (block_hash sample_ext (fst late_mined)) = None" by code_simp
qed (auto simp: net_submitted_chain net_parent MAX_TRANSACTIONS_PER_BLOCK_def block_genesis_def)

section \<open>State snapshots\<close>

lemma validate_block_structure_time:
  assumes "validate_block_structure x now b difficulty = Ok ()"
    "bh_timestamp (bl_header b) \<le> now' + MAX_BLOCK_FUTURE_DRIFT_MS"
  shows "validate_block_structure x now' b difficulty = Ok ()"
  using assms by (auto simp: validate_block_structure_def Let_def and_then_Inr_iff split: if_splits)

text \<open>C28. A node can be brought up to the state of another by a snapshot: the snapshot of the head of one
  node, which is not the genesis, is accepted by every node of the same difficulty whose head is
  lower and whose clock is at most two minutes behind the timestamp of that block, and afterwards both have the
  same head block and the same store.\<close>

theorem snapshot_sync:
  assumes "node_reachable x m W" "get_state_snapshot m = Ok snap" "ss_head snap \<noteq> block_genesis"
    and "ch_difficulty (mi_chain m') = ch_difficulty (mi_chain m)"
    and "head_height (mi_chain m') = Ok height" "height < bh_height (bl_header (ss_head snap))"
    and "bh_timestamp (bl_header (ss_head snap)) \<le> now + MAX_BLOCK_FUTURE_DRIFT_MS"
  shows "\<exists>m''. replace_from_snapshot x now snap m' = Ok m'' \<and>
     head_block (mi_chain m'') = head_block (mi_chain m) \<and> head_store (mi_chain m'') = head_store (mi_chain m)"
proof -
  have wf: "chain_wf x (mi_chain m)" using node_reachable_wf [OF assms(1)] by (simp add: node_wf_def)
  obtain b s where head: "Mapping.lookup (ch_blocks (mi_chain m)) (ch_head (mi_chain m)) = Some b"
    "Mapping.lookup (ch_snapshots (mi_chain m)) (ch_head (mi_chain m)) = Some s" "store_wf s"
    "head_block (mi_chain m) = Inr b" "head_store (mi_chain m) = Inr s"
    using chain_wf_head [OF wf] by metis
  have snap: "snap = \<lparr>ss_head = b, ss_objects = store_objects s\<rparr>"
    using assms(2) head(4,5) by (simp add: get_state_snapshot_def)
  have "entry_wf x (ch_difficulty (mi_chain m)) (ch_head (mi_chain m)) b s"
    using wf head(1,2) by (simp add: chain_wf_def)
  with snap assms(3) obtain now0 where
    "validate_block_structure x now0 b (ch_difficulty (mi_chain m)) = Ok ()"
    and root: "compute_state_root x s = bh_state_root (bl_header b)"
    by (auto simp: entry_wf_def block_sound_def)
  then have struct: "validate_block_structure x now b (ch_difficulty (mi_chain m)) = Ok ()"
    using validate_block_structure_time snap assms(7) by simp
  let ?c = "\<lparr>ch_blocks = Mapping.update (block_hash x b) b Mapping.empty,
      ch_snapshots = Mapping.update (block_hash x b) s Mapping.empty, ch_head = block_hash x b,
      ch_difficulty = ch_difficulty (mi_chain m'), ch_snapshot_depth = ch_snapshot_depth (mi_chain m')\<rparr>"
  have "from_snapshot x now height b s (ch_difficulty (mi_chain m')) (ch_snapshot_depth (mi_chain m')) = Inr ?c"
    using struct root snap assms(4,6) by (simp add: from_snapshot_def Let_def leD)
  moreover have "head_block ?c = Inr b" "head_store ?c = Inr s"
    by (simp_all add: head_block_def head_store_def ok_or_def)
  moreover have "with_objects (store_objects s) = s" by (rule snapshot_roundtrip [OF head(3)])
  ultimately show ?thesis
    using snap assms(5) head(4,5) by (simp add: replace_from_snapshot_def or_panic_def fail_with_def)
qed

lemma net_committed:
  "\<exists>m. node_reachable sample_ext m {net_work} \<and> head_block (mi_chain m) = Ok (fst net_mined) \<and>
     head_store (mi_chain m) = Ok (snd net_mined) \<and> ch_difficulty (mi_chain m) = 8"
proof -
  note block = mined_block [OF net_reachable(2) net_prepared net_ground, of block_genesis 1000]
  have "bh_parent_hash (bl_header (fst net_mined)) = ch_head (mi_chain (snd net_round))"
    using block(4) prepare_round_miner [OF net_prepared] by (simp add: net_facts)
  from commit_mined_ok [OF net_round_reachable _ net_ground _ _ this, of 1000] obtain m where
    com: "commit_mined sample_ext 1000 (fst net_mined) (snd net_mined) (snd net_round) = Inr (True, m)"
    and m: "head_block (mi_chain m) = Inr (fst net_mined)" "head_store (mi_chain m) = Inr (snd net_mined)"
    by (auto simp: net_round_facts net_facts)
  have "ch_difficulty (mi_chain m) = ch_difficulty (mi_chain (snd net_round))"
    using com by (auto simp: commit_mined_def commit_def Let_def and_then_Inr_iff dest!: prune_difficulty
        split: if_splits sum.splits)
  also have "\<dots> = 8"
    using prepare_round_miner [OF net_prepared] net_submitted_chain(1)
    by (simp add: net_start_def with_genesis_def miner_new_def net_config_def chain_new_def Let_def)
  finally show ?thesis using node_reachable.step [OF net_round_reachable node_step.mined [OF _ net_ground com]] m by blast
qed

theorem snapshot_sync_witness:
  "\<exists>m. replace_from_snapshot sample_ext 1000
       \<lparr>ss_head = fst net_mined, ss_objects = store_objects (snd net_mined)\<rparr> net_start = Ok m \<and>
     head_block (mi_chain m) = Ok (fst net_mined) \<and> head_store (mi_chain m) = Ok (snd net_mined)"
proof -
  obtain m where m: "node_reachable sample_ext m {net_work}" "head_block (mi_chain m) = Ok (fst net_mined)"
    "head_store (mi_chain m) = Ok (snd net_mined)" "ch_difficulty (mi_chain m) = 8"
    using net_committed by blast
  let ?snap = "\<lparr>ss_head = fst net_mined, ss_objects = store_objects (snd net_mined)\<rparr>"
  note block = mined_block [OF net_reachable(2) net_prepared net_ground, of block_genesis 1000]
  have header: "bh_height (bl_header (fst net_mined)) = 1" "bh_timestamp (bl_header (fst net_mined)) = 1000"
    and "bl_transactions (fst net_mined) \<noteq> []"
    using block(1,3,5) by (simp_all add: net_facts ground_def)
  then have "fst net_mined \<noteq> block_genesis" by (auto simp: block_genesis_def)
  moreover have "get_state_snapshot m = Ok ?snap" using m(2,3) by (simp add: get_state_snapshot_def)
  moreover have "head_height (mi_chain net_start) = Ok 0"
    using net_parent by (simp add: head_height_Inr get_block_def block_genesis_def)
  moreover have "ch_difficulty (mi_chain net_start) = 8"
    by (simp add: net_start_def with_genesis_def miner_new_def net_config_def chain_new_def Let_def)
  ultimately show ?thesis
    using snapshot_sync [OF m(1), of ?snap net_start 0 1000] m(2-4) header
    by (auto simp: MAX_BLOCK_FUTURE_DRIFT_MS_def)
qed

section \<open>The canonical chain\<close>

text \<open>The runs of a node in which no new block is already named as a parent.\<close>

inductive linked_run :: "chain_ext \<Rightarrow> miner \<Rightarrow> mining_work set \<Rightarrow> bool" for x where
  start: "new_blocks_unnamed Mapping.empty (ch_blocks (mi_chain (with_genesis x genesis_objects cfg))) \<Longrightarrow>
    linked_run x (with_genesis x genesis_objects cfg) {}"
| step: "linked_run x m W \<Longrightarrow> node_step x m W m' W' \<Longrightarrow>
    new_blocks_unnamed (ch_blocks (mi_chain m)) (ch_blocks (mi_chain m')) \<Longrightarrow> linked_run x m' W'"

lemma linked_run_wf: "linked_run x m W \<Longrightarrow> wf (parent_links (ch_blocks (mi_chain m)))"
  by (induction rule: linked_run.induct) (blast intro: wf_parent_links_step wf_parent_links_empty)+

text \<open>C31. Looking up a transaction by its digest returns, and answers for the canonical chain only: it
  finds a transaction with the digest in a block between the head and the oldest retained ancestor,
  or there is none in any of them.  This holds of every node, whatever it received, submitted and mined, as long
  as no block it stored was already named as the parent of a block it had.\<close>

theorem get_transaction_canonical:
  assumes "linked_run x m W"
  shows "\<exists>r. get_transaction x (mi_chain m) d = Some r \<and>
     (case r of
        None \<Rightarrow> \<forall>b. on_chain (ch_blocks (mi_chain m)) (ch_head (mi_chain m)) b \<longrightarrow>
          (\<forall>st \<in> set (bl_transactions b). transaction_digest x (st_transaction st) \<noteq> d)
      | Some st \<Rightarrow> transaction_digest x (st_transaction st) = d \<and>
          (\<exists>b. on_chain (ch_blocks (mi_chain m)) (ch_head (mi_chain m)) b \<and> st \<in> set (bl_transactions b)))"
proof -
  let ?f = "\<lambda>b. List.find (\<lambda>st. transaction_digest x (st_transaction st) = d) (bl_transactions b)"
  let ?c = "mi_chain m"
  obtain r where r: "find_canonical ?f (ch_blocks ?c) (ch_head ?c) = Some r"
    "case r of None \<Rightarrow> \<forall>b. on_chain (ch_blocks ?c) (ch_head ?c) b \<longrightarrow> ?f b = None
      | Some v \<Rightarrow> \<exists>b. on_chain (ch_blocks ?c) (ch_head ?c) b \<and> ?f b = Some v"
    using find_canonical_returns [OF linked_run_wf [OF assms]] by blast
  then show ?thesis
    by (cases r) (auto simp: get_transaction_def find_None_iff dest!: find_SomeD)
qed

lemma on_chain_retained: "on_chain blocks d b \<Longrightarrow> \<exists>d'. Mapping.lookup blocks d' = Some b"
  by (induction rule: on_chain.induct) blast+

text \<open>A commit adds the mined block and no other.\<close>

lemma commit_mined_blocks:
  assumes "commit_mined x now b s m = Inr (committed, m')" "Mapping.lookup (ch_blocks (mi_chain m')) d = Some b'"
  shows "d = block_hash x b \<and> b' = b \<or> Mapping.lookup (ch_blocks (mi_chain m)) d = Some b'"
proof (cases "bh_parent_hash (bl_header b) = ch_head (mi_chain m)")
  case True
  let ?c = "(insert_block (block_hash x b) b s (mi_chain m))\<lparr>ch_head := block_hash x b\<rparr>"
  have "prune_finalized_blocks ?c = Inr (mi_chain m')"
    using assms(1) True by (auto simp: commit_mined_def commit_def Let_def and_then_Inr_iff split: sum.splits)
  moreover have "Mapping.lookup (ch_blocks ?c) (ch_head ?c) = Some b" by (simp add: insert_block_def)
  ultimately have "Mapping.lookup (ch_blocks ?c) d = Some b'" using assms(2) by (metis prune_Inr Inr_inject)
  then show ?thesis by (auto simp: insert_block_def lookup_update' split: if_splits)
qed (use assms in \<open>simp add: commit_mined_def\<close>)

text \<open>The sample network: the genesis, then the mined block on top of it.\<close>

lemma net_start_blocks:
  "Mapping.lookup (ch_blocks (mi_chain net_start)) d = Some b \<longleftrightarrow> d = ch_head (mi_chain net_start) \<and> b = block_genesis"
  by (auto simp: net_start_def with_genesis_def miner_new_def chain_new_def Let_def lookup_update' split: if_splits)

lemma net_hashes:
  "ch_head (mi_chain net_start) \<noteq> bh_parent_hash (bl_header block_genesis)"
  "block_hash sample_ext (fst net_mined) \<noteq> bh_parent_hash (bl_header block_genesis)"
  "block_hash sample_ext (fst net_mined) \<noteq> ch_head (mi_chain net_start)"
  by code_simp+

lemma net_mined_transactions: "bl_transactions (fst net_mined) = [sample_signed]"
  by code_simp

lemma same_blocks_unnamed [intro]: "new_blocks_unnamed B B"
  by (simp add: new_blocks_unnamed_def)

lemma net_submit_step: "node_step sample_ext net_start {} net_submitted {}"
  unfolding net_submitted_def by (rule node_step.submitted)

lemma net_round_linked: "linked_run sample_ext (snd net_round) {net_work}"
proof -
  have "linked_run sample_ext net_start {}"
    unfolding net_start_def
    by (rule linked_run.start)
      (use net_hashes(1) in \<open>auto simp: new_blocks_unnamed_def net_start_blocks [unfolded net_start_def] net_start_def\<close>)
  then have "linked_run sample_ext net_submitted {}"
    by (rule linked_run.step [OF _ net_submit_step]) (simp add: net_submitted_chain same_blocks_unnamed)
  from linked_run.step [OF this node_step.prepared [OF net_prepared]] prepare_round_miner [OF net_prepared]
  show ?thesis by (simp add: same_blocks_unnamed)
qed

theorem get_transaction_canonical_witness:
  "\<exists>m. linked_run sample_ext m {net_work} \<and>
     get_transaction sample_ext (mi_chain m) (transaction_digest sample_ext (st_transaction sample_signed)) =
       Some (Some sample_signed)"
proof -
  let ?H = "block_hash sample_ext (fst net_mined)"
  note block = mined_block [OF net_reachable(2) net_prepared net_ground, of block_genesis 1000]
  have chain: "mi_chain (snd net_round) = mi_chain net_start"
    using prepare_round_miner [OF net_prepared] net_submitted_chain(1) by simp
  have parent: "bh_parent_hash (bl_header (fst net_mined)) = ch_head (mi_chain net_start)"
    using block(4) by (simp add: net_facts)
  from commit_mined_ok [OF net_round_reachable _ net_ground, of 1000] parent obtain m where
    com: "commit_mined sample_ext 1000 (fst net_mined) (snd net_mined) (snd net_round) = Inr (True, m)"
    and m: "ch_head (mi_chain m) = ?H" "head_block (mi_chain m) = Inr (fst net_mined)"
    by (auto simp: net_round_facts net_facts chain)
  have "new_blocks_unnamed (ch_blocks (mi_chain (snd net_round))) (ch_blocks (mi_chain m))"
    using commit_mined_blocks [OF com] parent net_hashes
    unfolding new_blocks_unnamed_def chain by (metis net_start_blocks)
  with linked_run.step [OF net_round_linked node_step.mined [OF _ net_ground com]]
  have run: "linked_run sample_ext m {net_work}" by simp
  have "on_chain (ch_blocks (mi_chain m)) (ch_head (mi_chain m)) (fst net_mined)"
    using m by (intro on_chain.here) (auto simp: head_block_def ok_or_def split: option.splits)
  moreover have "on_chain (ch_blocks (mi_chain m)) (ch_head (mi_chain m)) b \<Longrightarrow> bl_transactions b \<in> {[sample_signed], []}" for b
    using on_chain_retained [of "ch_blocks (mi_chain m)"] commit_mined_blocks [OF com] net_mined_transactions
    by (fastforce simp: chain net_start_blocks block_genesis_def)
  ultimately have "get_transaction sample_ext (mi_chain m) (transaction_digest sample_ext (st_transaction sample_signed)) =
      Some (Some sample_signed)"
    using get_transaction_canonical [OF run, of "transaction_digest sample_ext (st_transaction sample_signed)"]
      net_mined_transactions
    by (fastforce split: option.splits)
  with run show ?thesis by blast
qed

end
