(* ===== verification/Compiler_Ast.thy ===== *)
theory Compiler_Ast
  imports Error_Messages "HOL-Library.AList"
begin

text \<open>
  The front of the compiler: the syntax trees of \<open>meow-vm-compiler/src/ast.rs\<close>, the removal of comments of
  \<open>parser.rs\<close>, and \<open>parse_and_extract\<close> of \<open>lib.rs\<close>.  The grammar itself is built from the combinators of the
  third-party crate \<open>chumsky\<close>: the parser is an argument, from source text to the errors it reports or the
  items it reads.  Source text is the list of its Unicode scalar values, which \<open>str::chars\<close> yields.
\<close>

section \<open>Syntax trees\<close>

datatype binop =
    BAdd | BSub | BMul | BDiv | BMod | BEq | BNe | BLt | BLe | BGt | BGe | BAnd | BOr

datatype unaryop = UNot

datatype expr =
    EBool bool
  | EInt u64
  | EAddress address
  | EStr string
  | EIdent string
  | EBinOp expr binop expr
  | EFieldAccess expr string
  | EStructLit string "(string \<times> expr) list"
  | ECall string "expr list"
  | ETuple "expr list"
  | EUnaryOp unaryop expr

datatype stmt =
    SLet string expr
  | SReassign string expr
  | SReturn "expr option"
  | SExpr expr
  | SIf expr "stmt list" "stmt list option"
  | SFieldAssign string "string list" expr
  | SLetTuple "string list" expr
  | SLetStruct string "(string \<times> string) list" expr bool

record ast_function =
  af_is_public :: bool
  af_name :: string
  af_params :: "(string \<times> vtype) list"
  af_return_type :: "vtype option"
  af_body :: "stmt list"

record ast_struct =
  ast_is_public :: bool
  ast_name :: string
  ast_fields :: "(string \<times> vtype) list"

datatype ast_item =
    ModuleDecl string
  | Use string address "string option"
  | StructItem ast_struct
  | FnItem ast_function

text \<open>\<open>CompilerError\<close> has the single variant \<open>Message\<close>; a panic of the compiler is a value of its own.\<close>

datatype compiler_error = Message string | CompilerPanic string

section \<open>Comments\<close>

text \<open>A \<open>char\<close> is a Unicode scalar value.\<close>

type_synonym rust_char = u32

definition NEWLINE :: rust_char where
  "NEWLINE = 0x0A"

definition SPACE :: rust_char where
  "SPACE = 0x20"

definition QUOTE :: rust_char where
  "QUOTE = 0x22"

definition SLASH :: rust_char where
  "SLASH = 0x2F"

text \<open>The inner loop of a comment: spaces up to the newline.\<close>

fun blank_comment :: "rust_char list \<Rightarrow> rust_char list \<times> rust_char list" where
  "blank_comment [] = ([], [])"
| "blank_comment (c # cs) =
     (if c = NEWLINE then ([NEWLINE], cs)
      else let (out, rest) = blank_comment cs in (SPACE # out, rest))"

lemma length_blank_comment:
  "length (fst (blank_comment cs)) + length (snd (blank_comment cs)) = length cs"
  by (induction cs) (auto simp: Let_def split: prod.splits)

text \<open>The loop, with \<open>in_string\<close>.\<close>

function strip_from :: "bool \<Rightarrow> rust_char list \<Rightarrow> rust_char list" where
  "strip_from in_string [] = []"
| "strip_from in_string (c # cs) =
     (if in_string then c # strip_from (c \<noteq> QUOTE) cs
      else if c = QUOTE then c # strip_from True cs
      else if c = SLASH \<and> cs \<noteq> [] \<and> hd cs = SLASH
      then SPACE # SPACE #
           fst (blank_comment (tl cs)) @ strip_from False (snd (blank_comment (tl cs)))
      else c # strip_from False cs)"
  by pat_completeness auto

termination
proof (relation "measure (\<lambda>(_, cs). length cs)")
  fix c :: rust_char and cs :: "rust_char list"
  assume "c = SLASH \<and> cs \<noteq> [] \<and> hd cs = SLASH"
  then show "((False, snd (blank_comment (tl cs))), b, c # cs) \<in> measure (\<lambda>(_, cs). length cs)" for b
    using length_blank_comment [of "tl cs"] by simp
qed auto

definition strip_line_comments :: "rust_char list \<Rightarrow> rust_char list" where
  "strip_line_comments source = strip_from False source"

section \<open>Declarations\<close>

definition is_module_decl :: "ast_item \<Rightarrow> bool" where
  "is_module_decl i = (case i of ModuleDecl _ \<Rightarrow> True | _ \<Rightarrow> False)"

definition items_structs :: "ast_item list \<Rightarrow> ast_struct list" where
  "items_structs items = concat (map (\<lambda>i. case i of StructItem s \<Rightarrow> [s] | _ \<Rightarrow> []) items)"

definition items_fns :: "ast_item list \<Rightarrow> ast_function list" where
  "items_fns items = concat (map (\<lambda>i. case i of FnItem f \<Rightarrow> [f] | _ \<Rightarrow> []) items)"

text \<open>\<open>alias.unwrap_or(name)\<close>.\<close>

definition local_name :: "string \<Rightarrow> string option \<Rightarrow> string" where
  "local_name name alias = (case alias of Some a \<Rightarrow> a | None \<Rightarrow> name)"

type_synonym use_decl = "string \<times> string option \<times> address"

fun collect_uses :: "ast_item list \<Rightarrow> use_decl list \<Rightarrow> compiler_error + use_decl list" where
  "collect_uses [] uses = Ok uses"
| "collect_uses (Use dep_name dep_addr alias # items) uses =
     (if list_ex (\<lambda>(name, a, _). local_name name a = local_name dep_name alias) uses
      then Err (Message (''duplicate use declaration: '' @ quoted (local_name dep_name alias) @
                '' is already used as an alias''))
      else collect_uses items (uses @ [(dep_name, alias, dep_addr)]))"
| "collect_uses (ModuleDecl _ # items) uses = collect_uses items uses"
| "collect_uses (StructItem _ # items) uses = collect_uses items uses"
| "collect_uses (FnItem _ # items) uses = collect_uses items uses"

type_synonym source_parser = "rust_char list \<Rightarrow> string list + ast_item list"

definition parse_and_extract ::
    "source_parser \<Rightarrow> rust_char list \<Rightarrow> compiler_error + (ast_item list \<times> string \<times> use_decl list)" where
  "parse_and_extract parse source =
     (case parse (strip_line_comments source) of
        Inl errs \<Rightarrow> Err (Message (join_with ''; '' errs))
      | Inr items \<Rightarrow>
          (case items of
             ModuleDecl module_name # rest \<Rightarrow>
               if list_ex is_module_decl rest
               then Err (Message (''duplicate '' @ quoted ''mod NAME;'' @
                         '' declaration: only one is allowed per file''))
               else and_then (collect_uses items []) (\<lambda>uses. Ok (items, module_name, uses))
           | _ \<Rightarrow> Err (Message (''source must begin with '' @ quoted ''mod NAME;'' @ '' declaration''))))"

definition extract_deps :: "source_parser \<Rightarrow> rust_char list \<Rightarrow> compiler_error + use_decl list" where
  "extract_deps parse source = and_then (parse_and_extract parse source) (\<lambda>(_, _, uses). Ok uses)"

section \<open>What the removal of comments does\<close>

text \<open>What a character is part of, given the characters before it and the one after: code, a string literal, or
  a comment, which starts at two slashes in code and ends with the line.\<close>

datatype scan_mode = InCode | InString | InComment

definition comment_starts :: "rust_char list \<Rightarrow> nat \<Rightarrow> bool" where
  "comment_starts cs i \<longleftrightarrow> cs ! i = SLASH \<and> Suc i < length cs \<and> cs ! Suc i = SLASH"

primrec mode_at :: "rust_char list \<Rightarrow> nat \<Rightarrow> scan_mode" where
  "mode_at cs 0 = InCode"
| "mode_at cs (Suc i) =
     (case mode_at cs i of
        InCode \<Rightarrow> if cs ! i = QUOTE then InString else if comment_starts cs i then InComment else InCode
      | InString \<Rightarrow> if cs ! i = QUOTE then InCode else InString
      | InComment \<Rightarrow> if cs ! i = NEWLINE then InCode else InComment)"

definition in_comment :: "rust_char list \<Rightarrow> nat \<Rightarrow> bool" where
  "in_comment cs i \<longleftrightarrow> mode_at cs i = InComment \<or> mode_at cs i = InCode \<and> comment_starts cs i"

text \<open>The loops on the rest of the text, by what its first character is part of.\<close>

definition strip_rest :: "scan_mode \<Rightarrow> rust_char list \<Rightarrow> rust_char list" where
  "strip_rest m cs =
     (case m of
        InCode \<Rightarrow> strip_from False cs
      | InString \<Rightarrow> strip_from True cs
      | InComment \<Rightarrow> fst (blank_comment cs) @ strip_from False (snd (blank_comment cs)))"

lemma chars_distinct [simp]: "SLASH \<noteq> NEWLINE" "SLASH \<noteq> QUOTE" "QUOTE \<noteq> SLASH" "NEWLINE \<noteq> SLASH"
  by (simp_all add: SLASH_def NEWLINE_def QUOTE_def)

lemma strip_rest_Nil: "strip_rest m [] = []"
  by (simp add: strip_rest_def split: scan_mode.split)

lemma strip_rest_step:
  assumes "i < length cs"
  shows "strip_rest (mode_at cs i) (drop i cs) =
    (if in_comment cs i \<and> cs ! i \<noteq> NEWLINE then SPACE else cs ! i) # strip_rest (mode_at cs (Suc i)) (drop (Suc i) cs)"
proof -
  have d: "drop i cs = cs ! i # drop (Suc i) cs" by (rule Cons_nth_drop_Suc [OF assms, symmetric])
  have start: "comment_starts cs i \<longleftrightarrow> cs ! i = SLASH \<and> drop (Suc i) cs \<noteq> [] \<and> hd (drop (Suc i) cs) = SLASH"
    by (auto simp: comment_starts_def hd_drop_conv_nth)
  show ?thesis
  proof (cases "mode_at cs i = InCode \<and> comment_starts cs i")
    case True
    then obtain rest where r: "drop (Suc i) cs = SLASH # rest" using start by (cases "drop (Suc i) cs") auto
    with True start show ?thesis unfolding d by (simp add: strip_rest_def in_comment_def Let_def split: prod.split)
  next
    case False
    then show ?thesis
      unfolding d using start
      by (cases "mode_at cs i") (auto simp: strip_rest_def in_comment_def Let_def split: prod.split)
  qed
qed

lemma strip_rest_at:
  "strip_rest (mode_at cs i) (drop i cs) =
     map (\<lambda>j. if in_comment cs j \<and> cs ! j \<noteq> NEWLINE then SPACE else cs ! j) [i ..< length cs]"
proof (induction "length cs - i" arbitrary: i)
  case 0
  then show ?case by (simp add: strip_rest_Nil)
next
  case (Suc n)
  then have "i < length cs" "n = length cs - Suc i" by simp_all
  with strip_rest_step [of i cs] Suc(1) [of "Suc i"] show ?case by (simp add: upt_conv_Cons)
qed

text \<open>C37. Removing comments replaces exactly the characters of comments by spaces, newlines apart, and keeps every
  other character, so that each stays in its place.  Two slashes start a comment unless they are in a string
  literal or a comment, a quote in a comment starts no literal, and a comment ends with its line.\<close>

theorem strip_line_comments_exact:
  "strip_line_comments cs =
     map (\<lambda>i. if in_comment cs i \<and> cs ! i \<noteq> NEWLINE then SPACE else cs ! i) [0 ..< length cs]"
  using strip_rest_at [of cs 0] by (simp add: strip_rest_def strip_line_comments_def)

end
