(* ===== verification/Cycle_Search.thy ===== *)
theory Cycle_Search
  imports Main
begin

text \<open>
  The depth-first search for a cycle that the compiler runs twice, on struct definitions (\<open>dfs_cycle\<close>) and on
  module imports (\<open>dfs_module_cycle\<close>, both \<open>meow-vm-compiler/src/validator.rs\<close>), over a graph given by the
  successors of its nodes; a node without an entry has none.

  The code keeps \<open>visited\<close> and \<open>in_stack\<close> with \<open>in_stack \<subseteq> visited\<close>: a node enters both when its search begins
  and leaves \<open>in_stack\<close> when it ends without a cycle.  Here \<open>finished\<close> is \<open>visited\<close> without \<open>in_stack\<close>; it is
  threaded, and \<open>in_stack\<close>, which a search restores, is passed down.
\<close>

type_synonym 'a graph = "('a \<times> 'a list) list"

function dfs_node :: "'a graph \<Rightarrow> 'a set \<Rightarrow> 'a \<Rightarrow> 'a set \<Rightarrow> 'a option \<times> 'a set"
and dfs_succs :: "'a graph \<Rightarrow> 'a set \<Rightarrow> 'a list \<Rightarrow> 'a set \<Rightarrow> 'a option \<times> 'a set" where
  "dfs_node g in_stack a finished =
     (case map_of g a of
        None \<Rightarrow> (None, insert a finished)
      | Some bs \<Rightarrow>
          (case dfs_succs g (insert a in_stack) bs finished of
             (None, finished) \<Rightarrow> (None, insert a finished)
           | (Some c, finished) \<Rightarrow> (Some c, finished)))"
| "dfs_succs g in_stack [] finished = (None, finished)"
| "dfs_succs g in_stack (b # bs) finished =
     (if b \<in> in_stack then (Some b, finished)
      else if b \<in> finished then dfs_succs g in_stack bs finished
      else case dfs_node g in_stack b finished of
        (None, finished) \<Rightarrow> dfs_succs g in_stack bs finished
      | (Some c, finished) \<Rightarrow> (Some c, finished))"
  by pat_completeness auto

termination
proof (relation "measures [
    case_sum (\<lambda>(g, st, a, _). 2 * card (fst ` set g - insert a st) + (if a \<in> fst ` set g then 1 else 0))
             (\<lambda>(g, st, bs, _). 2 * card (fst ` set g - st)),
    case_sum (\<lambda>_. 0) (\<lambda>(g, st, bs, _). Suc (length bs))]")
  fix g :: "'a graph" and st :: "'a set" and a :: 'a and fin :: "'a set" and bs :: "'a list"
  assume "map_of g a = Some bs"
  then have "a \<in> fst ` set g" by (metis map_of_eq_None_iff option.distinct(1))
  then show "(Inr (g, insert a st, bs, fin), Inl (g, st, a, fin)) \<in> measures [
    case_sum (\<lambda>(g, st, a, _). 2 * card (fst ` set g - insert a st) + (if a \<in> fst ` set g then 1 else 0))
             (\<lambda>(g, st, bs, _). 2 * card (fst ` set g - st)),
    case_sum (\<lambda>_. 0) (\<lambda>(g, st, bs, _). Suc (length bs))]" by simp
next
  fix g :: "'a graph" and st :: "'a set" and b :: 'a and bs :: "'a list" and fin :: "'a set"
  assume "b \<notin> st"
  then have "card (fst ` set g - st) = Suc (card (fst ` set g - insert b st))" if "b \<in> fst ` set g"
    using that by (metis Diff_iff Diff_insert card_Suc_Diff1 finite_Diff finite_imageI finite_set)
  moreover have "fst ` set g - insert b st = fst ` set g - st" if "b \<notin> fst ` set g"
    using that by auto
  ultimately show "(Inl (g, st, b, fin), Inr (g, st, b # bs, fin)) \<in> measures [
    case_sum (\<lambda>(g, st, a, _). 2 * card (fst ` set g - insert a st) + (if a \<in> fst ` set g then 1 else 0))
             (\<lambda>(g, st, bs, _). 2 * card (fst ` set g - st)),
    case_sum (\<lambda>_. 0) (\<lambda>(g, st, bs, _). Suc (length bs))]" by auto
qed auto

text \<open>The loop over the start nodes; nothing is on the stack between two searches.\<close>

fun find_cycle :: "'a graph \<Rightarrow> 'a list \<Rightarrow> 'a set \<Rightarrow> 'a option" where
  "find_cycle g [] finished = None"
| "find_cycle g (a # starts) finished =
     (if a \<in> finished then find_cycle g starts finished
      else case dfs_node g {} a finished of
        (Some c, _) \<Rightarrow> Some c
      | (None, finished) \<Rightarrow> find_cycle g starts finished)"

section \<open>The search is exact\<close>

definition edges :: "'a graph \<Rightarrow> ('a \<times> 'a) set" where
  "edges g = {(a, b). \<exists>bs. map_of g a = Some bs \<and> b \<in> set bs}"

text \<open>A set of nodes is settled when it is closed under edges and no node of it lies on a cycle.\<close>

definition settled_nodes :: "('a \<times> 'a) set \<Rightarrow> 'a set \<Rightarrow> bool" where
  "settled_nodes E S \<longleftrightarrow> E `` S \<subseteq> S \<and> (\<forall>a \<in> S. (a, a) \<notin> E\<^sup>+)"

lemma closed_trancl: "(a, b) \<in> E\<^sup>+ \<Longrightarrow> E `` S \<subseteq> S \<Longrightarrow> a \<in> S \<Longrightarrow> b \<in> S"
  by (induction rule: trancl_induct) auto

lemma settled_nodes_insert:
  assumes "settled_nodes E S" "E `` {a} \<subseteq> S" "a \<notin> S"
  shows "settled_nodes E (insert a S)"
proof -
  have "(a, a) \<notin> E\<^sup>+"
  proof
    assume "(a, a) \<in> E\<^sup>+"
    then obtain b where "(a, b) \<in> E" "(b, a) \<in> E\<^sup>*" by (meson tranclD)
    with assms have "b \<in> S" by auto
    with \<open>(b, a) \<in> E\<^sup>*\<close> assms(1,3) show False
      by (metis closed_trancl rtranclD settled_nodes_def)
  qed
  with assms show ?thesis by (auto simp: settled_nodes_def)
qed

lemma dfs_settles:
  "dfs_node g st a fin = (None, fin') \<Longrightarrow> settled_nodes (edges g) fin \<Longrightarrow> fin \<inter> st = {} \<Longrightarrow>
     a \<notin> st \<Longrightarrow> a \<notin> fin \<Longrightarrow>
     settled_nodes (edges g) fin' \<and> insert a fin \<subseteq> fin' \<and> fin' \<inter> st = {}"
  "dfs_succs g st bs fin = (None, fin') \<Longrightarrow> settled_nodes (edges g) fin \<Longrightarrow> fin \<inter> st = {} \<Longrightarrow>
     settled_nodes (edges g) fin' \<and> set bs \<union> fin \<subseteq> fin' \<and> fin' \<inter> st = {}"
proof (induction g st a fin and g st bs fin arbitrary: fin' and fin' rule: dfs_node_dfs_succs.induct)
  case (1 g st a fin)
  show ?case
  proof (cases "map_of g a")
    case None
    with 1 have "fin' = insert a fin" "edges g `` {a} \<subseteq> fin" by (auto simp: edges_def)
    with 1 settled_nodes_insert show ?thesis by fast
  next
    case (Some bs)
    with 1(2) obtain v where v: "dfs_succs g (insert a st) bs fin = (None, v)" "fin' = insert a v"
      by (auto split: prod.splits option.splits)
    from 1(1) [OF Some v(1)] 1 have ih: "settled_nodes (edges g) v" "set bs \<union> fin \<subseteq> v" "v \<inter> insert a st = {}"
      by auto
    moreover from ih Some have "edges g `` {a} \<subseteq> v" by (auto simp: edges_def)
    ultimately show ?thesis using v(2) 1(5) settled_nodes_insert [of "edges g" v a] by auto
  qed
next
  case (3 g st b bs fin)
  from 3(4) have b: "b \<notin> st" by (auto split: if_splits)
  show ?case
  proof (cases "b \<in> fin")
    case True
    with 3 b show ?thesis by auto
  next
    case False
    with 3(4) b obtain v where v: "dfs_node g st b fin = (None, v)" "dfs_succs g st bs v = (None, fin')"
      by (auto split: prod.splits option.splits)
    from 3(2) [OF b False v(1)] 3 b False
    have "settled_nodes (edges g) v" "insert b fin \<subseteq> v" "v \<inter> st = {}" by auto
    with 3(3) [OF b False v(1) [symmetric] refl v(2)] show ?thesis by auto
  qed
qed simp_all

text \<open>While no node of \<open>R\<close> lies on a cycle, a search that stays in \<open>R\<close> below its stack finds none.\<close>

lemma dfs_finds_none:
  assumes "edges g `` R \<subseteq> R" "\<forall>a \<in> R. (a, a) \<notin> (edges g)\<^sup>+"
  shows "a \<in> R \<Longrightarrow> \<forall>s \<in> st. (s, a) \<in> (edges g)\<^sup>+ \<Longrightarrow> fst (dfs_node g st a fin) = None"
    and "set bs \<subseteq> R \<Longrightarrow> \<forall>s \<in> st. \<forall>b \<in> set bs. (s, b) \<in> (edges g)\<^sup>+ \<Longrightarrow> fst (dfs_succs g st bs fin) = None"
  using assms
proof (induction g st a fin and g st bs fin rule: dfs_node_dfs_succs.induct)
  case (1 g st a fin)
  show ?case
  proof (cases "map_of g a")
    case (Some bs)
    then have e: "(a, b) \<in> edges g" if "b \<in> set bs" for b using that by (auto simp: edges_def)
    with 1(2,4) have "set bs \<subseteq> R" by auto
    moreover have "\<forall>s \<in> insert a st. \<forall>b \<in> set bs. (s, b) \<in> (edges g)\<^sup>+"
      using e 1(3) by (auto intro: trancl_into_trancl)
    ultimately have "fst (dfs_succs g (insert a st) bs fin) = None" using 1 Some by blast
    with Some show ?thesis by (auto split: prod.splits option.splits)
  qed simp
next
  case (3 g st b bs fin)
  from 3 have b: "b \<notin> st" by auto
  show ?case
  proof (cases "b \<in> fin")
    case True
    with 3 b show ?thesis by simp
  next
    case False
    obtain v where v: "dfs_node g st b fin = (None, v)"
      using 3(2) [OF b False] 3 by (cases "dfs_node g st b fin") auto
    with 3(3) [OF b False v [symmetric] refl] 3 b False show ?thesis by simp
  qed
qed simp_all

lemma find_cycle_settles:
  "find_cycle g starts fin = None \<Longrightarrow> settled_nodes (edges g) fin \<Longrightarrow>
     \<exists>S. settled_nodes (edges g) S \<and> set starts \<union> fin \<subseteq> S"
proof (induction g starts fin rule: find_cycle.induct)
  case (2 g a starts fin)
  show ?case
  proof (cases "a \<in> fin")
    case False
    with 2(3) obtain v where v: "dfs_node g {} a fin = (None, v)" "find_cycle g starts v = None"
      by (auto split: prod.splits option.splits)
    from dfs_settles(1) [OF v(1) 2(4)] False have "settled_nodes (edges g) v" "insert a fin \<subseteq> v" by auto
    moreover from 2(2) [OF False v(1) [symmetric] refl v(2)] this(1)
    obtain S where "settled_nodes (edges g) S" "set starts \<union> v \<subseteq> S" by auto
    ultimately show ?thesis by (intro exI [of _ S]) auto
  next
    case True
    with 2(1) [OF True] 2(3,4) obtain S where "settled_nodes (edges g) S" "set starts \<union> fin \<subseteq> S" by auto
    with True show ?thesis by (intro exI [of _ S]) auto
  qed
qed (auto intro: exI)

lemma find_cycle_none:
  assumes "edges g `` R \<subseteq> R" "\<forall>a \<in> R. (a, a) \<notin> (edges g)\<^sup>+" "set starts \<subseteq> R"
  shows "find_cycle g starts fin = None"
  using assms
proof (induction g starts fin rule: find_cycle.induct)
  case (2 g a starts fin)
  show ?case
  proof (cases "a \<in> fin")
    case False
    obtain v where v: "dfs_node g {} a fin = (None, v)"
      using dfs_finds_none(1) [OF 2(3,4), of a "{}" fin] 2(5) by (cases "dfs_node g {} a fin") auto
    with 2(2) [OF False v [symmetric] refl] 2 False show ?thesis by simp
  qed (use 2 in auto)
qed simp

text \<open>The search reports nothing exactly when no start node leads to a cycle.\<close>

lemma find_cycle_iff:
  "find_cycle g starts {} = None \<longleftrightarrow>
     (\<forall>s \<in> set starts. \<forall>a. (s, a) \<in> (edges g)\<^sup>* \<longrightarrow> (a, a) \<notin> (edges g)\<^sup>+)"
proof
  assume "find_cycle g starts {} = None"
  then obtain S where "settled_nodes (edges g) S" "set starts \<subseteq> S"
    using find_cycle_settles [of g starts "{}"] by (auto simp: settled_nodes_def)
  then show "\<forall>s \<in> set starts. \<forall>a. (s, a) \<in> (edges g)\<^sup>* \<longrightarrow> (a, a) \<notin> (edges g)\<^sup>+"
    by (metis closed_trancl rtranclD settled_nodes_def subsetD)
next
  assume no: "\<forall>s \<in> set starts. \<forall>a. (s, a) \<in> (edges g)\<^sup>* \<longrightarrow> (a, a) \<notin> (edges g)\<^sup>+"
  show "find_cycle g starts {} = None"
    by (rule find_cycle_none [of g "(edges g)\<^sup>* `` set starts"])
      (use no in \<open>auto intro: rtrancl_into_rtrancl\<close>)
qed

end
