(* ===== verification/Compiler_Validator.thy ===== *)
theory Compiler_Validator
  imports Compiler_Ast Cycle_Search
begin

text \<open>
  The semantic validator of the compiler, \<open>meow-vm-compiler/src/validator.rs\<close>, and the walk over the imports
  of the dependencies in \<open>Compiler::compile\<close>.
\<close>

text \<open>A \<open>for\<close> loop whose body may return an error.\<close>

fun for_each :: "('a \<Rightarrow> 'e + unit) \<Rightarrow> 'a list \<Rightarrow> 'e + unit" where
  "for_each f [] = Ok ()"
| "for_each f (x # xs) = and_then (f x) (\<lambda>_. for_each f xs)"

lemma for_each_cong [fundef_cong]:
  "xs = ys \<Longrightarrow> (\<And>x. x \<in> set ys \<Longrightarrow> f x = g x) \<Longrightarrow> for_each f xs = for_each g ys"
  by (induction ys arbitrary: xs) auto

lemma for_each_Ok_iff: "for_each f xs = Inr u \<longleftrightarrow> (\<forall>x \<in> set xs. f x = Inr ())"
  by (induction xs) (auto simp: and_then_Inr_iff)

text \<open>\<open>if bad { return Err(e) }\<close>.\<close>

definition fail_if :: "bool \<Rightarrow> 'e \<Rightarrow> 'e + unit" where
  "fail_if bad e = (if bad then Err e else Ok ())"

lemma fail_if_Ok_iff [simp]: "fail_if bad e = Inr u \<longleftrightarrow> \<not> bad"
  by (simp add: fail_if_def)

section \<open>Names and structs\<close>

definition validate_identifier :: "string \<Rightarrow> string \<Rightarrow> compiler_config \<Rightarrow> compiler_error + unit" where
  "validate_identifier name context config =
     (if \<not> is_valid_identifier name config
      then Err (Message (context @ '': '' @ quoted name @ '' is not a valid identifier '' @
        ''(must start with a letter or underscore, followed by letters, digits, or underscores; '' @
        ''max '' @ show_nat (max_identifier_len config) @ '' characters)''))
      else Ok ())"

definition validate_function_name :: "string \<Rightarrow> compiler_config \<Rightarrow> compiler_error + unit" where
  "validate_function_name name config =
     and_then (validate_identifier name ''function name'' config) (\<lambda>_.
       if name \<in> set RESERVED_FUNCTION_NAMES \<or> name \<in> set (reserved_function_names config)
       then Err (Message (''function name '' @ quoted name @ '' is reserved for a built-in native function''))
       else Ok ())"

definition validate_struct_def :: "ast_struct \<Rightarrow> compiler_config \<Rightarrow> compiler_error + unit" where
  "validate_struct_def def config =
     and_then (validate_identifier (ast_name def) ''struct name'' config) (\<lambda>_.
     and_then (fail_if (ast_fields def = [])
       (Message (''struct '' @ quoted (ast_name def) @ '': must have at least one field''))) (\<lambda>_.
     and_then (fail_if (length (ast_fields def) > max_fields config)
       (Message (''struct '' @ quoted (ast_name def) @ '': too many fields ('' @ show_nat (length (ast_fields def)) @
        '' > limit of '' @ show_nat (max_fields config) @ '')''))) (\<lambda>_.
     for_each (\<lambda>(field_name, ty).
       and_then (validate_identifier field_name (''field in struct '' @ quoted (ast_name def)) config) (\<lambda>_.
       fail_if (\<not> is_valid_field_type ty)
         (Message (''struct '' @ quoted (ast_name def) @ '': field '' @ quoted field_name @ '' has type '' @
          quoted (vtype_name ty) @ '' which is not allowed as a field type '' @ em_dash @
          '' only primitives (bool, u64, address, string) and structs are allowed''))))
       (ast_fields def))))"

definition ast_fields_to_field_defs :: "(string \<times> vtype) list \<Rightarrow> field_def list" where
  "ast_fields_to_field_defs flds = map (\<lambda>(name, ty). \<lparr>fd_name = name, fd_ty = ty\<rparr>) flds"

type_synonym dep_addresses = "(string \<times> address) list"

fun translate_type :: "hex_codec \<Rightarrow> dep_addresses \<Rightarrow> vtype \<Rightarrow> vtype" where
  "translate_type hx deps (TStruct name) =
     (case split_once_colons name of
        Some (mod_name, type_name) \<Rightarrow>
          (case map_of deps mod_name of
             Some addr \<Rightarrow> TStruct (qualify hx addr type_name)
           | None \<Rightarrow> TStruct name)
      | None \<Rightarrow> TStruct name)"
| "translate_type hx deps (TTuple types) = TTuple (map (translate_type hx deps) types)"
| "translate_type hx deps TBool = TBool"
| "translate_type hx deps TU64 = TU64"
| "translate_type hx deps TAddress = TAddress"
| "translate_type hx deps TStr = TStr"

definition translate_struct_field_types :: "hex_codec \<Rightarrow> dep_addresses \<Rightarrow> struct_def list \<Rightarrow> struct_def list" where
  "translate_struct_field_types hx deps structs =
     map (\<lambda>def. def\<lparr>sd_fields := map (\<lambda>field. field\<lparr>fd_ty := translate_type hx deps (fd_ty field)\<rparr>) (sd_fields def)\<rparr>)
       structs"

section \<open>Imports\<close>

text \<open>\<open>deps.iter().collect::<HashMap<_, _>>()\<close>: a later entry replaces an earlier one.\<close>

definition dep_map :: "(address \<times> module) list \<Rightarrow> module_map" where
  "dep_map deps = rev deps"

text \<open>The imports the search follows: those of modules that were provided.\<close>

definition import_graph :: "(address \<times> module) list \<Rightarrow> address graph" where
  "import_graph deps =
     map (\<lambda>(addr, m). (addr, filter (\<lambda>i. map_of (dep_map deps) i \<noteq> None) (md_imports m))) (dep_map deps)"

definition dfs_module_cycle ::
    "(address \<times> module) list \<Rightarrow> address set \<Rightarrow> address \<Rightarrow> address set \<Rightarrow> address option \<times> address set" where
  "dfs_module_cycle deps = dfs_node (import_graph deps)"

definition detect_module_dep_cycles :: "hex_codec \<Rightarrow> (address \<times> module) list \<Rightarrow> compiler_error + unit" where
  "detect_module_dep_cycles hx deps =
     (case find_cycle (import_graph deps) (map fst deps) {} of
        Some cycle_addr \<Rightarrow>
          Err (Message (''circular module dependency detected: module '' @
            quoted (case map_of (dep_map deps) cycle_addr of Some m \<Rightarrow> md_name m | None \<Rightarrow> ''<unknown>'') @
            '' at '' @ address_display hx cycle_addr @ '' is part of a recursive import chain''))
      | None \<Rightarrow> Ok ())"

text \<open>The queue of \<open>Compiler::compile\<close> over the imports of the declared dependencies.\<close>

function check_import_closure ::
    "hex_codec \<Rightarrow> module_map \<Rightarrow> address list \<Rightarrow> address set \<Rightarrow> compiler_error + unit" where
  "check_import_closure hx dm [] visited = Ok ()"
| "check_import_closure hx dm (addr # queue) visited =
     (if addr \<in> visited then check_import_closure hx dm queue visited
      else case map_of dm addr of
        None \<Rightarrow> Err (Message (''transitive dependency at '' @ address_display hx addr @
                  '' is required but was not provided''))
      | Some dep_module \<Rightarrow>
          check_import_closure hx dm
            (queue @ filter (\<lambda>i. i \<notin> insert addr visited) (md_imports dep_module)) (insert addr visited))"
  by pat_completeness auto

termination
proof (relation "measures [\<lambda>(hx, dm, queue, visited). card (fst ` set dm - visited),
    \<lambda>(hx, dm, queue, visited). length queue]")
  fix hx :: hex_codec and dm :: module_map and addr queue and visited :: "address set" and m
  assume "addr \<notin> visited" "map_of dm addr = Some m"
  then have "addr \<in> fst ` set dm - visited" by (metis DiffI map_of_eq_None_iff option.distinct(1))
  then have "card (fst ` set dm - insert addr visited) < card (fst ` set dm - visited)"
    by (metis Diff_insert card_Diff1_less finite_Diff finite_imageI finite_set)
  then show "((hx, dm, queue @ filter (\<lambda>i. i \<notin> insert addr visited) (md_imports m), insert addr visited),
      hx, dm, addr # queue, visited) \<in> measures [\<lambda>(hx, dm, queue, visited). card (fst ` set dm - visited),
    \<lambda>(hx, dm, queue, visited). length queue]" by simp
qed auto

section \<open>Struct references\<close>

definition struct_refs :: "struct_def \<Rightarrow> string list" where
  "struct_refs def = concat (map (\<lambda>f. case fd_ty f of TStruct n \<Rightarrow> [n] | _ \<Rightarrow> []) (sd_fields def))"

definition struct_graph :: "struct_def list \<Rightarrow> string graph" where
  "struct_graph structs = map (\<lambda>s. (sd_name s, struct_refs s)) structs"

definition dfs_cycle :: "struct_def list \<Rightarrow> string set \<Rightarrow> string \<Rightarrow> string set \<Rightarrow> string option \<times> string set" where
  "dfs_cycle structs = dfs_node (struct_graph structs)"

definition detect_struct_cycles :: "struct_def list \<Rightarrow> struct_def list \<Rightarrow> compiler_error + unit" where
  "detect_struct_cycles local_structs dep_structs =
     (case find_cycle (struct_graph (local_structs @ dep_structs)) (map sd_name local_structs) {} of
        Some cycle_name \<Rightarrow>
          Err (Message (''struct cycle detected: '' @ quoted cycle_name @ '' is part of a recursive struct definition''))
      | None \<Rightarrow> Ok ())"

definition validate_struct_refs :: "struct_def list \<Rightarrow> struct_def list \<Rightarrow> compiler_error + unit" where
  "validate_struct_refs local_structs dep_structs =
     (let known = set (map sd_name (local_structs @ dep_structs)) in
      and_then
        (for_each (\<lambda>def. for_each (\<lambda>field.
           case fd_ty field of
             TStruct sname \<Rightarrow> fail_if (sname \<notin> known)
               (Message (''struct '' @ quoted (sd_name def) @ '': field '' @ quoted (fd_name field) @
                '' references unknown struct '' @ quoted sname))
           | _ \<Rightarrow> Ok ()) (sd_fields def)) local_structs)
        (\<lambda>_. detect_struct_cycles local_structs dep_structs))"

fun check_type_ref_known :: "string set \<Rightarrow> string \<Rightarrow> vtype \<Rightarrow> compiler_error + unit" where
  "check_type_ref_known known context (TStruct name) =
     (if name \<notin> known then Err (Message (context @ '' references unknown struct '' @ quoted name)) else Ok ())"
| "check_type_ref_known known context (TTuple types) = for_each (check_type_ref_known known context) types"
| "check_type_ref_known known context TBool = Ok ()"
| "check_type_ref_known known context TU64 = Ok ()"
| "check_type_ref_known known context TAddress = Ok ()"
| "check_type_ref_known known context TStr = Ok ()"

definition validate_function_type_refs ::
    "ast_function list \<Rightarrow> struct_def list \<Rightarrow> struct_def list \<Rightarrow> compiler_error + unit" where
  "validate_function_type_refs functions local_structs dep_structs =
     (let known = set (map sd_name (local_structs @ dep_structs)) in
      for_each (\<lambda>f.
        and_then (for_each (\<lambda>(param_name, ty). check_type_ref_known known
            (''function '' @ quoted (af_name f) @ '' parameter '' @ quoted param_name) ty) (af_params f))
          (\<lambda>_. case af_return_type f of
             Some ty \<Rightarrow> check_type_ref_known known (''function '' @ quoted (af_name f) @ '' return type'') ty
           | None \<Rightarrow> Ok ())) functions)"

section \<open>What the walks establish\<close>

definition import_edges :: "(address \<times> module) list \<Rightarrow> (address \<times> address) set" where
  "import_edges deps =
     {(a, b). \<exists>m. map_of (dep_map deps) a = Some m \<and> b \<in> set (md_imports m) \<and> map_of (dep_map deps) b \<noteq> None}"

lemma map_of_map_snd: "map_of (map (\<lambda>(k, v). (k, F v)) kvs) k = map_option F (map_of kvs k)"
  by (induction kvs) auto

lemma edges_import_graph: "edges (import_graph deps) = import_edges deps"
  unfolding edges_def import_graph_def import_edges_def map_of_map_snd by auto

lemma import_edges_start: "(a, b) \<in> (import_edges deps)\<^sup>+ \<Longrightarrow> a \<in> fst ` set deps"
  by (induction rule: converse_trancl_induct)
    (auto simp: import_edges_def dep_map_def dest!: map_of_SomeD intro: rev_image_eqI)

lemma detect_module_dep_cycles_iff:
  "detect_module_dep_cycles hx deps = Inr () \<longleftrightarrow> acyclic (import_edges deps)"
proof -
  have "detect_module_dep_cycles hx deps = Inr () \<longleftrightarrow> find_cycle (import_graph deps) (map fst deps) {} = None"
    by (simp add: detect_module_dep_cycles_def split: option.splits)
  also have "\<dots> \<longleftrightarrow>
      (\<forall>s \<in> fst ` set deps. \<forall>a. (s, a) \<in> (import_edges deps)\<^sup>* \<longrightarrow> (a, a) \<notin> (import_edges deps)\<^sup>+)"
    by (simp add: find_cycle_iff edges_import_graph)
  also have "\<dots> \<longleftrightarrow> acyclic (import_edges deps)"
    using import_edges_start unfolding acyclic_def by blast
  finally show ?thesis .
qed

definition all_imports :: "module_map \<Rightarrow> (address \<times> address) set" where
  "all_imports dm = {(a, b). \<exists>m. map_of dm a = Some m \<and> b \<in> set (md_imports m)}"

lemma check_import_closure_sound:
  "check_import_closure hx dm queue visited = Inr u \<Longrightarrow>
     (\<forall>a \<in> visited. map_of dm a \<noteq> None \<and> all_imports dm `` {a} \<subseteq> visited \<union> set queue) \<Longrightarrow>
     \<exists>V. visited \<union> set queue \<subseteq> V \<and> (\<forall>a \<in> V. map_of dm a \<noteq> None \<and> all_imports dm `` {a} \<subseteq> V)"
proof (induction hx dm queue visited rule: check_import_closure.induct)
  case (1 hx dm visited)
  then show ?case by (intro exI [of _ visited]) simp
next
  case (2 hx dm addr queue visited)
  show ?case
  proof (cases "addr \<in> visited")
    case True
    with 2(4) have "\<forall>a \<in> visited. map_of dm a \<noteq> None \<and> all_imports dm `` {a} \<subseteq> visited \<union> set queue"
      by (simp add: insert_absorb)
    from 2(1) [OF True _ this] 2(3) True obtain V where
      "visited \<union> set queue \<subseteq> V" "\<forall>a \<in> V. map_of dm a \<noteq> None \<and> all_imports dm `` {a} \<subseteq> V" by auto
    with True show ?thesis by (intro exI [of _ V]) auto
  next
    case False
    with 2(3) obtain m where m: "map_of dm addr = Some m" by (auto split: option.splits)
    let ?queue = "queue @ filter (\<lambda>i. i \<notin> insert addr visited) (md_imports m)"
    have "\<forall>a \<in> insert addr visited. map_of dm a \<noteq> None \<and>
        all_imports dm `` {a} \<subseteq> insert addr visited \<union> set ?queue"
      using 2(4) m by (auto simp: all_imports_def)
    from 2(2) [OF False m _ this] 2(3) False m obtain V where
      "insert addr visited \<union> set ?queue \<subseteq> V" "\<forall>a \<in> V. map_of dm a \<noteq> None \<and> all_imports dm `` {a} \<subseteq> V"
      by auto
    then show ?thesis by (intro exI [of _ V]) auto
  qed
qed

lemma check_import_closure_complete:
  "\<forall>a \<in> V. map_of dm a \<noteq> None \<and> all_imports dm `` {a} \<subseteq> V \<Longrightarrow> set queue \<subseteq> V \<Longrightarrow>
     check_import_closure hx dm queue visited = Inr ()"
proof (induction hx dm queue visited rule: check_import_closure.induct)
  case (2 hx dm addr queue visited)
  then obtain m where m: "map_of dm addr = Some m" by auto
  with 2 have "set (md_imports m) \<subseteq> V" by (auto simp: all_imports_def)
  with 2 m show ?case by auto
qed simp

text \<open>The walk accepts exactly when every address that imports lead to was provided.\<close>

lemma check_import_closure_iff:
  "check_import_closure hx dm starts {} = Inr () \<longleftrightarrow>
     (\<forall>s \<in> set starts. \<forall>a. (s, a) \<in> (all_imports dm)\<^sup>* \<longrightarrow> map_of dm a \<noteq> None)"
proof
  assume "check_import_closure hx dm starts {} = Inr ()"
  from check_import_closure_sound [OF this] obtain V where
    V: "set starts \<subseteq> V" "\<forall>a \<in> V. map_of dm a \<noteq> None \<and> all_imports dm `` {a} \<subseteq> V" by auto
  then have "all_imports dm `` V \<subseteq> V" by auto
  then have "(all_imports dm)\<^sup>* `` V = V" by (rule Image_closed_trancl)
  with V show "\<forall>s \<in> set starts. \<forall>a. (s, a) \<in> (all_imports dm)\<^sup>* \<longrightarrow> map_of dm a \<noteq> None" by blast
next
  assume "\<forall>s \<in> set starts. \<forall>a. (s, a) \<in> (all_imports dm)\<^sup>* \<longrightarrow> map_of dm a \<noteq> None"
  then show "check_import_closure hx dm starts {} = Inr ()"
    by (intro check_import_closure_complete [of "(all_imports dm)\<^sup>* `` set starts"])
      (auto intro: rtrancl_into_rtrancl)
qed

end
