(* ===== verification/Compiler_Types.thy ===== *)
theory Compiler_Types
  imports Compiler_Validator
begin

text \<open>
  The type checker of the compiler, \<open>meow-vm-compiler/src/type_checker.rs\<close>.  The hash maps it only looks names
  up in are maps; that of the local variables is an association list in which the first entry of a key counts, so
  an insertion is an entry put in front.
\<close>

section \<open>Types of expressions\<close>

type_synonym source_fields = "(string \<times> vtype) list"
type_synonym source_locals = "(string \<times> vtype) list"

record type_checker =
  tc_source_structs :: "string \<rightharpoonup> source_fields"
  tc_source_fns :: "string \<rightharpoonup> vtype list \<times> vtype option"
  tc_native_fns :: "string \<rightharpoonup> native_param list \<times> vtype option"
  tc_fn_name :: string
  tc_return_type :: "vtype option"

definition type_err :: "type_checker \<Rightarrow> string \<Rightarrow> compiler_error" where
  "type_err tc msg = Message (''in function '' @ quoted (tc_fn_name tc) @ '': '' @ msg)"

fun type_display :: "vtype \<Rightarrow> string" where
  "type_display TBool = ''bool''"
| "type_display TU64 = ''u64''"
| "type_display TAddress = ''address''"
| "type_display TStr = ''string''"
| "type_display (TStruct name) = name"
| "type_display (TTuple types) = ''('' @ join_with '', '' (map type_display types) @ '')''"

definition require_typed :: "type_checker \<Rightarrow> string \<Rightarrow> compiler_error + vtype option \<Rightarrow> compiler_error + vtype" where
  "require_typed tc context r =
     and_then r (\<lambda>t. case t of
        Some ty \<Rightarrow> Ok ty
      | None \<Rightarrow> Err (type_err tc (context @ '': void expression cannot be used as a value'')))"

definition expect_type :: "type_checker \<Rightarrow> vtype \<Rightarrow> vtype \<Rightarrow> string \<Rightarrow> compiler_error + unit" where
  "expect_type tc actual expected context =
     (if actual = expected then Ok ()
      else Err (type_err tc (context @ '': expected '' @ type_display expected @ '', found '' @ type_display actual)))"

definition is_arith :: "binop \<Rightarrow> bool" where
  "is_arith op = (op \<in> {BAdd, BSub, BMul, BDiv, BMod})"

definition is_order :: "binop \<Rightarrow> bool" where
  "is_order op = (op \<in> {BLt, BLe, BGt, BGe})"

definition is_equality :: "binop \<Rightarrow> bool" where
  "is_equality op = (op \<in> {BEq, BNe})"

text \<open>The rules of \<open>check_binop\<close> after both operands have a type.\<close>

definition check_binop :: "type_checker \<Rightarrow> binop \<Rightarrow> vtype \<Rightarrow> vtype \<Rightarrow> compiler_error + vtype" where
  "check_binop tc op lty rty =
     (if is_arith op then
        and_then (expect_type tc lty TU64 ''left operand of arithmetic op'') (\<lambda>_.
        and_then (expect_type tc rty TU64 ''right operand of arithmetic op'') (\<lambda>_. Ok TU64))
      else if is_order op then
        and_then (expect_type tc lty TU64 ''left operand of comparison'') (\<lambda>_.
        and_then (expect_type tc rty TU64 ''right operand of comparison'') (\<lambda>_. Ok TBool))
      else if is_equality op then
        (if type_is_linear lty \<or> type_is_linear rty
         then Err (type_err tc (quoted (vtype_name (if type_is_linear lty then lty else rty)) @
                '': struct types and tuples containing structs cannot be compared with == or != '' @ em_dash @
                '' destructure and compare fields individually''))
         else and_then (expect_type tc rty lty ''right operand of equality'') (\<lambda>_. Ok TBool))
      else
        and_then (expect_type tc lty TBool ''left operand of logical op'') (\<lambda>_.
        and_then (expect_type tc rty TBool ''right operand of logical op'') (\<lambda>_. Ok TBool)))"

definition arity_err :: "type_checker \<Rightarrow> string \<Rightarrow> nat \<Rightarrow> nat \<Rightarrow> compiler_error" where
  "arity_err tc name expected found =
     type_err tc (''call to '' @ quoted name @ '': expected '' @ show_nat expected @ '' argument(s), found '' @
       show_nat found)"

definition nth_argument :: "nat \<Rightarrow> string \<Rightarrow> string" where
  "nth_argument i name = ''argument '' @ show_nat (i + 1) @ '' of '' @ quoted name"

definition check_native_arg ::
    "type_checker \<Rightarrow> string \<Rightarrow> nat \<times> vtype \<times> native_param \<Rightarrow> compiler_error + unit" where
  "check_native_arg tc name = (\<lambda>(i, actual, param).
     case param of
       Concrete expected \<Rightarrow> expect_type tc actual expected (nth_argument i name)
     | AnyStruct \<Rightarrow>
         (case actual of
            TStruct _ \<Rightarrow> Ok ()
          | other \<Rightarrow> Err (type_err tc (nth_argument i name @ '': expected a struct, found '' @ type_display other)))
     | LocalStruct \<Rightarrow>
         fail_if (case actual of TStruct n \<Rightarrow> is_qualified n | _ \<Rightarrow> True)
           (type_err tc (nth_argument i name @ '': expected a struct defined in this module, found '' @
              type_display actual)))"

text \<open>The rules of \<open>tc_check_call\<close> after every argument has a type.\<close>

definition tc_check_call :: "type_checker \<Rightarrow> string \<Rightarrow> vtype list \<Rightarrow> compiler_error + vtype option" where
  "tc_check_call tc name arg_types =
     (case tc_native_fns tc name of
        Some (param_types, ret_type) \<Rightarrow>
          and_then (fail_if (length arg_types \<noteq> length param_types)
            (arity_err tc name (length param_types) (length arg_types))) (\<lambda>_.
          and_then (for_each (check_native_arg tc name) (enumerate 0 (zip arg_types param_types))) (\<lambda>_.
            Ok ret_type))
      | None \<Rightarrow>
          (case tc_source_fns tc name of
             Some (param_types, ret_type) \<Rightarrow>
               and_then (fail_if (length arg_types \<noteq> length param_types)
                 (arity_err tc name (length param_types) (length arg_types))) (\<lambda>_.
               and_then (for_each (\<lambda>(i, actual, expected). expect_type tc actual expected (nth_argument i name))
                   (enumerate 0 (zip arg_types param_types))) (\<lambda>_.
                 Ok ret_type))
           | None \<Rightarrow> Ok None))"

text \<open>\<open>fields.iter().find(|(n, _)| n == field)\<close> on a local struct.\<close>

definition source_field_type :: "type_checker \<Rightarrow> string \<Rightarrow> string \<Rightarrow> compiler_error + vtype" where
  "source_field_type tc struct_name field =
     and_then (ok_or (tc_source_structs tc struct_name)
       (type_err tc (''unknown struct '' @ quoted struct_name))) (\<lambda>flds.
     ok_or (map_of flds field)
       (type_err tc (''no field '' @ quoted field @ '' on struct '' @ quoted struct_name)))"

text \<open>
  \<open>typed_exprs\<close> is the loop over arguments or tuple elements, \<open>check_lit_fields\<close> the loop over the fields of a
  struct definition with the literal's hash map.
\<close>

lemma size_map_of: "map_of kvs k = Some e \<Longrightarrow> size e < size_list (size_prod (\<lambda>_. 0) size) kvs"
  by (drule map_of_SomeD) (induction kvs; force)

lemma size_list_rev [simp]: "size_list f (rev xs) = size_list f xs"
proof -
  have "size_list f (xs @ ys) = size_list f xs + size_list f ys" for xs ys
    by (induction xs) auto
  then show ?thesis by (induction xs) auto
qed

function expr_type :: "type_checker \<Rightarrow> source_locals \<Rightarrow> expr \<Rightarrow> compiler_error + vtype option"
and typed_exprs :: "type_checker \<Rightarrow> source_locals \<Rightarrow> string \<Rightarrow> expr list \<Rightarrow> compiler_error + vtype list"
and check_lit_fields ::
    "type_checker \<Rightarrow> source_locals \<Rightarrow> string \<Rightarrow> (string \<times> expr) list \<Rightarrow> source_fields \<Rightarrow> compiler_error + unit"
where
  "expr_type tc locals (EBool _) = Ok (Some TBool)"
| "expr_type tc locals (EInt _) = Ok (Some TU64)"
| "expr_type tc locals (EAddress _) = Ok (Some TAddress)"
| "expr_type tc locals (EStr _) = Ok (Some TStr)"
| "expr_type tc locals (EIdent name) =
     and_then (ok_or (map_of locals name) (type_err tc (''undefined variable '' @ quoted name))) (\<lambda>ty. Ok (Some ty))"
| "expr_type tc locals (EUnaryOp op e) =
     and_then (require_typed tc (''unary '' @ quoted ''!'') (expr_type tc locals e)) (\<lambda>ty.
     and_then (expect_type tc ty TBool (''operand of '' @ quoted ''!'')) (\<lambda>_. Ok (Some TBool)))"
| "expr_type tc locals (EBinOp left op right) =
     and_then (require_typed tc ''left operand'' (expr_type tc locals left)) (\<lambda>lty.
     and_then (require_typed tc ''right operand'' (expr_type tc locals right)) (\<lambda>rty.
     and_then (check_binop tc op lty rty) (\<lambda>ty. Ok (Some ty))))"
| "expr_type tc locals (EStructLit name lits) =
     (if is_qualified name then Ok (Some (TStruct name))
      else
        and_then (ok_or (tc_source_structs tc name) (type_err tc (''unknown struct '' @ quoted name)))
          (\<lambda>def_fields.
        and_then (check_lit_fields tc locals name (rev lits) def_fields) (\<lambda>_.
        and_then (for_each (\<lambda>(field_name, _).
            fail_if (field_name \<notin> fst ` set def_fields)
              (type_err tc (''unknown field '' @ quoted field_name @ '' in struct literal '' @ quoted name))) lits)
          (\<lambda>_. Ok (Some (TStruct name))))))"
| "expr_type tc locals (EFieldAccess base field) =
     and_then (require_typed tc ''field access base'' (expr_type tc locals base)) (\<lambda>base_ty.
       case base_ty of
         TStruct struct_name \<Rightarrow>
           if is_qualified struct_name
           then Err (type_err tc (''fields of '' @ quoted struct_name @ '' are private '' @ em_dash @
                  '' use a public getter function to access them''))
           else and_then (source_field_type tc struct_name field) (\<lambda>field_ty. Ok (Some field_ty))
       | other \<Rightarrow> Err (type_err tc (''field access '' @ quoted (CHR ''.'' # field) @ '' requires a struct, found '' @
                  type_display other)))"
| "expr_type tc locals (ECall name args) =
     and_then (typed_exprs tc locals (''argument to '' @ quoted name) args) (\<lambda>arg_types.
       tc_check_call tc name arg_types)"
| "expr_type tc locals (ETuple items) =
     and_then (typed_exprs tc locals ''tuple element'' items) (\<lambda>types. Ok (Some (TTuple types)))"
| "typed_exprs tc locals context [] = Ok []"
| "typed_exprs tc locals context (e # es) =
     and_then (require_typed tc context (expr_type tc locals e)) (\<lambda>ty.
     and_then (typed_exprs tc locals context es) (\<lambda>types. Ok (ty # types)))"
| "check_lit_fields tc locals name lit_map [] = Ok ()"
| "check_lit_fields tc locals name lit_map ((field_name, field_ty) # def_fields) =
     (case map_of lit_map field_name of
        None \<Rightarrow> Err (type_err tc (''missing field '' @ quoted field_name @ '' in struct literal '' @ quoted name))
      | Some field_expr \<Rightarrow>
          (let context = ''field '' @ quoted field_name @ '' in '' @ quoted name in
           and_then (require_typed tc context (expr_type tc locals field_expr)) (\<lambda>actual.
           and_then (expect_type tc actual field_ty context) (\<lambda>_.
             check_lit_fields tc locals name lit_map def_fields))))"
  by pat_completeness auto

termination
  by (relation "measures [
      case_sum (\<lambda>(_, _, e). size e)
        (case_sum (\<lambda>(_, _, _, es). size_list size es)
                  (\<lambda>(_, _, _, lits, _). size_list (size_prod (\<lambda>_. 0) size) lits)),
      case_sum (\<lambda>_. 0) (case_sum (\<lambda>_. 0) (\<lambda>(_, _, _, _, def_fields). length def_fields))]")
    (auto dest: size_map_of)

section \<open>Statements\<close>

text \<open>The walk of \<open>FieldAssign\<close> along its path; \<open>actual\<close> is the type of the assigned expression.\<close>

fun check_assign_path ::
    "type_checker \<Rightarrow> string \<Rightarrow> compiler_error + vtype option \<Rightarrow> vtype \<Rightarrow> string list \<Rightarrow> compiler_error + unit" where
  "check_assign_path tc path_display actual current_ty [] = Ok ()"
| "check_assign_path tc path_display actual current_ty (field_name # path) =
     (case current_ty of
        TStruct struct_name \<Rightarrow>
          if is_qualified struct_name then and_then actual (\<lambda>_. Ok ())
          else
            and_then (source_field_type tc struct_name field_name) (\<lambda>field_ty.
              if path = [] then
                and_then actual (\<lambda>t. case t of
                    Some ty \<Rightarrow> expect_type tc ty field_ty (''assignment to '' @ quoted path_display)
                  | None \<Rightarrow> Ok ())
              else check_assign_path tc path_display actual field_ty path)
      | other \<Rightarrow> Err (type_err tc (''field access on non-struct type '' @ type_display other @ '' in '' @
                  quoted path_display)))"

text \<open>The bindings of \<open>LetStruct\<close>.\<close>

fun bind_fields ::
    "type_checker \<Rightarrow> string \<Rightarrow> source_fields \<Rightarrow> (string \<times> string) list \<Rightarrow> source_locals
       \<Rightarrow> compiler_error + source_locals" where
  "bind_fields tc type_name flds [] locals = Ok locals"
| "bind_fields tc type_name flds ((field_name, binding_name) # bindings) locals =
     (if binding_name = ''_'' then bind_fields tc type_name flds bindings locals
      else case map_of flds field_name of
        Some field_ty \<Rightarrow> bind_fields tc type_name flds bindings ((binding_name, field_ty) # locals)
      | None \<Rightarrow> Err (type_err tc (''struct destructuring of '' @ quoted type_name @ '': unknown field '' @
                  quoted field_name)))"

fun bind_names :: "string list \<Rightarrow> vtype list \<Rightarrow> source_locals \<Rightarrow> source_locals" where
  "bind_names (name # names) (ty # types) locals =
     bind_names names types (if name = ''_'' then locals else (name, ty) # locals)"
| "bind_names _ _ locals = locals"

fun check_stmt :: "type_checker \<Rightarrow> stmt \<Rightarrow> source_locals \<Rightarrow> compiler_error + source_locals"
and check_stmts :: "type_checker \<Rightarrow> stmt list \<Rightarrow> source_locals \<Rightarrow> compiler_error + source_locals" where
  "check_stmt tc (SLet name e) locals =
     and_then (require_typed tc (''let binding '' @ quoted name) (expr_type tc locals e)) (\<lambda>ty.
       Ok ((name, ty) # locals))"
| "check_stmt tc (SReassign name e) locals =
     and_then (ok_or (map_of locals name) (type_err tc (''assignment to undefined variable '' @ quoted name)))
       (\<lambda>expected.
     and_then (expr_type tc locals e) (\<lambda>t.
     and_then (case t of
         Some actual \<Rightarrow> expect_type tc actual expected (''assignment to '' @ quoted name)
       | None \<Rightarrow> Ok ()) (\<lambda>_. Ok locals)))"
| "check_stmt tc (SReturn opt_expr) locals =
     (case (tc_return_type tc, opt_expr) of
        (None, None) \<Rightarrow> Ok locals
      | (None, Some e) \<Rightarrow> and_then (expr_type tc locals e) (\<lambda>_. Ok locals)
      | (Some ret_ty, None) \<Rightarrow>
          Err (type_err tc (''return without value in function that returns '' @ type_display ret_ty))
      | (Some ret_ty, Some e) \<Rightarrow>
          and_then (expr_type tc locals e) (\<lambda>t.
          and_then (case t of
              Some actual \<Rightarrow> expect_type tc actual ret_ty ''return value''
            | None \<Rightarrow> Ok ()) (\<lambda>_. Ok locals)))"
| "check_stmt tc (SExpr e) locals = and_then (expr_type tc locals e) (\<lambda>_. Ok locals)"
| "check_stmt tc (SIf cond body else_body) locals =
     and_then (require_typed tc ''if condition'' (expr_type tc locals cond)) (\<lambda>cond_ty.
     and_then (expect_type tc cond_ty TBool ''if condition'') (\<lambda>_.
     and_then (check_stmts tc body locals) (\<lambda>_.
       case else_body of
         Some else_stmts \<Rightarrow> and_then (check_stmts tc else_stmts locals) (\<lambda>_. Ok locals)
       | None \<Rightarrow> Ok locals)))"
| "check_stmt tc (SFieldAssign obj_name field_path e) locals =
     and_then (ok_or (map_of locals obj_name) (type_err tc (''undefined variable '' @ quoted obj_name))) (\<lambda>obj_ty.
     and_then (check_assign_path tc (obj_name @ ''.'' @ join_with ''.'' field_path) (expr_type tc locals e)
       obj_ty field_path) (\<lambda>_. Ok locals))"
| "check_stmt tc (SLetTuple names e) locals =
     and_then (require_typed tc ''tuple destructuring'' (expr_type tc locals e)) (\<lambda>ty.
       case ty of
         TTuple types \<Rightarrow>
           and_then (fail_if (length names \<noteq> length types)
             (type_err tc (''let tuple: '' @ show_nat (length names) @ '' names but tuple has '' @
                show_nat (length types) @ '' elements''))) (\<lambda>_.
           Ok (bind_names names types locals))
       | other \<Rightarrow> Err (type_err tc (''let tuple destructuring: expected a tuple, found '' @ type_display other)))"
| "check_stmt tc (SLetStruct type_name bindings e rest_discarded) locals =
     and_then (require_typed tc ''struct destructuring'' (expr_type tc locals e)) (\<lambda>ty.
     and_then (if is_qualified type_name then Ok ()
               else expect_type tc ty (TStruct type_name) (''struct destructuring of '' @ quoted type_name)) (\<lambda>_.
       case tc_source_structs tc type_name of
         Some flds \<Rightarrow> bind_fields tc type_name flds bindings locals
       | None \<Rightarrow> Ok locals))"
| "check_stmts tc [] locals = Ok locals"
| "check_stmts tc (s # ss) locals = and_then (check_stmt tc s locals) (\<lambda>locals. check_stmts tc ss locals)"

definition tc_check_function :: "type_checker \<Rightarrow> ast_function \<Rightarrow> compiler_error + unit" where
  "tc_check_function tc func =
     (let tc = tc\<lparr>tc_fn_name := af_name func, tc_return_type := af_return_type func\<rparr> in
      and_then (check_stmts tc (af_body func) (rev (af_params func))) (\<lambda>_. Ok ()))"

section \<open>The environment\<close>

fun reverse_translate_type :: "hex_codec \<Rightarrow> (address \<Rightarrow> string option) \<Rightarrow> vtype \<Rightarrow> vtype" where
  "reverse_translate_type hx addr_to_dep (TStruct name) =
     (if strip_at name \<noteq> None then
        (case split_once_colons name of
           Some (before, after) \<Rightarrow>
             (case address_from_str hx (tl before) of
                Inr addr \<Rightarrow>
                  (case addr_to_dep addr of
                     Some dep_name \<Rightarrow> TStruct (dep_name @ ''::'' @ after)
                   | None \<Rightarrow> TStruct name)
              | Inl _ \<Rightarrow> TStruct name)
         | None \<Rightarrow> TStruct name)
      else TStruct name)"
| "reverse_translate_type hx addr_to_dep (TTuple types) =
     TTuple (map (reverse_translate_type hx addr_to_dep) types)"
| "reverse_translate_type hx addr_to_dep TBool = TBool"
| "reverse_translate_type hx addr_to_dep TU64 = TU64"
| "reverse_translate_type hx addr_to_dep TAddress = TAddress"
| "reverse_translate_type hx addr_to_dep TStr = TStr"

fun qualify_dep_local_type :: "string \<Rightarrow> string list \<Rightarrow> vtype \<Rightarrow> vtype" where
  "qualify_dep_local_type dep_name dep_module_struct_names (TStruct name) =
     (if \<not> is_qualified name \<and> strip_at name = None \<and> name \<in> set dep_module_struct_names
      then TStruct (dep_name @ ''::'' @ name) else TStruct name)"
| "qualify_dep_local_type dep_name dep_module_struct_names (TTuple types) =
     TTuple (map (qualify_dep_local_type dep_name dep_module_struct_names) types)"
| "qualify_dep_local_type dep_name dep_module_struct_names TBool = TBool"
| "qualify_dep_local_type dep_name dep_module_struct_names TU64 = TU64"
| "qualify_dep_local_type dep_name dep_module_struct_names TAddress = TAddress"
| "qualify_dep_local_type dep_name dep_module_struct_names TStr = TStr"

text \<open>The type of a dependency as the source names it.\<close>

definition source_type :: "hex_codec \<Rightarrow> (address \<Rightarrow> string option) \<Rightarrow> string \<Rightarrow> module \<Rightarrow> vtype \<Rightarrow> vtype" where
  "source_type hx addr_to_dep dep_name dep_module ty =
     qualify_dep_local_type dep_name (map sd_name (md_structs dep_module)) (reverse_translate_type hx addr_to_dep ty)"

definition dep_source_structs ::
    "hex_codec \<Rightarrow> (address \<Rightarrow> string option) \<Rightarrow> address \<times> module \<Rightarrow> (string \<times> source_fields) list" where
  "dep_source_structs hx addr_to_dep = (\<lambda>(addr, dep_module).
     case addr_to_dep addr of
       None \<Rightarrow> []
     | Some dep_name \<Rightarrow>
         map (\<lambda>s. (dep_name @ ''::'' @ sd_name s,
               map (\<lambda>f. (fd_name f, source_type hx addr_to_dep dep_name dep_module (fd_ty f))) (sd_fields s)))
           (filter sd_is_public (md_structs dep_module)))"

definition dep_source_fns ::
    "hex_codec \<Rightarrow> (address \<Rightarrow> string option) \<Rightarrow> address \<times> module
       \<Rightarrow> (string \<times> vtype list \<times> vtype option) list" where
  "dep_source_fns hx addr_to_dep = (\<lambda>(addr, dep_module).
     case addr_to_dep addr of
       None \<Rightarrow> []
     | Some dep_name \<Rightarrow>
         map (\<lambda>f. (dep_name @ ''::'' @ fn_name f,
               map (\<lambda>(_, ty). source_type hx addr_to_dep dep_name dep_module ty) (fn_params f),
               map_option (source_type hx addr_to_dep dep_name dep_module) (fn_return_type f)))
           (filter fn_is_public (md_functions dep_module)))"

text \<open>
  \<open>type_checker::check\<close>.  \<open>dep_addresses\<close> and \<open>dep_modules\<close> are given in the orders in which the two hash maps are
  iterated: of two names for one address the later counts in \<open>addr_to_dep\<close>, and an entry of a later module
  replaces one of an earlier module with the same name.
\<close>

definition addr_to_dep_of :: "dep_addresses \<Rightarrow> address \<Rightarrow> string option" where
  "addr_to_dep_of dep_addresses = map_of (rev (map (\<lambda>(name, addr). (addr, name)) dep_addresses))"

definition checker_new ::
    "hex_codec \<Rightarrow> ast_struct list \<Rightarrow> dep_addresses \<Rightarrow> module_map \<Rightarrow> native_sig list
       \<Rightarrow> (string \<times> vtype list) list \<Rightarrow> (string \<times> vtype option) list \<Rightarrow> type_checker" where
  "checker_new hx ast_structs dep_addresses dep_modules native_sigs local_fn_param_types local_fn_return_types =
     (let addr_to_dep = addr_to_dep_of dep_addresses in
      \<lparr>tc_source_structs = map_of (rev (map (\<lambda>s. (ast_name s, ast_fields s)) ast_structs @
         concat (map (dep_source_structs hx addr_to_dep) dep_modules))),
       tc_source_fns = map_of (rev (map (\<lambda>(fn_name, param_types). (fn_name, param_types,
             Option.bind (map_of local_fn_return_types fn_name) (\<lambda>r. r))) (rev local_fn_param_types) @
         concat (map (dep_source_fns hx addr_to_dep) dep_modules))),
       tc_native_fns = map_of (rev (map (\<lambda>sig. (ns_name sig, ns_params sig, ns_return_type sig)) native_sigs)),
       tc_fn_name = [],
       tc_return_type = None\<rparr>)"

definition type_check ::
    "hex_codec \<Rightarrow> ast_struct list \<Rightarrow> dep_addresses \<Rightarrow> module_map \<Rightarrow> native_sig list
       \<Rightarrow> (string \<times> vtype list) list \<Rightarrow> (string \<times> vtype option) list \<Rightarrow> ast_function list \<Rightarrow> compiler_error + unit" where
  "type_check hx ast_structs dep_addresses dep_modules native_sigs local_fn_param_types local_fn_return_types ast_fns =
     for_each (tc_check_function
       (checker_new hx ast_structs dep_addresses dep_modules native_sigs local_fn_param_types local_fn_return_types))
       ast_fns"

end
