(* ===== verification/Compiler_Codegen.thy ===== *)
theory Compiler_Codegen
  imports Compiler_Types
begin

text \<open>
  The code generator of the compiler, \<open>meow-vm-compiler/src/codegen.rs\<close>.  The generator's mutable fields are
  passed and returned; its hash maps are association lists with one entry per key, kept so by \<open>update\<close> and
  \<open>delete\<close>.
\<close>

section \<open>State\<close>

record codegen =
  cg_config :: compiler_config
  cg_structs :: "struct_def list"
  cg_dep_addresses :: dep_addresses
  cg_dep_modules :: module_map
  cg_local_fn_return_types :: "(string \<times> vtype option) list"
  cg_locals :: "(string \<times> u8 \<times> u32) list"
  cg_local_types :: "(u8 \<times> vtype) list"
  cg_moved :: "u8 set"
  cg_next_slot :: u8
  cg_scope_depth :: u32
  cg_code :: "instruction list"

definition codegen_new ::
    "struct_def list \<Rightarrow> dep_addresses \<Rightarrow> module_map \<Rightarrow> (string \<times> vtype option) list \<Rightarrow> compiler_config \<Rightarrow> codegen" where
  "codegen_new structs dep_addresses dep_modules local_fn_return_types config =
     \<lparr>cg_config = config, cg_structs = structs, cg_dep_addresses = dep_addresses, cg_dep_modules = dep_modules,
      cg_local_fn_return_types = local_fn_return_types, cg_locals = [], cg_local_types = [], cg_moved = {},
      cg_next_slot = 0, cg_scope_depth = 0, cg_code = []\<rparr>"

definition emit :: "instruction \<Rightarrow> codegen \<Rightarrow> codegen" where
  "emit instr cg = cg\<lparr>cg_code := cg_code cg @ [instr]\<rparr>"

definition set_type :: "u8 \<Rightarrow> vtype \<Rightarrow> codegen \<Rightarrow> codegen" where
  "set_type slot ty cg = cg\<lparr>cg_local_types := AList.update slot ty (cg_local_types cg)\<rparr>"

text \<open>\<open>matches!(local_types.get(&slot), Some(ty) if !ty.is_primitive())\<close>.\<close>

definition holds_struct :: "codegen \<Rightarrow> u8 \<Rightarrow> bool" where
  "holds_struct cg slot = (case map_of (cg_local_types cg) slot of Some ty \<Rightarrow> \<not> is_primitive ty | None \<Rightarrow> False)"

definition local_slot :: "codegen \<Rightarrow> string \<Rightarrow> compiler_error + u8" where
  "local_slot cg name =
     ok_or (map_option fst (map_of (cg_locals cg) name)) (Message (''undefined variable '' @ quoted name))"

definition alloc_fresh :: "string \<Rightarrow> codegen \<Rightarrow> compiler_error + (u8 \<times> codegen)" where
  "alloc_fresh name cg =
     (if cg_next_slot cg \<ge> max_locals (cg_config cg)
      then Err (Message (''too many local variables: limit is '' @ show_nat (unat (max_locals (cg_config cg)))))
      else Ok (cg_next_slot cg,
        cg\<lparr>cg_locals := AList.update name (cg_next_slot cg, cg_scope_depth cg) (cg_locals cg),
           cg_next_slot := cg_next_slot cg + 1\<rparr>))"

definition alloc_local :: "string \<Rightarrow> codegen \<Rightarrow> compiler_error + (u8 \<times> codegen)" where
  "alloc_local name cg =
     and_then (validate_identifier name ''variable'' (cg_config cg)) (\<lambda>_.
       case map_of (cg_locals cg) name of
         Some (existing_slot, existing_depth) \<Rightarrow>
           if existing_depth = cg_scope_depth cg then
             (if holds_struct cg existing_slot
              then Err (Message (''cannot shadow '' @ quoted name @ '': the binding still holds a struct value '' @ em_dash @
                     '' consume or destructure it first''))
              else Ok (existing_slot, cg\<lparr>cg_moved := cg_moved cg - {existing_slot}\<rparr>))
           else alloc_fresh name cg
       | None \<Rightarrow> alloc_fresh name cg)"

section \<open>Names and types\<close>

definition cg_translate_name :: "hex_codec \<Rightarrow> codegen \<Rightarrow> string \<Rightarrow> compiler_error + string" where
  "cg_translate_name hx cg name =
     (case split_once_colons name of
        Some (mod_name, rest) \<Rightarrow>
          (case map_of (cg_dep_addresses cg) mod_name of
             Some addr \<Rightarrow> Ok (qualify hx addr rest)
           | None \<Rightarrow> Err (Message (''reference to undeclared module '' @ quoted mod_name @ '' '' @ em_dash @ '' add `use '' @
                 mod_name @ '';` at the top of the file'')))
      | None \<Rightarrow> Ok name)"

fun cg_translate_type :: "hex_codec \<Rightarrow> codegen \<Rightarrow> vtype \<Rightarrow> compiler_error + vtype"
and cg_translate_types :: "hex_codec \<Rightarrow> codegen \<Rightarrow> vtype list \<Rightarrow> compiler_error + vtype list" where
  "cg_translate_type hx cg (TStruct name) = and_then (cg_translate_name hx cg name) (\<lambda>n. Ok (TStruct n))"
| "cg_translate_type hx cg (TTuple types) = and_then (cg_translate_types hx cg types) (\<lambda>ts. Ok (TTuple ts))"
| "cg_translate_type hx cg TBool = Ok TBool"
| "cg_translate_type hx cg TU64 = Ok TU64"
| "cg_translate_type hx cg TAddress = Ok TAddress"
| "cg_translate_type hx cg TStr = Ok TStr"
| "cg_translate_types hx cg [] = Ok []"
| "cg_translate_types hx cg (t # ts) =
     and_then (cg_translate_type hx cg t) (\<lambda>t.
     and_then (cg_translate_types hx cg ts) (\<lambda>ts. Ok (t # ts)))"

definition find_struct :: "codegen \<Rightarrow> string \<Rightarrow> struct_def option" where
  "find_struct cg name = find (\<lambda>s. sd_name s = name) (cg_structs cg)"

definition call_return_type :: "codegen \<Rightarrow> string \<Rightarrow> vtype option" where
  "call_return_type cg name =
     (case split_once_colons name of
        Some (dep_name, fn_local_name) \<Rightarrow>
          Option.bind (map_of (cg_dep_addresses cg) dep_name) (\<lambda>dep_addr.
          Option.bind (map_of (cg_dep_modules cg) dep_addr) (\<lambda>dep_module.
          Option.bind (get_function dep_module fn_local_name) (\<lambda>func.
            map_option (\<lambda>t. case t of TStruct n \<Rightarrow> TStruct (dep_name @ ''::'' @ n) | other \<Rightarrow> other)
              (fn_return_type func))))
      | None \<Rightarrow> Option.bind (map_of (cg_local_fn_return_types cg) name) (\<lambda>r. r))"

fun infer_type :: "codegen \<Rightarrow> expr \<Rightarrow> vtype option" where
  "infer_type cg (EBool _) = Some TBool"
| "infer_type cg (EInt _) = Some TU64"
| "infer_type cg (EAddress _) = Some TAddress"
| "infer_type cg (EStr _) = Some TStr"
| "infer_type cg (EIdent name) =
     Option.bind (map_of (cg_locals cg) name) (\<lambda>(slot, _). map_of (cg_local_types cg) slot)"
| "infer_type cg (EStructLit name _) = Some (TStruct name)"
| "infer_type cg (EFieldAccess base field) =
     Option.bind (infer_type cg base) (\<lambda>base_type.
     Option.bind (find_struct cg (vtype_name base_type)) (\<lambda>def.
       map_option fd_ty (find_field field (sd_fields def))))"
| "infer_type cg (ECall name _) = call_return_type cg name"
| "infer_type cg (EBinOp _ op _) = Some (if is_arith op then TU64 else TBool)"
| "infer_type cg (ETuple items) = map_option TTuple (those (map (infer_type cg) items))"
| "infer_type cg (EUnaryOp _ _) = Some TBool"

fun field_path_type :: "codegen \<Rightarrow> vtype \<Rightarrow> string list \<Rightarrow> vtype option" where
  "field_path_type cg current [] = Some current"
| "field_path_type cg current (field_name # path) =
     Option.bind (find_struct cg (vtype_name current)) (\<lambda>def.
     Option.bind (find_field field_name (sd_fields def)) (\<lambda>f. field_path_type cg (fd_ty f) path))"

section \<open>Checks\<close>

definition check_fn_visibility :: "codegen \<Rightarrow> string \<Rightarrow> compiler_error + unit" where
  "check_fn_visibility cg name =
     (case split_once_colons name of
        None \<Rightarrow> Ok ()
      | Some (dep_name, fn_local_name) \<Rightarrow>
          and_then (ok_or (map_of (cg_dep_addresses cg) dep_name)
            (Message (''reference to undeclared module '' @ quoted dep_name))) (\<lambda>dep_addr.
          and_then (ok_or (map_of (cg_dep_modules cg) dep_addr)
            (Message (''dependency module '' @ quoted dep_name @ '' not found''))) (\<lambda>dep_module.
          and_then (ok_or (get_function dep_module fn_local_name)
            (Message (''function '' @ quoted fn_local_name @ '' not found in module '' @ quoted dep_name))) (\<lambda>func.
          fail_if (\<not> fn_is_public func)
            (Message (''function '' @ quoted name @ '' is private '' @ em_dash @
             '' only `pub fn` can be called from other modules''))))))"

definition check_field_read :: "vtype \<Rightarrow> compiler_error + unit" where
  "check_field_read ty =
     fail_if (is_cross_module ty)
       (Message (''fields of '' @ quoted (vtype_name ty) @ '' are private '' @ em_dash @
        '' use a public getter function to access them''))"

definition check_field_write :: "vtype \<Rightarrow> string \<Rightarrow> compiler_error + unit" where
  "check_field_write ty field =
     fail_if (is_cross_module ty)
       (Message (''field '' @ quoted field @ '' of '' @ quoted (vtype_name ty) @
        '' cannot be written from outside the declaring module''))"

definition check_getfield_on_struct :: "codegen \<Rightarrow> vtype \<Rightarrow> string \<Rightarrow> compiler_error + unit" where
  "check_getfield_on_struct cg struct_ty field =
     (case find_struct cg (vtype_name struct_ty) of
        None \<Rightarrow> Ok ()
      | Some def \<Rightarrow>
          and_then
            (case find_field field (sd_fields def) of
               Some field_def \<Rightarrow>
                 fail_if (is_struct_type (fd_ty field_def))
                   (Message (''field '' @ quoted field @ '' has struct type and cannot be accessed directly '' @ em_dash @
                    '' structs have move semantics; use destructuring `let '' @ vtype_name struct_ty @ '' { '' @
                    field @ '', .. } = expr;`''))
             | None \<Rightarrow> Ok ()) (\<lambda>_.
          case find (\<lambda>f. fd_name f \<noteq> field \<and> is_struct_type (fd_ty f)) (sd_fields def) of
            Some linear \<Rightarrow>
              Err (Message (''cannot access field '' @ quoted field @ '' on '' @ quoted (vtype_name struct_ty) @ '' '' @ em_dash @
                '' struct-typed field '' @ quoted (fd_name linear) @ '' would be silently dropped; use destructuring `let '' @
                vtype_name struct_ty @ '' { '' @ field @ '', .. } = expr;`''))
          | None \<Rightarrow> Ok ()))"

text \<open>\<open>min_by_key\<close> on the slot.\<close>

fun min_slot :: "(string \<times> u8) list \<Rightarrow> (string \<times> u8) option" where
  "min_slot [] = None"
| "min_slot ((name, slot) # rest) =
     (case min_slot rest of
        Some (name', slot') \<Rightarrow> if slot' < slot then Some (name', slot') else Some (name, slot)
      | None \<Rightarrow> Some (name, slot))"

definition check_all_structs_consumed :: "codegen \<Rightarrow> string \<Rightarrow> compiler_error + unit" where
  "check_all_structs_consumed cg fname =
     (case min_slot (filter (\<lambda>(_, slot). holds_struct cg slot) (map (\<lambda>(name, slot, _). (name, slot)) (cg_locals cg))) of
        Some (name, slot) \<Rightarrow>
          Err (Message (''in function '' @ quoted fname @ '': '' @ quoted name @ '' of type '' @
            quoted (case map_of (cg_local_types cg) slot of Some ty \<Rightarrow> vtype_name ty | None \<Rightarrow> []) @
            '' must be consumed before the function returns''))
      | None \<Rightarrow> Ok ())"

definition check_branch_structs_consumed ::
    "codegen \<Rightarrow> (string \<times> u8 \<times> u32) list \<Rightarrow> string \<Rightarrow> compiler_error + unit" where
  "check_branch_structs_consumed cg outer_locals branch =
     (case min_slot (filter (\<lambda>(name, slot). map_option fst (map_of outer_locals name) \<noteq> Some slot \<and> holds_struct cg slot)
        (map (\<lambda>(name, slot, _). (name, slot)) (cg_locals cg))) of
        Some (name, _) \<Rightarrow>
          Err (Message (''struct '' @ quoted name @ '' introduced in '' @ branch @
            '' body must be consumed before the branch ends''))
      | None \<Rightarrow> Ok ())"

section \<open>Expressions\<close>

fun flatten_loop :: "expr \<Rightarrow> string list \<Rightarrow> expr \<times> string list" where
  "flatten_loop (EFieldAccess inner f) path = flatten_loop inner (path @ [f])"
| "flatten_loop other path = (other, path)"

definition flatten_field_chain :: "expr \<Rightarrow> string \<Rightarrow> expr \<times> string list" where
  "flatten_field_chain e field = flatten_loop e [field]"

lemma size_flatten_loop: "size (fst (flatten_loop e path)) \<le> size e"
  by (induction e path rule: flatten_loop.induct) auto

fun binop_instr :: "binop \<Rightarrow> instruction" where
  "binop_instr BAdd = Add"
| "binop_instr BSub = Sub"
| "binop_instr BMul = Mul"
| "binop_instr BDiv = Div"
| "binop_instr BMod = Mod"
| "binop_instr BEq = Eq"
| "binop_instr BNe = Ne"
| "binop_instr BLt = Lt"
| "binop_instr BLe = Le"
| "binop_instr BGt = Gt"
| "binop_instr BGe = Ge"
| "binop_instr BAnd = And"
| "binop_instr BOr = Or"

definition compile_ident :: "string \<Rightarrow> codegen \<Rightarrow> compiler_error + codegen" where
  "compile_ident name cg =
     and_then (local_slot cg name) (\<lambda>slot.
       if slot \<in> cg_moved cg
       then Err (Message (''use of '' @ quoted name @ '' after it was moved '' @ em_dash @
              '' structs have move semantics; rebind it before using it again''))
       else if holds_struct cg slot
       then Ok (emit (Load slot)
              (cg\<lparr>cg_local_types := AList.delete slot (cg_local_types cg), cg_moved := insert slot (cg_moved cg)\<rparr>))
       else Ok (emit (Load slot) cg))"

text \<open>The slot of the root of a field chain, when it is a local variable.\<close>

definition root_slot :: "codegen \<Rightarrow> expr \<Rightarrow> u8 option" where
  "root_slot cg root = (case root of EIdent name \<Rightarrow> map_option fst (map_of (cg_locals cg) name) | _ \<Rightarrow> None)"

definition compile_load_field :: "u8 \<Rightarrow> string list \<Rightarrow> codegen \<Rightarrow> compiler_error + codegen" where
  "compile_load_field slot path cg =
     and_then
       (case map_of (cg_local_types cg) slot of
          Some ty \<Rightarrow>
            and_then (check_field_read ty) (\<lambda>_.
            fail_if (case field_path_type cg ty path of Some final_ty \<Rightarrow> is_struct_type final_ty | None \<Rightarrow> False)
              (Message (''field '' @ quoted (last path) @ '' has struct type and cannot be accessed directly '' @ em_dash @
               '' structs have move semantics; use destructuring `let TypeName { '' @ last path @ '', .. } = expr;`'')))
        | None \<Rightarrow> Ok ())
       (\<lambda>_. Ok (emit (LoadField slot path) cg))"

lemma size_filter_list: "size_list f (filter P xs) \<le> size_list f xs"
  by (induction xs) auto

function compile_expr :: "hex_codec \<Rightarrow> expr \<Rightarrow> codegen \<Rightarrow> compiler_error + codegen"
and compile_exprs :: "hex_codec \<Rightarrow> expr list \<Rightarrow> codegen \<Rightarrow> compiler_error + codegen"
and compile_lit_fields ::
    "hex_codec \<Rightarrow> string \<Rightarrow> (string \<times> expr) list \<Rightarrow> string list \<Rightarrow> codegen \<Rightarrow> compiler_error + codegen"
where
  "compile_expr hx (EBool v) cg = Ok (emit (PushBool v) cg)"
| "compile_expr hx (EInt v) cg = Ok (emit (PushU64 v) cg)"
| "compile_expr hx (EAddress addr) cg = Ok (emit (PushAddress addr) cg)"
| "compile_expr hx (EStr s) cg = Ok (emit (PushStr s) cg)"
| "compile_expr hx (EIdent name) cg = compile_ident name cg"
| "compile_expr hx (EBinOp left op right) cg =
     and_then (compile_expr hx left cg) (\<lambda>cg.
     and_then (compile_expr hx right cg) (\<lambda>cg. Ok (emit (binop_instr op) cg)))"
| "compile_expr hx (EFieldAccess e field) cg =
     (let root = fst (flatten_field_chain e field); path = rev (snd (flatten_field_chain e field)) in
      case root_slot cg root of
        Some slot \<Rightarrow> compile_load_field slot path cg
      | None \<Rightarrow>
          and_then (case infer_type cg root of
              Some ty \<Rightarrow> and_then (check_field_read ty) (\<lambda>_. check_getfield_on_struct cg ty (hd path))
            | None \<Rightarrow> Ok ()) (\<lambda>_.
          and_then (compile_expr hx root cg) (\<lambda>cg. Ok (foldl (\<lambda>cg step. emit (GetField step) cg) cg path))))"
| "compile_expr hx (EStructLit name lits) cg =
     (if is_qualified name
      then Err (Message (''cannot construct '' @ quoted name @ '' outside its declaring module '' @ em_dash @
             '' structs can only be created where they are defined''))
      else
        and_then (ok_or (find_struct cg name) (Message (''unknown struct '' @ quoted name))) (\<lambda>def.
        let field_names = map fd_name (sd_fields def) in
        and_then (compile_lit_fields hx name (rev lits) field_names cg) (\<lambda>cg.
        and_then (cg_translate_name hx cg name) (\<lambda>type_name. Ok (emit (NewStruct type_name field_names) cg)))))"
| "compile_expr hx (EUnaryOp op e) cg = and_then (compile_expr hx e cg) (\<lambda>cg. Ok (emit NotB cg))"
| "compile_expr hx (ETuple items) cg =
     (let n = length items; max = unat (max_tuple_elements (cg_config cg)) in
      if n > max
      then Err (Message (''tuple literal has '' @ show_nat n @ '' elements, exceeding the limit of '' @ show_nat max))
      else and_then (compile_exprs hx items cg) (\<lambda>cg. Ok (emit (MakeTuple (word_of_nat n)) cg)))"
| "compile_expr hx (ECall name args) cg =
     and_then (check_fn_visibility cg name) (\<lambda>_.
     and_then (compile_exprs hx args cg) (\<lambda>cg.
     and_then (cg_translate_name hx cg name) (\<lambda>translated. Ok (emit (Call translated) cg))))"
| "compile_exprs hx [] cg = Ok cg"
| "compile_exprs hx (e # es) cg = and_then (compile_expr hx e cg) (\<lambda>cg. compile_exprs hx es cg)"
| "compile_lit_fields hx name literal_map [] cg = Ok cg"
| "compile_lit_fields hx name literal_map (field_name # field_names) cg =
     (case map_of literal_map field_name of
        None \<Rightarrow> Err (Message (''missing field '' @ quoted field_name @ '' in struct literal '' @ quoted name))
      | Some e \<Rightarrow>
          and_then (compile_expr hx e cg) (\<lambda>cg.
            compile_lit_fields hx name (filter (\<lambda>(k, _). k \<noteq> field_name) literal_map) field_names cg))"
  by pat_completeness auto

termination
proof (relation "measures [
      case_sum (\<lambda>(_, e, _). size e)
        (case_sum (\<lambda>(_, es, _). size_list size es)
                  (\<lambda>(_, _, lits, _). size_list (size_prod (\<lambda>_. 0) size) lits)),
      case_sum (\<lambda>_. 0) (case_sum (\<lambda>_. 0) (\<lambda>(_, _, _, names, _). length names))]", goal_cases)
  case (4 hx e field cg root path)
  then show ?case using size_flatten_loop [of e "[field]"] by (simp add: flatten_field_chain_def)
next
  case (11 hx name literal_map field_name field_names cg e)
  then show ?case by (simp add: size_map_of)
next
  case (12 hx name literal_map field_name field_names cg e cg')
  then show ?case
    using size_filter_list [of "size_prod (\<lambda>_. 0) size" "\<lambda>(k, _). k \<noteq> field_name" literal_map] by auto
qed simp_all

section \<open>Statements\<close>

definition patch :: "nat \<Rightarrow> instruction \<Rightarrow> codegen \<Rightarrow> codegen" where
  "patch pos instr cg = cg\<lparr>cg_code := (cg_code cg)[pos := instr]\<rparr>"

text \<open>\<open>(self.code.len() - pos) as i32\<close>.\<close>

definition offset_to_end :: "codegen \<Rightarrow> nat \<Rightarrow> i32" where
  "offset_to_end cg pos = word_of_nat (length (cg_code cg) - pos)"

definition ends_in_return :: "stmt list \<Rightarrow> bool" where
  "ends_in_return body = (body \<noteq> [] \<and> (case last body of SReturn _ \<Rightarrow> True | _ \<Rightarrow> False))"

text \<open>The join after a branch: \<open>cg\<close> holds the outcome of the else path.\<close>

definition merge_branches ::
    "bool \<Rightarrow> bool \<Rightarrow> (u8 \<times> vtype) list \<Rightarrow> u8 set \<Rightarrow> codegen \<Rightarrow> codegen" where
  "merge_branches then_terminates else_terminates then_types then_moved cg =
     (if then_terminates then cg
      else if else_terminates then cg\<lparr>cg_local_types := then_types, cg_moved := then_moved\<rparr>
      else cg\<lparr>cg_local_types := filter (\<lambda>(slot, ty). map_of then_types slot = Some ty) (cg_local_types cg),
              cg_moved := cg_moved cg \<union> then_moved\<rparr>)"

fun bind_tuple_names :: "string list \<Rightarrow> vtype list option \<Rightarrow> codegen \<Rightarrow> compiler_error + codegen" where
  "bind_tuple_names [] elem_types cg = Ok cg"
| "bind_tuple_names (name # names) elem_types cg =
     and_then (alloc_local name cg) (\<lambda>(slot, cg).
       bind_tuple_names names (map_option tl elem_types)
         (emit (Store slot) (case elem_types of Some types \<Rightarrow> set_type slot (hd types) cg | None \<Rightarrow> cg)))"

fun bind_struct_fields ::
    "string \<Rightarrow> struct_def \<Rightarrow> (string \<times> string) list \<Rightarrow> string list \<Rightarrow> codegen \<Rightarrow> compiler_error + codegen" where
  "bind_struct_fields type_name def binding_map [] cg = Ok cg"
| "bind_struct_fields type_name def binding_map (field_name # field_names) cg =
     (case find_field field_name (sd_fields def) of
        None \<Rightarrow> Err (CompilerPanic ''called `Option::unwrap()` on a `None` value'')
      | Some field_def \<Rightarrow>
          (case map_of binding_map field_name of
             Some binding_name \<Rightarrow>
               and_then (alloc_local binding_name cg) (\<lambda>(slot, cg).
                 bind_struct_fields type_name def binding_map field_names
                   (emit (Store slot) (set_type slot (fd_ty field_def) cg)))
           | None \<Rightarrow>
               if is_struct_type (fd_ty field_def)
               then Err (Message (''struct destructuring of '' @ quoted type_name @ '': cannot discard linear field '' @
                      quoted field_name @ '' with `..`; bind it explicitly''))
               else bind_struct_fields type_name def binding_map field_names (emit Pop cg)))"

definition compile_let_tuple :: "hex_codec \<Rightarrow> string list \<Rightarrow> expr \<Rightarrow> codegen \<Rightarrow> compiler_error + codegen" where
  "compile_let_tuple hx names e cg =
     (let n = length names; max = unat (max_tuple_elements (cg_config cg)) in
      if n > max
      then Err (Message (''tuple destructuring has '' @ show_nat n @ '' elements, exceeding the limit of '' @ show_nat max))
      else
        let elem_types = (case infer_type cg e of
              Some (TTuple types) \<Rightarrow> if length types = n then Some types else None
            | _ \<Rightarrow> None) in
        and_then (compile_expr hx e cg) (\<lambda>cg.
          bind_tuple_names names elem_types (emit (UnpackTuple (word_of_nat n)) cg)))"

definition compile_let_struct ::
    "hex_codec \<Rightarrow> string \<Rightarrow> (string \<times> string) list \<Rightarrow> expr \<Rightarrow> bool \<Rightarrow> codegen \<Rightarrow> compiler_error + codegen" where
  "compile_let_struct hx type_name bindings e rest_discarded cg =
     and_then (ok_or (find_struct cg type_name) (Message (''unknown struct '' @ quoted type_name))) (\<lambda>def.
     let def_field_names = map fd_name (sd_fields def); binding_map = rev bindings in
     and_then (for_each (\<lambda>(field_name, _). fail_if (field_name \<notin> set def_field_names)
         (Message (''struct destructuring of '' @ quoted type_name @ '': unknown field '' @ quoted field_name))) bindings) (\<lambda>_.
     and_then (if rest_discarded then Ok () else for_each (\<lambda>field_name. fail_if (map_of binding_map field_name = None)
         (Message (''struct destructuring of '' @ quoted type_name @ '': missing binding for field '' @ quoted field_name @
          '' (use `..` to discard remaining fields)''))) def_field_names) (\<lambda>_.
     and_then (compile_expr hx e cg) (\<lambda>cg.
     and_then (cg_translate_name hx cg type_name) (\<lambda>translated_type.
       bind_struct_fields type_name def binding_map def_field_names
         (emit (UnpackStruct translated_type def_field_names) cg))))))"

definition compile_field_assign ::
    "hex_codec \<Rightarrow> string \<Rightarrow> string list \<Rightarrow> expr \<Rightarrow> codegen \<Rightarrow> compiler_error + codegen" where
  "compile_field_assign hx obj_name field_path e cg =
     and_then (local_slot cg obj_name) (\<lambda>slot.
     and_then (fail_if (field_path = []) (CompilerPanic ''index out of bounds: the len is 0 but the index is 0'')) (\<lambda>_.
     and_then
       (case map_of (cg_local_types cg) slot of
          Some obj_ty \<Rightarrow>
            and_then (check_field_write obj_ty (hd field_path)) (\<lambda>_.
            fail_if (case field_path_type cg obj_ty field_path of
                Some final_ty \<Rightarrow> is_struct_type final_ty | None \<Rightarrow> False)
              (Message (''cannot assign to struct-typed field '' @ quoted (last field_path) @ '' '' @ em_dash @
               '' structs have move semantics'')))
        | None \<Rightarrow> Ok ()) (\<lambda>_.
     and_then (compile_expr hx e cg) (\<lambda>cg. Ok (emit (StoreField slot field_path) cg)))))"

definition compile_reassign :: "hex_codec \<Rightarrow> string \<Rightarrow> expr \<Rightarrow> codegen \<Rightarrow> compiler_error + codegen" where
  "compile_reassign hx name e cg =
     and_then (local_slot cg name) (\<lambda>slot.
     and_then (fail_if (holds_struct cg slot)
       (Message (''cannot reassign '' @ quoted name @ '': it still holds a struct value '' @ em_dash @
        '' consume or destructure it first''))) (\<lambda>_.
     let inferred_type = infer_type cg e in
     and_then (compile_expr hx e cg) (\<lambda>cg.
     let cg = emit (Store slot) cg; cg = cg\<lparr>cg_moved := cg_moved cg - {slot}\<rparr> in
     Ok (case inferred_type of
           Some ty \<Rightarrow> set_type slot ty cg
         | None \<Rightarrow> cg\<lparr>cg_local_types := AList.delete slot (cg_local_types cg)\<rparr>))))"

text \<open>Entering and leaving the scope of a branch.\<close>

definition open_scope :: "codegen \<Rightarrow> codegen" where
  "open_scope cg = cg\<lparr>cg_scope_depth := cg_scope_depth cg + 1\<rparr>"

definition close_scope ::
    "(string \<times> u8 \<times> u32) list \<Rightarrow> string \<Rightarrow> codegen \<Rightarrow> compiler_error + codegen" where
  "close_scope outer_locals branch cg =
     (let cg = cg\<lparr>cg_scope_depth := cg_scope_depth cg - 1\<rparr> in
      and_then (check_branch_structs_consumed cg outer_locals branch) (\<lambda>_. Ok (cg\<lparr>cg_locals := outer_locals\<rparr>)))"

fun compile_stmt :: "hex_codec \<Rightarrow> stmt \<Rightarrow> codegen \<Rightarrow> compiler_error + codegen"
and compile_stmts :: "hex_codec \<Rightarrow> stmt list \<Rightarrow> codegen \<Rightarrow> compiler_error + codegen" where
  "compile_stmt hx (SLet name e) cg =
     (let inferred_type = infer_type cg e in
      and_then (compile_expr hx e cg) (\<lambda>cg.
      and_then (alloc_local name cg) (\<lambda>(slot, cg).
        let cg = emit (Store slot) cg in
        Ok (case inferred_type of Some ty \<Rightarrow> set_type slot ty cg | None \<Rightarrow> cg))))"
| "compile_stmt hx (SReassign name e) cg = compile_reassign hx name e cg"
| "compile_stmt hx (SReturn opt_expr) cg =
     and_then (case opt_expr of Some e \<Rightarrow> compile_expr hx e cg | None \<Rightarrow> Ok cg) (\<lambda>cg. Ok (emit Return cg))"
| "compile_stmt hx (SExpr e) cg =
     and_then (case infer_type cg e of
         Some ty \<Rightarrow> fail_if (\<not> is_primitive ty)
           (Message (''expression of type '' @ quoted (vtype_name ty) @ '' cannot be discarded as a statement '' @ em_dash @
            '' structs have move semantics; bind or consume the value''))
       | None \<Rightarrow> Ok ()) (\<lambda>_.
     and_then (compile_expr hx e cg) (\<lambda>cg. Ok (emit Pop cg)))"
| "compile_stmt hx (SIf cond body else_body) cg =
     and_then (compile_expr hx cond cg) (\<lambda>cg.
     let patch_cond = length (cg_code cg);
         cg = emit (JumpIfNot 0) cg;
         pre_types = cg_local_types cg;
         pre_moved = cg_moved cg;
         outer_locals = cg_locals cg in
     and_then (compile_stmts hx body (open_scope cg)) (\<lambda>cg.
     and_then (close_scope outer_locals ''if'' cg) (\<lambda>cg.
     let then_types = cg_local_types cg;
         then_moved = cg_moved cg;
         cg = cg\<lparr>cg_local_types := pre_types, cg_moved := pre_moved\<rparr> in
     case else_body of
       Some else_stmts \<Rightarrow>
         let patch_jump = length (cg_code cg);
             cg = emit (Jump 0) cg;
             cg = patch patch_cond (JumpIfNot (offset_to_end cg patch_cond)) cg in
         and_then (compile_stmts hx else_stmts (open_scope cg)) (\<lambda>cg.
         and_then (close_scope outer_locals ''else'' cg) (\<lambda>cg.
         Ok (merge_branches (ends_in_return body) (ends_in_return else_stmts) then_types then_moved
              (patch patch_jump (Jump (offset_to_end cg patch_jump)) cg))))
     | None \<Rightarrow>
         Ok (merge_branches (ends_in_return body) False then_types then_moved
              (patch patch_cond (JumpIfNot (offset_to_end cg patch_cond)) cg)))))"
| "compile_stmt hx (SLetTuple names e) cg = compile_let_tuple hx names e cg"
| "compile_stmt hx (SLetStruct type_name bindings e rest_discarded) cg =
     compile_let_struct hx type_name bindings e rest_discarded cg"
| "compile_stmt hx (SFieldAssign obj_name field_path e) cg = compile_field_assign hx obj_name field_path e cg"
| "compile_stmts hx [] cg = Ok cg"
| "compile_stmts hx (s # ss) cg = and_then (compile_stmt hx s cg) (\<lambda>cg. compile_stmts hx ss cg)"

section \<open>Functions\<close>

fun alloc_params ::
    "hex_codec \<Rightarrow> string \<Rightarrow> (string \<times> vtype) list \<Rightarrow> codegen \<Rightarrow> compiler_error + ((string \<times> vtype) list \<times> codegen)" where
  "alloc_params hx fname [] cg = Ok ([], cg)"
| "alloc_params hx fname ((name, ty) # params) cg =
     and_then (validate_identifier name (''parameter in function '' @ quoted fname) (cg_config cg)) (\<lambda>_.
     and_then (alloc_local name cg) (\<lambda>(slot, cg).
     and_then (cg_translate_type hx cg ty) (\<lambda>ty.
     and_then (alloc_params hx fname params (set_type slot ty cg)) (\<lambda>(params, cg). Ok ((name, ty) # params, cg)))))"

text \<open>Ensure the function ends with \<open>Return\<close>.\<close>

definition end_with_return :: "codegen \<Rightarrow> codegen" where
  "end_with_return cg = (if cg_code cg \<noteq> [] \<and> last (cg_code cg) = Return then cg else emit Return cg)"

definition compile_function ::
    "hex_codec \<Rightarrow> struct_def list \<Rightarrow> dep_addresses \<Rightarrow> module_map \<Rightarrow> (string \<times> vtype option) list
       \<Rightarrow> ast_function \<Rightarrow> compiler_config \<Rightarrow> compiler_error + fn" where
  "compile_function hx structs dep_addresses dep_modules local_fn_return_types ast_fn config =
     and_then (validate_function_name (af_name ast_fn) config) (\<lambda>_.
     and_then (fail_if (length (af_params ast_fn) > unat (max_params config))
       (Message (''function '' @ quoted (af_name ast_fn) @ '': too many parameters ('' @ show_nat (length (af_params ast_fn)) @
        '' > limit of '' @ show_nat (unat (max_params config)) @ '')''))) (\<lambda>_.
     and_then (alloc_params hx (af_name ast_fn) (af_params ast_fn)
       (codegen_new structs dep_addresses dep_modules local_fn_return_types config)) (\<lambda>(params, cg).
     and_then (case af_return_type ast_fn of
         Some rt \<Rightarrow> and_then (cg_translate_type hx cg rt) (\<lambda>t. Ok (Some t))
       | None \<Rightarrow> Ok None) (\<lambda>return_type.
     and_then (compile_stmts hx (af_body ast_fn) cg) (\<lambda>cg.
     and_then (check_all_structs_consumed cg (af_name ast_fn)) (\<lambda>_.
     let cg = end_with_return cg in
     and_then (fail_if (length (cg_code cg) > max_fun_code_size config)
       (Message (''function '' @ quoted (af_name ast_fn) @ '': bytecode too large ('' @ show_nat (length (cg_code cg)) @
        '' instructions > limit of '' @ show_nat (max_fun_code_size config) @ '')''))) (\<lambda>_.
     Ok \<lparr>fn_name = af_name ast_fn, fn_is_public = af_is_public ast_fn, fn_params = params,
         fn_return_type = return_type, fn_local_count = cg_next_slot cg, fn_code = cg_code cg\<rparr>)))))))"

end
