(* ===== verification/Compiler.thy ===== *)
theory Compiler
  imports Compiler_Codegen "HOL-Library.Multiset" "HOL-Library.Code_Target_Nat"
begin

text \<open>
  \<open>Compiler::compile\<close> (\<open>meow-vm-compiler/src/lib.rs\<close>).  The map from the local names of the dependencies to
  their addresses and the map from addresses to modules are hash maps whose order of iteration the standard
  library leaves open; \<open>iter\<close> and \<open>miter\<close> are those orders, permutations of the entries.
\<close>

section \<open>Compilation\<close>

fun check_dep_addresses :: "hex_codec \<Rightarrow> address set \<Rightarrow> (address \<times> module) list \<Rightarrow> compiler_error + unit" where
  "check_dep_addresses hx seen [] = Ok ()"
| "check_dep_addresses hx seen ((addr, _) # deps) =
     (if addr \<in> seen then Err (Message (''duplicate dep address: '' @ address_display hx addr))
      else check_dep_addresses hx (insert addr seen) deps)"

fun resolve_uses ::
    "hex_codec \<Rightarrow> compiler_config \<Rightarrow> (address \<times> module) list \<Rightarrow> use_decl list
       \<Rightarrow> compiler_error + (dep_addresses \<times> address list)" where
  "resolve_uses hx config deps [] = Ok ([], [])"
| "resolve_uses hx config deps ((dep_name, alias, dep_addr) # uses) =
     (if find (\<lambda>(addr, m). addr = dep_addr \<and> md_name m = dep_name) deps = None
      then Err (Message (''unknown dependency '' @ quoted (dep_name @ ''@'' @ address_display hx dep_addr) @
             '': no provided dep module matches that name and address''))
      else
        and_then (validate_identifier (local_name dep_name alias) ''use alias'' config) (\<lambda>_.
        and_then (resolve_uses hx config deps uses) (\<lambda>(addrs, imps).
          Ok ((local_name dep_name alias, dep_addr) # addrs, dep_addr # imps))))"

definition dep_structs_of :: "dep_addresses \<Rightarrow> (address \<times> module) list \<Rightarrow> struct_def list" where
  "dep_structs_of dep_addresses deps =
     concat (map (\<lambda>(addr, dep).
       case find (\<lambda>(_, a). a = addr) dep_addresses of
         None \<Rightarrow> []
       | Some (dep_name, _) \<Rightarrow>
           map (\<lambda>s. \<lparr>sd_name = dep_name @ ''::'' @ sd_name s, sd_fields = sd_fields s, sd_is_public = True\<rparr>)
             (filter sd_is_public (md_structs dep))) deps)"

fun compile_functions ::
    "(ast_function \<Rightarrow> compiler_error + fn) \<Rightarrow> ast_function list \<Rightarrow> compiler_error + fn list" where
  "compile_functions f [] = Ok []"
| "compile_functions f (ast_fn # fns) =
     and_then (f ast_fn) (\<lambda>func. and_then (compile_functions f fns) (\<lambda>funcs. Ok (func # funcs)))"

definition limit_msg :: "string \<Rightarrow> nat \<Rightarrow> nat \<Rightarrow> compiler_error" where
  "limit_msg what n lim = Message (''too many '' @ what @ '': '' @ show_nat n @ '' > limit of '' @ show_nat lim)"

text \<open>The limits on the module, in the order of the code.\<close>

definition check_limits ::
    "compiler_config \<Rightarrow> ast_item list \<Rightarrow> use_decl list \<Rightarrow> (address \<times> module) list \<Rightarrow> compiler_error + unit" where
  "check_limits config items uses deps =
     and_then (fail_if (length (items_structs items) > max_structs config)
       (limit_msg ''struct definitions'' (length (items_structs items)) (max_structs config))) (\<lambda>_.
     and_then (fail_if (length (items_fns items) > max_functions config)
       (limit_msg ''functions'' (length (items_fns items)) (max_functions config))) (\<lambda>_.
     and_then (fail_if (length uses > max_imports config)
       (limit_msg ''use declarations'' (length uses) (max_imports config))) (\<lambda>_.
     fail_if (length deps > cc_max_dep_modules config)
       (limit_msg ''dependency modules'' (length deps) (cc_max_dep_modules config)))))"

definition struct_defs_of :: "ast_item list \<Rightarrow> struct_def list" where
  "struct_defs_of items =
     map (\<lambda>s. \<lparr>sd_name = ast_name s, sd_fields = ast_fields_to_field_defs (ast_fields s),
               sd_is_public = ast_is_public s\<rparr>) (items_structs items)"

definition fn_return_types_of :: "ast_item list \<Rightarrow> (string \<times> vtype option) list" where
  "fn_return_types_of items = rev (map (\<lambda>f. (af_name f, af_return_type f)) (items_fns items))"

definition fn_param_types_of :: "ast_item list \<Rightarrow> (string \<times> vtype list) list" where
  "fn_param_types_of items = rev (map (\<lambda>f. (af_name f, map snd (af_params f))) (items_fns items))"

text \<open>The part of \<open>compile\<close> after the dependencies are settled.\<close>

definition compile_items ::
    "hex_codec \<Rightarrow> (dep_addresses \<Rightarrow> dep_addresses) \<Rightarrow> (module_map \<Rightarrow> module_map) \<Rightarrow> (address \<times> module) list \<Rightarrow> native_sig list \<Rightarrow> compiler_config
       \<Rightarrow> ast_item list \<Rightarrow> string \<Rightarrow> dep_addresses \<Rightarrow> address list \<Rightarrow> compiler_error + module" where
  "compile_items hx iter miter deps native_sigs config items module_name dep_addrs imps =
     and_then (for_each (\<lambda>s. validate_struct_def s config) (items_structs items)) (\<lambda>_.
     let source_structs = struct_defs_of items;
         dep_structs = dep_structs_of (iter dep_addrs) deps in
     and_then (validate_struct_refs source_structs dep_structs) (\<lambda>_.
     and_then (validate_function_type_refs (items_fns items) source_structs dep_structs) (\<lambda>_.
     let structs = translate_struct_field_types hx dep_addrs source_structs in
     and_then (type_check hx (items_structs items) (iter dep_addrs) (miter (dep_map deps))
       (meow_vm_abort_sig # native_sigs) (fn_param_types_of items) (fn_return_types_of items) (items_fns items)) (\<lambda>_.
     and_then (compile_functions (\<lambda>f. compile_function hx (structs @ dep_structs) dep_addrs (dep_map deps)
       (fn_return_types_of items) f config) (items_fns items)) (\<lambda>funcs.
     Ok \<lparr>md_name = module_name, md_imports = imps, md_structs = structs, md_functions = funcs\<rparr>)))))"

definition compile ::
    "hex_codec \<Rightarrow> source_parser \<Rightarrow> (dep_addresses \<Rightarrow> dep_addresses) \<Rightarrow> (module_map \<Rightarrow> module_map) \<Rightarrow> rust_char list
       \<Rightarrow> (address \<times> module) list \<Rightarrow> native_sig list \<Rightarrow> compiler_config \<Rightarrow> compiler_error + module" where
  "compile hx parse iter miter source deps native_sigs config =
     and_then (parse_and_extract parse source) (\<lambda>(items, module_name, uses).
     and_then (validate_identifier module_name ''module name'' config) (\<lambda>_.
     and_then (check_limits config items uses deps) (\<lambda>_.
     and_then (check_dep_addresses hx {} deps) (\<lambda>_.
     and_then (resolve_uses hx config deps uses) (\<lambda>(dep_addrs, imps).
     and_then (check_import_closure hx (dep_map deps) imps {}) (\<lambda>_.
     and_then (detect_module_dep_cycles hx deps) (\<lambda>_.
     compile_items hx iter miter deps native_sigs config items module_name dep_addrs imps)))))))"

section \<open>The order of iteration\<close>

text \<open>What \<open>compile\<close> takes from the order: the name of an address.\<close>

lemma map_of_mset_eq:
  "distinct (map fst xs) \<Longrightarrow> mset ys = mset xs \<Longrightarrow> map_of ys = map_of xs"
  by (metis distinct_map map_of_inject_set mset_eq_imp_distinct_iff mset_eq_setD mset_map)

definition swap_pairs :: "dep_addresses \<Rightarrow> (address \<times> string) list" where
  "swap_pairs xs = map (\<lambda>(name, addr). (addr, name)) xs"

lemma find_address: "find (\<lambda>(_, a). a = addr) xs = map_option (\<lambda>name. (name, addr)) (map_of (swap_pairs xs) addr)"
  by (induction xs) (auto simp: swap_pairs_def)

lemma addr_to_dep_of_swap: "addr_to_dep_of xs = map_of (rev (swap_pairs xs))"
  by (simp add: addr_to_dep_of_def swap_pairs_def)

lemma iteration_irrelevant:
  assumes "distinct (map snd xs)" "mset ys = mset xs"
  shows "map_of (swap_pairs ys) = map_of (swap_pairs xs)" "addr_to_dep_of ys = addr_to_dep_of xs"
proof -
  have d: "distinct (map fst (swap_pairs xs))"
    using assms(1) by (simp add: swap_pairs_def comp_def case_prod_beta')
  have m: "mset (swap_pairs ys) = mset (swap_pairs xs)"
    unfolding swap_pairs_def mset_map by (simp only: assms(2))
  show "map_of (swap_pairs ys) = map_of (swap_pairs xs)" by (rule map_of_mset_eq [OF d m])
  have "map_of (rev (swap_pairs ys)) = map_of (swap_pairs xs)" "map_of (rev (swap_pairs xs)) = map_of (swap_pairs xs)"
    by (rule map_of_mset_eq [OF d]; simp add: m)+
  then show "addr_to_dep_of ys = addr_to_dep_of xs" by (simp add: addr_to_dep_of_swap)
qed

lemma dep_structs_of_swap:
  "map_of (swap_pairs ys) = map_of (swap_pairs xs) \<Longrightarrow> dep_structs_of ys deps = dep_structs_of xs deps"
  by (simp add: dep_structs_of_def find_address)

lemma resolve_uses_addresses:
  "resolve_uses hx config deps uses = Inr (addrs, imps) \<Longrightarrow>
     addrs = map (\<lambda>(name, alias, addr). (local_name name alias, addr)) uses \<and> imps = map (snd \<circ> snd) uses"
  by (induction hx config deps uses arbitrary: addrs imps rule: resolve_uses.induct)
    (auto simp: and_then_Inr_iff split: if_splits)

lemma check_dep_addresses_distinct:
  "check_dep_addresses hx seen deps = Inr u \<Longrightarrow> distinct (map fst deps) \<and> fst ` set deps \<inter> seen = {}"
  by (induction hx seen deps rule: check_dep_addresses.induct) (auto split: if_splits)

lemma collect_uses_distinct:
  "collect_uses items uses = Inr uses' \<Longrightarrow> distinct (map (\<lambda>(n, a, _). local_name n a) uses) \<Longrightarrow>
     distinct (map (\<lambda>(n, a, _). local_name n a) uses')"
  by (induction items uses rule: collect_uses.induct) (fastforce simp: list_ex_iff split: if_splits)+

lemma parse_and_extract_distinct:
  "parse_and_extract parse source = Inr (items, name, uses) \<Longrightarrow> distinct (map (\<lambda>(n, a, _). local_name n a) uses)"
  using collect_uses_distinct [of items "[]" uses]
  by (auto simp: parse_and_extract_def and_then_Inr_iff split: sum.splits list.splits ast_item.splits if_splits)

lemma resolve_uses_identifiers:
  "resolve_uses hx cfg deps uses = Inr (addrs, imps) \<Longrightarrow> \<forall>p \<in> set addrs. is_valid_identifier (fst p) cfg"
  by (induction hx cfg deps uses arbitrary: addrs imps rule: resolve_uses.induct)
    (fastforce simp: and_then_Inr_iff validate_identifier_def split: if_splits)+

text \<open>What the type checker takes from the order of the modules: nothing, since entries of different modules have
  different names.\<close>

lemma map_of_concat_at:
  assumes "x \<in> set xs" "k \<in> fst ` set (f x)"
    and "\<And>y. y \<in> set xs \<Longrightarrow> k \<in> fst ` set (f y) \<Longrightarrow> f y = f x"
  shows "map_of (concat (map f xs)) k = map_of (f x) k"
  using assms
proof (induction xs)
  case (Cons y ys)
  show ?case
  proof (cases "k \<in> fst ` set (f y)")
    case True
    then obtain v where "map_of (f y) k = Some v" by (metis map_of_eq_None_iff not_None_eq)
    moreover from Cons.prems(3) [OF _ True] have "f y = f x" by simp
    ultimately show ?thesis by (simp add: map_add_def)
  next
    case False
    then have none: "map_of (f y) k = None" by (simp add: map_of_eq_None_iff)
    from False Cons.prems(1,2) have "x \<in> set ys" by auto
    then have "map_of (concat (map f ys)) k = map_of (f x) k"
      by (rule Cons.IH [OF _ Cons.prems(2)]) (rule Cons.prems(3); simp)
    with none show ?thesis by (simp add: map_add_def split: option.split)
  qed
qed simp

lemma map_of_concat_perm:
  assumes "set ys = set xs"
    and "\<And>x y k. x \<in> set xs \<Longrightarrow> y \<in> set xs \<Longrightarrow> k \<in> fst ` set (f x) \<Longrightarrow> k \<in> fst ` set (f y) \<Longrightarrow> f y = f x"
  shows "map_of (concat (map f ys)) = map_of (concat (map f xs))"
proof
  fix k
  show "map_of (concat (map f ys)) k = map_of (concat (map f xs)) k"
  proof (cases "\<exists>x \<in> set xs. k \<in> fst ` set (f x)")
    case True
    then obtain x where x: "x \<in> set xs" "k \<in> fst ` set (f x)" by blast
    have "map_of (concat (map f xs)) k = map_of (f x) k" "map_of (concat (map f ys)) k = map_of (f x) k"
      by (rule map_of_concat_at [where f = f, OF _ x(2)]; simp add: assms(1) x(1); erule (1) assms(2) [OF x(1) _ x(2)])+
    then show ?thesis by simp
  next
    case False
    then have "k \<notin> fst ` set (concat (map f xs))" "k \<notin> fst ` set (concat (map f ys))" using assms(1) by auto
    then show ?thesis by (metis map_of_eq_None_iff)
  qed
qed

lemma map_of_rev_concat_perm:
  assumes "set ys = set xs"
    and "\<And>x y k. x \<in> set xs \<Longrightarrow> y \<in> set xs \<Longrightarrow> k \<in> fst ` set (f x) \<Longrightarrow> k \<in> fst ` set (f y) \<Longrightarrow> f y = f x"
  shows "map_of (rev (zs @ concat (map f ys))) = map_of (rev (zs @ concat (map f xs)))"
proof -
  have "map_of (concat (map (\<lambda>x. rev (f x)) (rev ys))) = map_of (concat (map (\<lambda>x. rev (f x)) (rev xs)))"
  proof (rule map_of_concat_perm)
    fix x y k
    assume "x \<in> set (rev xs)" "y \<in> set (rev xs)" "k \<in> fst ` set (rev (f x))" "k \<in> fst ` set (rev (f y))"
    with assms(2) [of x y k] show "rev (f y) = rev (f x)" by simp
  qed (simp add: assms(1))
  then show ?thesis by (simp add: rev_concat rev_map comp_def)
qed

lemma same_dep_name:
  assumes "distinct (map fst addrs)" "\<forall>p \<in> set addrs. is_valid_identifier (fst p) config"
    and "addr_to_dep_of addrs a = Some d" "addr_to_dep_of addrs b = Some e" "d @ ''::'' @ n = e @ ''::'' @ k"
  shows "a = b"
proof -
  have in_addrs: "(d, a) \<in> set addrs" "(e, b) \<in> set addrs"
    using assms(3,4) by (auto simp: addr_to_dep_of_def dest!: map_of_SomeD)
  then have "is_valid_identifier d config" "is_valid_identifier e config" using assms(2) by force+
  then have "CHR '':'' \<notin> set d" "CHR '':'' \<notin> set e" by (simp_all add: valid_identifier_no_colon)
  then have "d = e" using assms(5) split_once_colons_append [of d n] split_once_colons_append [of e k] by simp
  with in_addrs have "(d, b) \<in> set addrs" by simp
  from map_of_is_SomeI [OF assms(1) in_addrs(1)] map_of_is_SomeI [OF assms(1) this] show ?thesis by simp
qed

lemma dep_source_names:
  "k \<in> fst ` set (dep_source_structs hx ad x) \<Longrightarrow> \<exists>d n. ad (fst x) = Some d \<and> k = d @ ''::'' @ n"
  "k \<in> fst ` set (dep_source_fns hx ad x) \<Longrightarrow> \<exists>d n. ad (fst x) = Some d \<and> k = d @ ''::'' @ n"
  by (cases x; cases "ad (fst x)"; force simp: dep_source_structs_def dep_source_fns_def)+

lemma checker_new_order:
  assumes addrs: "distinct (map fst addrs)" "\<forall>p \<in> set addrs. is_valid_identifier (fst p) config"
    and dm: "distinct (map fst dm)" "mset dm' = mset dm"
  shows "checker_new hx ss addrs dm' sigs ps rs = checker_new hx ss addrs dm sigs ps rs"
proof -
  let ?d = "addr_to_dep_of addrs"
  have set: "set dm' = set dm" by (rule mset_eq_setD [OF dm(2)])
  have same: "y = x" if "x \<in> set dm" "y \<in> set dm" "\<exists>d n. ?d (fst x) = Some d \<and> k = d @ ''::'' @ n"
      "\<exists>d n. ?d (fst y) = Some d \<and> k = d @ ''::'' @ n" for x y k
  proof -
    note names = that(3,4)
    obtain d n e m where "?d (fst x) = Some d" "?d (fst y) = Some e" "d @ ''::'' @ n = e @ ''::'' @ m"
      using names by auto
    then have "fst x = fst y" by (rule same_dep_name [OF addrs])
    then show ?thesis using dm(1) that(1,2) by (auto simp: distinct_map dest: inj_onD)
  qed
  have structs: "map_of (rev (zs @ concat (map (dep_source_structs hx ?d) dm'))) =
      map_of (rev (zs @ concat (map (dep_source_structs hx ?d) dm)))" for zs
  proof (rule map_of_rev_concat_perm [OF set])
    fix x y k
    assume xy: "x \<in> set dm" "y \<in> set dm"
    assume "k \<in> fst ` set (dep_source_structs hx ?d x)" "k \<in> fst ` set (dep_source_structs hx ?d y)"
    from same [OF xy dep_source_names(1) [OF this(1)] dep_source_names(1) [OF this(2)]] have "y = x" .
    then show "dep_source_structs hx ?d y = dep_source_structs hx ?d x" by simp
  qed
  have fns: "map_of (rev (zs @ concat (map (dep_source_fns hx ?d) dm'))) =
      map_of (rev (zs @ concat (map (dep_source_fns hx ?d) dm)))" for zs
  proof (rule map_of_rev_concat_perm [OF set])
    fix x y k
    assume xy: "x \<in> set dm" "y \<in> set dm"
    assume "k \<in> fst ` set (dep_source_fns hx ?d x)" "k \<in> fst ` set (dep_source_fns hx ?d y)"
    from same [OF xy dep_source_names(2) [OF this(1)] dep_source_names(2) [OF this(2)]] have "y = x" .
    then show "dep_source_fns hx ?d y = dep_source_fns hx ?d x" by simp
  qed
  show ?thesis by (simp only: checker_new_def Let_def structs fns)
qed

lemma checker_new_swap:
  "addr_to_dep_of ys = addr_to_dep_of xs \<Longrightarrow> checker_new hx ss ys dm sigs ps rs = checker_new hx ss xs dm sigs ps rs"
  by (simp add: checker_new_def)

lemma compile_items_order:
  assumes "distinct (map fst addrs)" "\<forall>p \<in> set addrs. is_valid_identifier (fst p) config" "distinct (map snd addrs)"
    and iter: "mset (iter addrs) = mset addrs" and deps: "distinct (map fst deps)" "mset (miter (dep_map deps)) = mset (dep_map deps)"
  shows "compile_items hx iter miter deps sigs config items name addrs imps =
         compile_items hx id id deps sigs config items name addrs imps"
proof -
  have "distinct (map fst (dep_map deps))" using deps(1) by (simp add: dep_map_def rev_map [symmetric])
  note dm = checker_new_order [OF assms(1,2) this deps(2)]
  note it = iteration_irrelevant [OF assms(3) iter]
  show ?thesis
    unfolding compile_items_def id_apply type_check_def
    by (simp only: dep_structs_of_swap [OF it(1)] checker_new_swap [OF it(2)] dm)
qed

text \<open>C34. Compilation does not depend on the orders in which the hash maps of the dependencies are iterated, as
  long as no address is imported under two names.\<close>

theorem compile_deterministic:
  assumes "\<And>xs. mset (iter xs) = mset xs" "\<And>xs. mset (miter xs) = mset xs"
    and "\<And>items name uses. parse_and_extract parse source = Inr (items, name, uses) \<Longrightarrow> distinct (map (snd \<circ> snd) uses)"
  shows "compile hx parse iter miter source deps sigs config = compile hx parse id id source deps sigs config"
proof -
  have "compile_items hx iter miter deps sigs config items name addrs imps =
      compile_items hx id id deps sigs config items name addrs imps"
    if parsed: "parse_and_extract parse source = Inr (items, name, uses)" and dup: "check_dep_addresses hx {} deps = Inr u"
      and res: "resolve_uses hx config deps uses = Inr (addrs, imps)" for items name uses addrs imps u
  proof (rule compile_items_order)
    show "mset (iter addrs) = mset addrs" "mset (miter (dep_map deps)) = mset (dep_map deps)" by (rule assms)+
    show "\<forall>p \<in> set addrs. is_valid_identifier (fst p) config" by (rule resolve_uses_identifiers [OF res])
    from resolve_uses_addresses [OF res] have "map snd addrs = map (snd \<circ> snd) uses"
      "map fst addrs = map (\<lambda>(n, a, _). local_name n a) uses"
      by (auto simp: comp_def case_prod_beta')
    with assms(3) [OF parsed] parse_and_extract_distinct [OF parsed]
    show "distinct (map snd addrs)" "distinct (map fst addrs)" by simp_all
    show "distinct (map fst deps)" using check_dep_addresses_distinct [OF dup] by simp
  qed
  then show ?thesis
    unfolding compile_def
    by (intro and_then_cong [OF refl]) (auto intro!: and_then_cong)
qed

section \<open>Sample sources\<close>

text \<open>A library with a public struct, and a module that imports it under two names.\<close>

definition lib_module :: module where
  "lib_module = \<lparr>md_name = ''lib'', md_imports = [],
     md_structs = [\<lparr>sd_name = ''T'', sd_fields = [\<lparr>fd_name = ''v'', fd_ty = TU64\<rparr>], sd_is_public = True\<rparr>],
     md_functions = []\<rparr>"

definition lib_addr :: address where
  "lib_addr = address_suffixed 1"

text \<open>\<open>fn pass(x: lib::T) -> lib::T { return x; }\<close>.\<close>

definition pass_fn :: ast_function where
  "pass_fn = \<lparr>af_is_public = True, af_name = ''pass'', af_params = [(''x'', TStruct ''lib::T'')],
     af_return_type = Some (TStruct ''lib::T''), af_body = [SReturn (Some (EIdent ''x''))]\<rparr>"

definition single_import :: "ast_item list" where
  "single_import = [ModuleDecl ''client'', Use ''lib'' lib_addr None, FnItem pass_fn]"

definition double_import :: "ast_item list" where
  "double_import = [ModuleDecl ''client'', Use ''lib'' lib_addr None, Use ''lib'' lib_addr (Some ''l''), FnItem pass_fn]"

definition sample_compile :: "ast_item list \<Rightarrow> (dep_addresses \<Rightarrow> dep_addresses) \<Rightarrow> compiler_error + module" where
  "sample_compile items iter =
     compile std_hex_codec (\<lambda>_. Ok items) iter rev [] [(lib_addr, lib_module)] [] compiler_config_default"

text \<open>A module that imports two libraries, under different names.\<close>

definition two_imports :: "ast_item list" where
  "two_imports = [ModuleDecl ''client'', Use ''lib'' lib_addr None, Use ''lib'' (address_suffixed 2) (Some ''other''), FnItem pass_fn]"

definition compile_two :: "(dep_addresses \<Rightarrow> dep_addresses) \<Rightarrow> (module_map \<Rightarrow> module_map) \<Rightarrow> compiler_error + module" where
  "compile_two iter miter =
     compile std_hex_codec (\<lambda>_. Ok two_imports) iter miter [] [(lib_addr, lib_module), (address_suffixed 2, lib_module)] []
       compiler_config_default"

theorem compile_deterministic_witness:
  "compile_two rev rev = compile_two id id \<and> \<not> isl (compile_two rev rev)"
proof -
  have "lib_addr \<noteq> address_suffixed 2" by code_simp
  then have "compile_two rev rev = compile_two id id"
    unfolding compile_two_def
    by (intro compile_deterministic) (auto simp: parse_and_extract_def two_imports_def is_module_decl_def local_name_def)
  moreover have "\<not> isl (compile_two id id)" by code_simp
  ultimately show ?thesis by simp
qed

text \<open>With one library imported under two names the orders differ.\<close>

lemma double_import_unstable: "isl (sample_compile double_import rev) \<and> \<not> isl (sample_compile double_import id)"
  by code_simp

end
