(* ===== verification/Compiler_Wf.thy ===== *)
theory Compiler_Wf
  imports Compiler
begin

text \<open>
  What the code generator emits: \<open>extends\<close> says that generation only appends, that the appended segment
  has its jumps inside itself, and that every other instruction passes the structural checks of the
  bytecode verifier against the module under construction.  It is transitive, so each statement is a chain of
  small extensions.
\<close>

section \<open>Segments\<close>

definition jump_offset :: "instruction \<Rightarrow> i32 option" where
  "jump_offset i = (case i of Jump off \<Rightarrow> Some off | JumpIf off \<Rightarrow> Some off | JumpIfNot off \<Rightarrow> Some off | _ \<Rightarrow> None)"

text \<open>Offsets are kept in 32 bits: the statement is about segments short enough for them.\<close>

definition jumps_inside :: "instruction list \<Rightarrow> bool" where
  "jumps_inside seg \<longleftrightarrow> (length seg < 2 ^ 31 \<longrightarrow>
     (\<forall>i < length seg. \<forall>off. jump_offset (seg ! i) = Some off \<longrightarrow> 0 < sint off \<and> int i + sint off \<le> int (length seg)))"

definition instr_ok ::
    "hex_codec \<Rightarrow> module \<Rightarrow> module_map \<Rightarrow> compiler_config \<Rightarrow> u8 \<Rightarrow> instruction \<Rightarrow> bool" where
  "instr_ok hx m deps cfg n i \<longleftrightarrow>
     (jump_offset i \<noteq> None \<or> (\<forall>f pc. n \<le> fn_local_count f \<longrightarrow> check_instr hx m deps cfg f pc i = []))"

lemma instr_ok_mono: "instr_ok hx m deps cfg n i \<Longrightarrow> n \<le> n' \<Longrightarrow> instr_ok hx m deps cfg n' i"
  by (auto simp: instr_ok_def)

lemma jumps_inside_Nil [simp]: "jumps_inside []"
  by (simp add: jumps_inside_def)

lemma jumps_inside_single [simp]: "jump_offset i = None \<Longrightarrow> jumps_inside [i]"
  by (simp add: jumps_inside_def)

lemma jumps_inside_append: "jumps_inside s \<Longrightarrow> jumps_inside t \<Longrightarrow> jumps_inside (s @ t)"
  unfolding jumps_inside_def
proof (intro impI allI conjI)
  fix i off
  assume s: "length s < 2 ^ 31 \<longrightarrow> (\<forall>i < length s. \<forall>off. jump_offset (s ! i) = Some off \<longrightarrow>
        0 < sint off \<and> int i + sint off \<le> int (length s))"
    and t: "length t < 2 ^ 31 \<longrightarrow> (\<forall>i < length t. \<forall>off. jump_offset (t ! i) = Some off \<longrightarrow>
        0 < sint off \<and> int i + sint off \<le> int (length t))"
    and len: "length (s @ t) < 2 ^ 31" and i: "i < length (s @ t)" "jump_offset ((s @ t) ! i) = Some off"
  have "0 < sint off \<and> int i + sint off \<le> int (length (s @ t))"
  proof (cases "i < length s")
    case True
    with s len i have "0 < sint off \<and> int i + sint off \<le> int (length s)" by (simp add: nth_append)
    then show ?thesis by simp
  next
    case False
    with i have "i - length s < length t" "jump_offset (t ! (i - length s)) = Some off"
      by (auto simp: nth_append)
    with t len have "0 < sint off \<and> int (i - length s) + sint off \<le> int (length t)" by simp
    with False show ?thesis by simp
  qed
  then show "0 < sint off" "int i + sint off \<le> int (length (s @ t))" by simp_all
qed

lemma sint_word_of_nat: "n < 2 ^ 31 \<Longrightarrow> sint (word_of_nat n :: 32 word) = int n"
  by (simp add: signed_of_nat signed_take_bit_int_eq_self)

text \<open>A jump in front of a segment, to a place in it or to its end.\<close>

lemma jumps_inside_Cons:
  assumes "jumps_inside body" "jump_offset j = Some (word_of_nat k)" "0 < k" "k \<le> Suc (length body)"
  shows "jumps_inside (j # body)"
  unfolding jumps_inside_def
proof (intro impI allI)
  fix i off
  assume len: "length (j # body) < 2 ^ 31"
    and i: "i < length (j # body)" "jump_offset ((j # body) ! i) = Some off"
  show "0 < sint off \<and> int i + sint off \<le> int (length (j # body))"
  proof (cases i)
    case 0
    with i len assms sint_word_of_nat [of k] show ?thesis by auto
  next
    case (Suc n)
    with i assms(1) len show ?thesis unfolding jumps_inside_def by fastforce
  qed
qed

section \<open>Extensions\<close>

definition same_env :: "codegen \<Rightarrow> codegen \<Rightarrow> bool" where
  "same_env cg cg' \<longleftrightarrow> cg_config cg' = cg_config cg \<and> cg_structs cg' = cg_structs cg \<and>
     cg_dep_addresses cg' = cg_dep_addresses cg \<and> cg_dep_modules cg' = cg_dep_modules cg"

definition cg_wf :: "codegen \<Rightarrow> bool" where
  "cg_wf cg \<longleftrightarrow> (\<forall>(_, slot, _) \<in> set (cg_locals cg). slot < cg_next_slot cg) \<and>
     cg_next_slot cg \<le> max_locals (cg_config cg)"

definition extends :: "hex_codec \<Rightarrow> module \<Rightarrow> module_map \<Rightarrow> codegen \<Rightarrow> codegen \<Rightarrow> bool" where
  "extends hx m deps cg cg' \<longleftrightarrow> same_env cg cg' \<and> cg_wf cg' \<and> cg_next_slot cg \<le> cg_next_slot cg' \<and>
     (\<exists>seg. cg_code cg' = cg_code cg @ seg \<and> jumps_inside seg \<and>
        (\<forall>i \<in> set seg. instr_ok hx m deps (cg_config cg) (cg_next_slot cg') i))"

text \<open>The module under construction, as the generator sees it.\<close>

definition codegen_env :: "hex_codec \<Rightarrow> module \<Rightarrow> module_map \<Rightarrow> codegen \<Rightarrow> bool" where
  "codegen_env hx m deps cg \<longleftrightarrow> prefix_hex_ok hx \<and>
     (\<exists>ds. cg_structs cg = md_structs m @ ds \<and> (\<forall>s \<in> set ds. is_qualified (sd_name s))) \<and>
     map_of (cg_dep_modules cg) = map_of deps"

lemma extends_trans:
  assumes "extends hx m deps cg cg'" "extends hx m deps cg' cg''"
  shows "extends hx m deps cg cg''"
proof -
  from assms obtain s t where
    s: "cg_code cg' = cg_code cg @ s" "jumps_inside s"
      "\<forall>i \<in> set s. instr_ok hx m deps (cg_config cg) (cg_next_slot cg') i" and
    t: "cg_code cg'' = cg_code cg' @ t" "jumps_inside t"
      "\<forall>i \<in> set t. instr_ok hx m deps (cg_config cg') (cg_next_slot cg'') i"
    by (auto simp: extends_def)
  moreover from assms have "cg_next_slot cg' \<le> cg_next_slot cg''" "same_env cg cg'" by (auto simp: extends_def)
  ultimately have "cg_code cg'' = cg_code cg @ (s @ t) \<and> jumps_inside (s @ t) \<and>
      (\<forall>i \<in> set (s @ t). instr_ok hx m deps (cg_config cg) (cg_next_slot cg'') i)"
    by (auto simp: jumps_inside_append same_env_def intro: instr_ok_mono)
  with assms show ?thesis unfolding extends_def same_env_def by (auto intro: order_trans)
qed

lemma extends_env: "extends hx m deps cg cg' \<Longrightarrow> codegen_env hx m deps cg \<Longrightarrow> codegen_env hx m deps cg'"
  by (auto simp: extends_def same_env_def codegen_env_def)

lemma extends_wf: "extends hx m deps cg cg' \<Longrightarrow> cg_wf cg'"
  by (simp add: extends_def)

lemma extends_slot: "extends hx m deps cg cg' \<Longrightarrow> slot < cg_next_slot cg \<Longrightarrow> slot < cg_next_slot cg'"
  by (auto simp: extends_def intro: less_le_trans)

text \<open>A change of the tracked types, moves or scope.\<close>

lemma extends_silent:
  "cg_wf cg' \<Longrightarrow> same_env cg cg' \<Longrightarrow> cg_next_slot cg' = cg_next_slot cg \<Longrightarrow> cg_code cg' = cg_code cg \<Longrightarrow>
     extends hx m deps cg cg'"
  by (auto simp: extends_def)

lemma extends_emit:
  assumes "cg_wf cg" "jump_offset i = None" "instr_ok hx m deps (cg_config cg) (cg_next_slot cg) i"
  shows "extends hx m deps cg (emit i cg)"
  using assms by (auto simp: extends_def same_env_def emit_def cg_wf_def intro: exI [of _ "[i]"])

lemma cg_wf_simps [simp]:
  "cg_wf (cg\<lparr>cg_local_types := ts\<rparr>) = cg_wf cg" "cg_wf (cg\<lparr>cg_moved := mv\<rparr>) = cg_wf cg"
  "cg_wf (cg\<lparr>cg_scope_depth := d\<rparr>) = cg_wf cg" "cg_wf (emit i cg) = cg_wf cg" "cg_wf (set_type slot ty cg) = cg_wf cg"
  "cg_wf (patch pos i cg) = cg_wf cg" "cg_wf (open_scope cg) = cg_wf cg"
  by (simp_all add: cg_wf_def emit_def set_type_def patch_def open_scope_def)

lemma extends_set_type: "cg_wf cg \<Longrightarrow> extends hx m deps cg (set_type slot ty cg)"
  by (rule extends_silent) (simp_all add: same_env_def set_type_def cg_wf_def)

lemma local_slot_less: "local_slot cg name = Inr slot \<Longrightarrow> cg_wf cg \<Longrightarrow> slot < cg_next_slot cg"
  by (auto simp: local_slot_def ok_or_Inr_iff cg_wf_def dest!: map_of_SomeD)

lemma fresh_slot:
  fixes a b :: u8
  assumes "a < b"
  shows "a < a + 1 \<and> a + 1 \<le> b"
proof -
  have "a \<noteq> - 1" using assms by auto
  with assms unat_plus_one [of a] show ?thesis by (simp add: word_less_nat_alt word_le_nat_alt)
qed

lemma alloc_fresh_extends:
  assumes "alloc_fresh name cg = Inr (slot, cg')" "cg_wf cg"
  shows "extends hx m deps cg cg' \<and> slot < cg_next_slot cg'"
proof -
  from assms(1) have less: "cg_next_slot cg < max_locals (cg_config cg)" and slot: "slot = cg_next_slot cg"
    and cg': "cg' = cg\<lparr>cg_locals := AList.update name (cg_next_slot cg, cg_scope_depth cg) (cg_locals cg),
           cg_next_slot := cg_next_slot cg + 1\<rparr>"
    by (auto simp: alloc_fresh_def split: if_splits)
  have "set (AList.update name v xs) \<subseteq> insert (name, v) (set xs)" for v and xs :: "(string \<times> u8 \<times> u32) list"
    by (induction xs) auto
  then have "cg_wf cg'" using assms(2) fresh_slot [OF less] unfolding cg' cg_wf_def by fastforce
  with fresh_slot [OF less] slot cg' show ?thesis by (auto simp: extends_def same_env_def)
qed

lemma alloc_local_extends:
  assumes "alloc_local name cg = Inr (slot, cg')" "cg_wf cg"
  shows "extends hx m deps cg cg' \<and> slot < cg_next_slot cg'"
proof (cases "alloc_fresh name cg = Inr (slot, cg')")
  case True
  with assms(2) alloc_fresh_extends show ?thesis by blast
next
  case False
  with assms(1) obtain depth where slot: "map_of (cg_locals cg) name = Some (slot, depth)"
    and cg': "cg' = cg\<lparr>cg_moved := cg_moved cg - {slot}\<rparr>"
    by (auto simp: alloc_local_def and_then_Inr_iff split: option.splits if_splits)
  from slot assms(2) have "slot < cg_next_slot cg" by (auto simp: cg_wf_def dest!: map_of_SomeD)
  with assms(2) cg' show ?thesis by (auto simp: same_env_def intro!: extends_silent)
qed

section \<open>Expressions\<close>

lemma emit_simps [simp]:
  "cg_locals (emit i cg) = cg_locals cg" "cg_local_types (emit i cg) = cg_local_types cg"
  "cg_moved (emit i cg) = cg_moved cg" "cg_next_slot (emit i cg) = cg_next_slot cg"
  "cg_config (emit i cg) = cg_config cg" "cg_code (emit i cg) = cg_code cg @ [i]"
  by (simp_all add: emit_def)

lemma instr_ok_plain [simp]:
  "instr_ok hx m deps cfg n (PushBool b)" "instr_ok hx m deps cfg n (PushU64 v)"
  "instr_ok hx m deps cfg n (PushAddress a)" "instr_ok hx m deps cfg n (PushStr s)"
  "instr_ok hx m deps cfg n (binop_instr op)" "instr_ok hx m deps cfg n NotB"
  "instr_ok hx m deps cfg n (GetField f)" "instr_ok hx m deps cfg n Pop" "instr_ok hx m deps cfg n Return"
  by (simp_all add: instr_ok_def) (cases op; simp)

lemma instr_ok_slots:
  "slot < n \<Longrightarrow> instr_ok hx m deps cfg n (Load slot)" "slot < n \<Longrightarrow> instr_ok hx m deps cfg n (Store slot)"
  "slot < n \<Longrightarrow> path \<noteq> [] \<Longrightarrow> instr_ok hx m deps cfg n (LoadField slot path)"
  "slot < n \<Longrightarrow> path \<noteq> [] \<Longrightarrow> instr_ok hx m deps cfg n (StoreField slot path)"
  by (auto simp: instr_ok_def check_slot_def check_path_def err_if_def)

lemma instr_ok_tuples:
  assumes "k \<le> unat (max_tuple_elements cfg)"
  shows "instr_ok hx m deps cfg n (MakeTuple (word_of_nat k))" "instr_ok hx m deps cfg n (UnpackTuple (word_of_nat k))"
proof -
  have "k < 2 ^ 8" using assms unat_bound [of "max_tuple_elements cfg"] by simp
  then have "unat (word_of_nat k :: u8) = k" by (simp add: unat_of_nat take_bit_nat_eq_self)
  with assms show "instr_ok hx m deps cfg n (MakeTuple (word_of_nat k))" "instr_ok hx m deps cfg n (UnpackTuple (word_of_nat k))"
    by (simp_all add: instr_ok_def check_tuple_size_def err_if_def)
qed

lemma jump_offset_simps [simp]:
  "jump_offset (PushBool b) = None" "jump_offset (PushU64 v) = None" "jump_offset (PushAddress a) = None"
  "jump_offset (PushStr s) = None" "jump_offset (binop_instr op) = None" "jump_offset NotB = None"
  "jump_offset (GetField f) = None" "jump_offset Pop = None" "jump_offset Return = None"
  "jump_offset (Load slot) = None" "jump_offset (Store slot) = None" "jump_offset (LoadField slot path) = None"
  "jump_offset (StoreField slot path) = None" "jump_offset (MakeTuple k) = None" "jump_offset (UnpackTuple k) = None"
  "jump_offset (NewStruct t fs) = None" "jump_offset (UnpackStruct t fs) = None" "jump_offset (Call f) = None"
  "jump_offset (Jump off) = Some off" "jump_offset (JumpIfNot off) = Some off"
  by (simp_all add: jump_offset_def) (cases op; simp)

text \<open>An unqualified name is a struct of the module itself.\<close>

lemma find_local_struct:
  assumes "codegen_env hx m deps cg" "find_struct cg name = Some def" "\<not> is_qualified name"
  shows "get_struct m name = Some def"
proof -
  from assms(1) obtain ds where ds: "cg_structs cg = md_structs m @ ds" "\<forall>s \<in> set ds. is_qualified (sd_name s)"
    by (auto simp: codegen_env_def)
  have "find P (xs @ ys) = (case find P xs of Some x \<Rightarrow> Some x | None \<Rightarrow> find P ys)"
    for P :: "struct_def \<Rightarrow> bool" and xs ys
    by (induction xs) auto
  with assms(2,3) ds show ?thesis
    by (auto simp: find_struct_def get_struct_def dest!: find_SomeD split: option.splits)
qed

lemma struct_instr_ok:
  assumes "codegen_env hx m deps cg" "find_struct cg name = Some def" "\<not> is_qualified name"
    "cg_translate_name hx cg' name = Inr t"
  shows "instr_ok hx m deps cfg n (NewStruct t (map fd_name (sd_fields def)))"
    "instr_ok hx m deps cfg n (UnpackStruct t (map fd_name (sd_fields def)))"
proof -
  from assms(3,4) have "t = name" by (auto simp: cg_translate_name_def is_qualified_def split: option.splits)
  moreover have "parse_module_ref hx name = None"
    using assms(3) parse_module_ref_is_qualified by (cases "parse_module_ref hx name") auto
  ultimately show "instr_ok hx m deps cfg n (NewStruct t (map fd_name (sd_fields def)))"
    "instr_ok hx m deps cfg n (UnpackStruct t (map fd_name (sd_fields def)))"
    using find_local_struct [OF assms(1-3)] by (simp_all add: instr_ok_def check_struct_instr_def err_if_def)
qed

lemma call_instr_ok:
  assumes "codegen_env hx m deps cg" "check_fn_visibility cg name = Inr u" "same_env cg cg'"
    "cg_translate_name hx cg' name = Inr t"
  shows "instr_ok hx m deps cfg n (Call t)"
proof (cases "split_once_colons name")
  case None
  then have "t = name" "parse_module_ref hx name = None"
    using assms(4) parse_module_ref_is_qualified [of hx name]
    by (auto simp: cg_translate_name_def is_qualified_def intro: option.exhaust [of "parse_module_ref hx name"])
  then show ?thesis by (simp add: instr_ok_def check_call_visibility_def)
next
  case (Some parts)
  then obtain d f where parts: "split_once_colons name = Some (d, f)" by (cases parts) auto
  with assms(2) obtain addr dep func where f: "map_of (cg_dep_addresses cg) d = Some addr"
    "map_of (cg_dep_modules cg) addr = Some dep" "get_function dep f = Some func" "fn_is_public func"
    by (auto simp: check_fn_visibility_def and_then_Inr_iff ok_or_Inr_iff)
  with parts assms(3,4) have "t = qualify hx addr f" by (auto simp: cg_translate_name_def same_env_def)
  moreover have "parse_module_ref hx (qualify hx addr f) = Some (addr, f)"
    using assms(1) by (auto simp: codegen_env_def intro!: prefix_hex.parse_of_qualified prefix_hex.intro)
  ultimately show ?thesis
    using f assms(1) by (simp add: instr_ok_def check_call_visibility_def codegen_env_def err_if_def)
qed

lemma extends_refl: "cg_wf cg \<Longrightarrow> extends hx m deps cg cg"
  by (rule extends_silent) (simp_all add: same_env_def)

text \<open>One more instruction.\<close>

lemma extends_emit_after:
  "extends hx m deps cg cg' \<Longrightarrow> jump_offset i = None \<Longrightarrow>
     instr_ok hx m deps (cg_config cg) (cg_next_slot cg') i \<Longrightarrow> extends hx m deps cg (emit i cg')"
  by (rule extends_trans, assumption, rule extends_emit) (auto simp: extends_def same_env_def)

lemma compile_ident_extends:
  assumes "compile_ident name cg = Inr cg'" "cg_wf cg"
  shows "extends hx m deps cg cg'"
proof -
  from assms(1) obtain slot where slot: "local_slot cg name = Inr slot"
    and cg': "cg' = emit (Load slot) cg \<or> cg' = emit (Load slot)
      (cg\<lparr>cg_local_types := AList.delete slot (cg_local_types cg), cg_moved := insert slot (cg_moved cg)\<rparr>)"
    by (auto simp: compile_ident_def and_then_Inr_iff split: if_splits)
  have "extends hx m deps cg
      (cg\<lparr>cg_local_types := AList.delete slot (cg_local_types cg), cg_moved := insert slot (cg_moved cg)\<rparr>)"
    using assms(2) by (intro extends_silent) (simp_all add: same_env_def cg_wf_def)
  with extends_refl [OF assms(2)] cg' local_slot_less [OF slot assms(2)] show ?thesis
    by (auto intro!: extends_emit_after instr_ok_slots)
qed

lemma flatten_loop_path: "path \<noteq> [] \<Longrightarrow> snd (flatten_loop e path) \<noteq> []"
  by (induction e path rule: flatten_loop.induct) auto

lemma extends_getfields:
  "extends hx m deps cg cg' \<Longrightarrow> extends hx m deps cg (foldl (\<lambda>cg step. emit (GetField step) cg) cg' path)"
  by (induction path arbitrary: cg') (simp_all add: extends_emit_after)

lemma compile_load_field_extends:
  "compile_load_field slot path cg = Inr cg' \<Longrightarrow> cg_wf cg \<Longrightarrow> slot < cg_next_slot cg \<Longrightarrow> path \<noteq> [] \<Longrightarrow>
     extends hx m deps cg cg'"
  by (auto simp: compile_load_field_def and_then_Inr_iff intro!: extends_emit instr_ok_slots)

lemma compile_expr_extends:
  "compile_expr hx e cg = Inr cg' \<Longrightarrow> cg_wf cg \<Longrightarrow> codegen_env hx m deps cg \<Longrightarrow> extends hx m deps cg cg'"
  "compile_exprs hx es cg = Inr cg' \<Longrightarrow> cg_wf cg \<Longrightarrow> codegen_env hx m deps cg \<Longrightarrow> extends hx m deps cg cg'"
  "compile_lit_fields hx name lits names cg = Inr cg' \<Longrightarrow> cg_wf cg \<Longrightarrow> codegen_env hx m deps cg \<Longrightarrow>
     extends hx m deps cg cg'"
proof (induction hx e cg and hx es cg and hx name lits names cg arbitrary: cg' and cg' and cg'
    rule: compile_expr_compile_exprs_compile_lit_fields.induct)
  case (5 hx name cg)
  then show ?case using compile_ident_extends by simp
next
  case (6 hx left op right cg)
  from 6(3) obtain c1 c2 where c: "compile_expr hx left cg = Inr c1" "compile_expr hx right c1 = Inr c2"
    "cg' = emit (binop_instr op) c2" by (auto simp: and_then_Inr_iff)
  note e1 = 6(1) [OF c(1) 6(4,5)]
  from extends_trans [OF e1 6(2) [OF c(1) c(2) extends_wf [OF e1] extends_env [OF e1 6(5)]]] c(3)
  show ?case by (simp add: extends_emit_after)
next
  case (7 hx e field cg)
  let ?root = "fst (flatten_field_chain e field)" and ?path = "rev (snd (flatten_field_chain e field))"
  have path: "?path \<noteq> []" using flatten_loop_path [of "[field]" e] by (simp add: flatten_field_chain_def)
  show ?case
  proof (cases "root_slot cg ?root")
    case (Some slot)
    then have "slot < cg_next_slot cg"
      using 7(3) by (auto simp: root_slot_def cg_wf_def split: expr.splits dest!: map_of_SomeD)
    with Some 7(2,3) path show ?thesis by (auto simp: Let_def intro: compile_load_field_extends)
  next
    case None
    with 7(2) obtain c1 where "compile_expr hx ?root cg = Inr c1"
      "cg' = foldl (\<lambda>cg step. emit (GetField step) cg) c1 ?path" by (auto simp: Let_def and_then_Inr_iff)
    with 7(1) [OF refl refl None _ _ 7(3,4)] 7(2) None show ?thesis
      by (auto simp: Let_def and_then_Inr_iff intro!: extends_getfields)
  qed
next
  case (8 hx name lits cg)
  then have q: "\<not> is_qualified name" by (auto split: if_splits)
  with 8(2) obtain def c1 t where c: "find_struct cg name = Some def"
    "compile_lit_fields hx name (rev lits) (map fd_name (sd_fields def)) cg = Inr c1"
    "cg_translate_name hx c1 name = Inr t" "cg' = emit (NewStruct t (map fd_name (sd_fields def))) c1"
    by (auto simp: and_then_Inr_iff ok_or_Inr_iff Let_def)
  from 8(1) [OF q _ refl c(2) 8(3,4)] c(1) have e1: "extends hx m deps cg c1" by (simp add: ok_or_Inr_iff)
  then show ?case
    using c(4) struct_instr_ok(1) [OF 8(4) c(1) q c(3)] by (simp add: extends_emit_after)
next
  case (9 hx op e cg)
  then show ?case by (auto simp: and_then_Inr_iff intro!: extends_emit_after)
next
  case (10 hx items cg)
  then have n: "length items \<le> unat (max_tuple_elements (cg_config cg))" by (auto simp: Let_def split: if_splits)
  with 10(2) obtain c1 where "compile_exprs hx items cg = Inr c1" "cg' = emit (MakeTuple (word_of_nat (length items))) c1"
    by (auto simp: Let_def and_then_Inr_iff)
  with 10(1) [OF refl refl _ _ 10(3,4)] n instr_ok_tuples(1) [OF n] show ?case by (simp add: extends_emit_after)
next
  case (11 hx name args cg)
  then obtain c1 t where c: "check_fn_visibility cg name = Inr ()" "compile_exprs hx args cg = Inr c1"
    "cg_translate_name hx c1 name = Inr t" "cg' = emit (Call t) c1" by (auto simp: and_then_Inr_iff)
  note e1 = 11(1) [OF c(1,2) 11(3,4)]
  then have "same_env cg c1" by (simp add: extends_def)
  with call_instr_ok [OF 11(4) c(1) _ c(3)] e1 c(4) show ?case by (simp add: extends_emit_after)
next
  case (13 hx e es cg)
  then obtain c1 where c: "compile_expr hx e cg = Inr c1" "compile_exprs hx es c1 = Inr cg'"
    by (auto simp: and_then_Inr_iff)
  note e1 = 13(1) [OF c(1) 13(4,5)]
  show ?case by (rule extends_trans [OF e1 13(2) [OF c(1) c(2) extends_wf [OF e1] extends_env [OF e1 13(5)]]])
next
  case (15 hx name lits field_name names cg)
  then obtain e c1 where c: "map_of lits field_name = Some e" "compile_expr hx e cg = Inr c1"
    "compile_lit_fields hx name (filter (\<lambda>(k, _). k \<noteq> field_name) lits) names c1 = Inr cg'"
    by (auto simp: and_then_Inr_iff split: option.splits)
  note e1 = 15(1) [OF c(1,2) 15(4,5)]
  show ?case by (rule extends_trans [OF e1 15(2) [OF c(1,2,3) extends_wf [OF e1] extends_env [OF e1 15(5)]]])
qed (auto intro!: extends_emit extends_refl)

section \<open>Branches\<close>

lemma extends_seg:
  assumes "extends hx m deps cg cg'"
  obtains seg where "cg_code cg' = cg_code cg @ seg" "jumps_inside seg"
    "\<forall>i \<in> set seg. instr_ok hx m deps (cg_config cg) (cg_next_slot cg') i"
  using assms by (auto simp: extends_def)

lemma instr_ok_jumps [simp]:
  "instr_ok hx m deps cfg n (Jump off)" "instr_ok hx m deps cfg n (JumpIfNot off)"
  by (simp_all add: instr_ok_def)

text \<open>The state after a branch: the environment and locals of before, and a segment of its own.\<close>

lemma extends_branch:
  assumes "cg_wf c0" "same_env c0 f" "cg_locals f = cg_locals c0" "cg_next_slot c0 \<le> cg_next_slot f"
    "cg_next_slot f \<le> max_locals (cg_config c0)" "cg_code f = cg_code c0 @ seg" "jumps_inside seg"
    "\<forall>i \<in> set seg. instr_ok hx m deps (cg_config c0) (cg_next_slot f) i"
  shows "extends hx m deps c0 f"
proof -
  have "cg_wf f" using assms(1-5) by (fastforce simp: cg_wf_def same_env_def)
  with assms show ?thesis by (auto simp: extends_def)
qed

lemma if_extends:
  assumes wf: "cg_wf c0"
    and c1: "same_env c0 c1" "cg_next_slot c1 = cg_next_slot c0" "cg_code c1 = cg_code c0 @ [JumpIfNot 0]"
    and body: "extends hx m deps c1 c2"
    and f: "same_env c2 f" "cg_locals f = cg_locals c0" "cg_next_slot f = cg_next_slot c2"
      "cg_code f = (cg_code c2)[length (cg_code c0) :=
         JumpIfNot (word_of_nat (length (cg_code c2) - length (cg_code c0)))]"
  shows "extends hx m deps c0 f"
proof -
  from body obtain seg where seg: "cg_code c2 = cg_code c1 @ seg" "jumps_inside seg"
    "\<forall>i \<in> set seg. instr_ok hx m deps (cg_config c1) (cg_next_slot c2) i" by (rule extends_seg)
  let ?seg = "JumpIfNot (word_of_nat (Suc (length seg))) # seg"
  show ?thesis
  proof (rule extends_branch [OF wf])
    show "cg_code f = cg_code c0 @ ?seg" using f(4) seg(1) c1(3) by (simp add: list_update_append)
    show "jumps_inside ?seg" by (rule jumps_inside_Cons [OF seg(2), of _ "Suc (length seg)"]) simp_all
    show "\<forall>i \<in> set ?seg. instr_ok hx m deps (cg_config c0) (cg_next_slot f) i"
      using seg(3) c1(1) f(3) by (simp add: same_env_def)
  qed (use body c1 f in \<open>auto simp: extends_def same_env_def cg_wf_def\<close>)
qed

lemma if_else_extends:
  assumes wf: "cg_wf c0"
    and c1: "same_env c0 c1" "cg_next_slot c1 = cg_next_slot c0" "cg_code c1 = cg_code c0 @ [JumpIfNot 0]"
    and body: "extends hx m deps c1 c2"
    and c3: "same_env c2 c3" "cg_next_slot c3 = cg_next_slot c2"
      "cg_code c3 = (cg_code c2 @ [Jump 0])[length (cg_code c0) :=
         JumpIfNot (word_of_nat (Suc (length (cg_code c2)) - length (cg_code c0)))]"
    and els: "extends hx m deps c3 c4"
    and f: "same_env c4 f" "cg_locals f = cg_locals c0" "cg_next_slot f = cg_next_slot c4"
      "cg_code f = (cg_code c4)[length (cg_code c2) :=
         Jump (word_of_nat (length (cg_code c4) - length (cg_code c2)))]"
  shows "extends hx m deps c0 f"
proof -
  from body obtain seg where seg: "cg_code c2 = cg_code c1 @ seg" "jumps_inside seg"
    "\<forall>i \<in> set seg. instr_ok hx m deps (cg_config c1) (cg_next_slot c2) i" by (rule extends_seg)
  from els obtain seg2 where seg2: "cg_code c4 = cg_code c3 @ seg2" "jumps_inside seg2"
    "\<forall>i \<in> set seg2. instr_ok hx m deps (cg_config c3) (cg_next_slot c4) i" by (rule extends_seg)
  from els have le: "cg_next_slot c2 \<le> cg_next_slot c4" using c3(2) by (simp add: extends_def)
  let ?else = "Jump (word_of_nat (Suc (length seg2))) # seg2"
  let ?seg = "JumpIfNot (word_of_nat (length seg + 2)) # seg @ ?else"
  have code3: "cg_code c3 = cg_code c0 @ JumpIfNot (word_of_nat (length seg + 2)) # seg @ [Jump 0]"
    using c3(3) seg(1) c1(3) by (simp add: list_update_append)
  have len: "length (cg_code c2) = length (cg_code c0 @ JumpIfNot (word_of_nat (length seg + 2)) # seg)"
    using seg(1) c1(3) by simp
  show ?thesis
  proof (rule extends_branch [OF wf])
    show "cg_code f = cg_code c0 @ ?seg"
      unfolding f(4) seg2(1) code3 len by (simp add: list_update_append)
    have "jumps_inside ?else" by (rule jumps_inside_Cons [OF seg2(2), of _ "Suc (length seg2)"]) simp_all
    then show "jumps_inside ?seg"
      by (intro jumps_inside_Cons [OF jumps_inside_append [OF seg(2)], of _ _ "length seg + 2"]) simp_all
    show "\<forall>i \<in> set ?seg. instr_ok hx m deps (cg_config c0) (cg_next_slot f) i"
      using seg(3) seg2(3) c1(1) c3(1) body f(3) le
      by (auto simp: same_env_def extends_def intro: instr_ok_mono)
  qed (use body els c1 c3 f in \<open>auto simp: extends_def same_env_def cg_wf_def\<close>)
qed

section \<open>Statements\<close>

text \<open>The grammar reads the type name of a destructuring \<open>let\<close> as a plain identifier.\<close>

fun plain_stmt :: "stmt \<Rightarrow> bool" where
  "plain_stmt (SLetStruct type_name _ _ _) = (\<not> is_qualified type_name)"
| "plain_stmt (SIf _ body else_body) =
     (list_all plain_stmt body \<and> (case else_body of Some ss \<Rightarrow> list_all plain_stmt ss | None \<Rightarrow> True))"
| "plain_stmt _ = True"

lemma close_scope_Inr:
  "close_scope outer branch cg = Inr cg' \<Longrightarrow>
     cg' = cg\<lparr>cg_scope_depth := cg_scope_depth cg - 1, cg_locals := outer\<rparr>"
  by (auto simp: close_scope_def Let_def and_then_Inr_iff)

lemma merge_branches_simps [simp]:
  "cg_code (merge_branches a b ts mv cg) = cg_code cg" "cg_locals (merge_branches a b ts mv cg) = cg_locals cg"
  "cg_next_slot (merge_branches a b ts mv cg) = cg_next_slot cg" "same_env cg (merge_branches a b ts mv cg)"
  by (simp_all add: merge_branches_def same_env_def)

lemma same_env_trans: "same_env a b \<Longrightarrow> same_env b c \<Longrightarrow> same_env a c"
  by (simp add: same_env_def)

lemma extends_same_env: "extends hx m deps cg cg' \<Longrightarrow> same_env cg cg'"
  by (simp add: extends_def)

lemma env_same_env: "same_env cg cg' \<Longrightarrow> codegen_env hx m deps cg \<Longrightarrow> codegen_env hx m deps cg'"
  by (simp add: same_env_def codegen_env_def)

lemma store_extends:
  assumes "alloc_local name cg = Inr (slot, cg')" "cg_wf cg"
  shows "extends hx m deps cg (emit (Store slot) cg')" "extends hx m deps cg (emit (Store slot) (set_type slot ty cg'))"
proof -
  from alloc_local_extends [OF assms] have e: "extends hx m deps cg cg'" and s: "slot < cg_next_slot cg'" by auto
  from e s show "extends hx m deps cg (emit (Store slot) cg')" by (intro extends_emit_after instr_ok_slots) simp_all
  from extends_trans [OF e extends_set_type [OF extends_wf [OF e], of hx m deps slot ty]] s
  show "extends hx m deps cg (emit (Store slot) (set_type slot ty cg'))"
    by (intro extends_emit_after instr_ok_slots) (simp_all add: set_type_def)
qed

lemma set_type_emit: "set_type slot ty (emit i cg) = emit i (set_type slot ty cg)"
  by (simp add: set_type_def emit_def)

lemma bind_tuple_names_extends:
  "bind_tuple_names names types cg = Inr cg' \<Longrightarrow> cg_wf cg \<Longrightarrow> extends hx m deps cg cg'"
proof (induction names types cg arbitrary: cg' rule: bind_tuple_names.induct)
  case (2 name names types cg)
  then obtain slot c1 where a: "alloc_local name cg = Inr (slot, c1)"
    and r: "bind_tuple_names names (map_option tl types)
      (emit (Store slot) (case types of Some ts \<Rightarrow> set_type slot (hd ts) c1 | None \<Rightarrow> c1)) = Inr cg'"
    by (auto simp: and_then_Inr_iff)
  have e: "extends hx m deps cg (emit (Store slot) (case types of Some ts \<Rightarrow> set_type slot (hd ts) c1 | None \<Rightarrow> c1))"
    using store_extends [OF a 2(3)] by (cases types) auto
  show ?case by (rule extends_trans [OF e 2(1) [OF a refl r extends_wf [OF e]]])
qed (simp add: extends_refl)

lemma bind_struct_fields_extends:
  "bind_struct_fields t def bm names cg = Inr cg' \<Longrightarrow> cg_wf cg \<Longrightarrow> extends hx m deps cg cg'"
proof (induction t def bm names cg arbitrary: cg' rule: bind_struct_fields.induct)
  case (2 t def bm field_name names cg)
  then obtain fd where fd: "find_field field_name (sd_fields def) = Some fd" by (auto split: option.splits)
  show ?case
  proof (cases "map_of bm field_name")
    case None
    with 2(3) fd have s: "\<not> is_struct_type (fd_ty fd)" and r: "bind_struct_fields t def bm names (emit Pop cg) = Inr cg'"
      by (auto split: if_splits)
    have e: "extends hx m deps cg (emit Pop cg)" using 2(4) by (simp add: extends_emit)
    show ?thesis by (rule extends_trans [OF e 2(1) [OF fd None s r extends_wf [OF e]]])
  next
    case (Some b)
    with 2(3) fd obtain slot c1 where a: "alloc_local b cg = Inr (slot, c1)"
      and r: "bind_struct_fields t def bm names (emit (Store slot) (set_type slot (fd_ty fd) c1)) = Inr cg'"
      by (auto simp: and_then_Inr_iff)
    note e = store_extends(2) [OF a 2(4), of hx m deps "fd_ty fd"]
    show ?thesis by (rule extends_trans [OF e 2(2) [OF fd Some a refl r extends_wf [OF e]]])
  qed
qed (simp add: extends_refl)

lemma compile_let_tuple_extends:
  assumes "compile_let_tuple hx names e cg = Inr cg'" "cg_wf cg" "codegen_env hx m deps cg"
  shows "extends hx m deps cg cg'"
proof -
  from assms(1) obtain types c1 where n: "length names \<le> unat (max_tuple_elements (cg_config cg))"
    and c: "compile_expr hx e cg = Inr c1"
    and r: "bind_tuple_names names types (emit (UnpackTuple (word_of_nat (length names))) c1) = Inr cg'"
    by (auto simp: compile_let_tuple_def Let_def and_then_Inr_iff split: if_splits)
  have "extends hx m deps cg (emit (UnpackTuple (word_of_nat (length names))) c1)"
    by (rule extends_emit_after [OF compile_expr_extends(1) [OF c assms(2,3)] _ instr_ok_tuples(2) [OF n]]) simp
  then show ?thesis by (rule extends_trans) (rule bind_tuple_names_extends [OF r extends_wf [OF \<open>extends _ _ _ _ _\<close>]])
qed

lemma compile_let_struct_extends:
  assumes "compile_let_struct hx t bs e rest cg = Inr cg'" "cg_wf cg" "codegen_env hx m deps cg" "\<not> is_qualified t"
  shows "extends hx m deps cg cg'"
proof -
  from assms(1) obtain def c1 t' where def: "find_struct cg t = Some def" and c: "compile_expr hx e cg = Inr c1"
    and t': "cg_translate_name hx c1 t = Inr t'"
    and r: "bind_struct_fields t def (rev bs) (map fd_name (sd_fields def))
      (emit (UnpackStruct t' (map fd_name (sd_fields def))) c1) = Inr cg'"
    by (auto simp: compile_let_struct_def Let_def and_then_Inr_iff ok_or_Inr_iff)
  have "extends hx m deps cg (emit (UnpackStruct t' (map fd_name (sd_fields def))) c1)"
    by (rule extends_emit_after [OF compile_expr_extends(1) [OF c assms(2,3)] _
          struct_instr_ok(2) [OF assms(3) def assms(4) t']]) simp
  then show ?thesis by (rule extends_trans) (rule bind_struct_fields_extends [OF r extends_wf [OF \<open>extends _ _ _ _ _\<close>]])
qed

lemma compile_field_assign_extends:
  assumes "compile_field_assign hx x path e cg = Inr cg'" "cg_wf cg" "codegen_env hx m deps cg"
  shows "extends hx m deps cg cg'"
proof -
  from assms(1) obtain slot c1 where slot: "local_slot cg x = Inr slot" and path: "path \<noteq> []"
    and c: "compile_expr hx e cg = Inr c1" "cg' = emit (StoreField slot path) c1"
    by (auto simp: compile_field_assign_def and_then_Inr_iff)
  note e = compile_expr_extends(1) [OF c(1) assms(2,3)]
  from extends_slot [OF e local_slot_less [OF slot assms(2)]] have "slot < cg_next_slot c1" .
  with e path c(2) show ?thesis by (simp add: extends_emit_after instr_ok_slots)
qed

lemma compile_reassign_extends:
  assumes "compile_reassign hx x e cg = Inr cg'" "cg_wf cg" "codegen_env hx m deps cg"
  shows "extends hx m deps cg cg'"
proof -
  from assms(1) obtain slot c1 where slot: "local_slot cg x = Inr slot" and c: "compile_expr hx e cg = Inr c1"
    and cg': "cg_code cg' = cg_code (emit (Store slot) c1)" "cg_locals cg' = cg_locals c1"
      "cg_next_slot cg' = cg_next_slot c1" "same_env c1 cg'"
    by (auto simp: compile_reassign_def and_then_Inr_iff Let_def emit_def set_type_def same_env_def split: option.splits)
  note e = compile_expr_extends(1) [OF c assms(2,3)]
  from extends_slot [OF e local_slot_less [OF slot assms(2)]] have "slot < cg_next_slot c1" .
  with e have st: "extends hx m deps cg (emit (Store slot) c1)" by (simp add: extends_emit_after instr_ok_slots)
  have "extends hx m deps (emit (Store slot) c1) cg'"
    by (rule extends_silent) (use extends_wf [OF e] cg' in \<open>auto simp: cg_wf_def same_env_def emit_def\<close>)
  with st show ?thesis by (rule extends_trans)
qed

lemma compile_stmt_extends:
  "compile_stmt hx s cg = Inr cg' \<Longrightarrow> cg_wf cg \<Longrightarrow> codegen_env hx m deps cg \<Longrightarrow> plain_stmt s \<Longrightarrow>
     extends hx m deps cg cg'"
  "compile_stmts hx ss cg = Inr cg' \<Longrightarrow> cg_wf cg \<Longrightarrow> codegen_env hx m deps cg \<Longrightarrow> list_all plain_stmt ss \<Longrightarrow>
     extends hx m deps cg cg'"
proof (induction hx s cg and hx ss cg arbitrary: cg' and cg' rule: compile_stmt_compile_stmts.induct)
  case (1 hx name e cg)
  then obtain c1 slot c2 where c: "compile_expr hx e cg = Inr c1" "alloc_local name c1 = Inr (slot, c2)"
    "cg' = emit (Store slot) (case infer_type cg e of Some ty \<Rightarrow> set_type slot ty c2 | None \<Rightarrow> c2)"
    by (auto simp: and_then_Inr_iff Let_def set_type_emit split: option.splits)
  note e = compile_expr_extends(1) [OF c(1) 1(2,3)]
  from c(3) store_extends [OF c(2) extends_wf [OF e]] have "extends hx m deps c1 cg'"
    by (auto split: option.splits)
  with e show ?case by (rule extends_trans)
next
  case (3 hx opt cg)
  then show ?case
    using compile_expr_extends(1) extends_refl by (cases opt) (auto simp: and_then_Inr_iff intro: extends_emit_after)
next
  case (4 hx e cg)
  then show ?case
    using compile_expr_extends(1) by (auto simp: and_then_Inr_iff intro: extends_emit_after)
next
  case (5 hx cond body else_body cg)
  then obtain c0 where c0: "compile_expr hx cond cg = Inr c0" by (auto simp: and_then_Inr_iff)
  note e0 = compile_expr_extends(1) [OF c0 5(4,5)]
  let ?c1 = "open_scope (emit (JumpIfNot 0) c0)"
  from 5(3) c0 obtain c2 c2' where c2: "compile_stmts hx body ?c1 = Inr c2"
    and c2': "close_scope (cg_locals c0) ''if'' c2 = Inr c2'"
    by (auto simp: and_then_Inr_iff Let_def emit_def)
  have c1: "same_env c0 ?c1" "cg_next_slot ?c1 = cg_next_slot c0" "cg_code ?c1 = cg_code c0 @ [JumpIfNot 0]"
    by (simp_all add: same_env_def open_scope_def emit_def)
  have body: "extends hx m deps ?c1 c2"
    using 5(1) [OF c0 refl refl refl refl refl c2] 5(6) extends_wf [OF e0]
      env_same_env [OF c1(1) extends_env [OF e0 5(5)]] by simp
  have "extends hx m deps c0 cg'"
  proof (cases else_body)
    case None
    with 5(3) c0 c2 c2' show ?thesis
      by (intro if_extends [OF extends_wf [OF e0] c1 body])
        (auto simp: and_then_Inr_iff Let_def emit_def patch_def offset_to_end_def merge_branches_def same_env_def
          dest!: close_scope_Inr)
  next
    case (Some els)
    define d where "d = c2'\<lparr>cg_local_types := cg_local_types (emit (JumpIfNot 0) c0), cg_moved := cg_moved (emit (JumpIfNot 0) c0)\<rparr>"
    define j where "j = emit (Jump 0) d"
    define c3 where "c3 = open_scope (patch (length (cg_code c0)) (JumpIfNot (offset_to_end j (length (cg_code c0)))) j)"
    from 5(3) c0 c2 c2' Some obtain c4 c4' where c4: "compile_stmts hx els c3 = Inr c4"
      and c4': "close_scope (cg_locals c0) ''else'' c4 = Inr c4'"
      and cg': "cg' = merge_branches (ends_in_return body) (ends_in_return els) (cg_local_types c2') (cg_moved c2')
        (patch (length (cg_code d)) (Jump (offset_to_end c4' (length (cg_code d)))) c4')"
      by (auto simp: and_then_Inr_iff Let_def c3_def j_def d_def)
    have d: "cg_code d = cg_code c2" "cg_next_slot d = cg_next_slot c2" "cg_locals d = cg_locals c0" "same_env c2 d"
      using close_scope_Inr [OF c2'] by (simp_all add: d_def same_env_def)
    have c3: "same_env c2 c3" "cg_next_slot c3 = cg_next_slot c2" "cg_locals c3 = cg_locals c0"
      "cg_code c3 = (cg_code c2 @ [Jump 0])[length (cg_code c0) :=
         JumpIfNot (word_of_nat (Suc (length (cg_code c2)) - length (cg_code c0)))]"
      using d by (simp_all add: c3_def j_def same_env_def emit_def patch_def open_scope_def offset_to_end_def)
    have "cg_wf c3" using extends_wf [OF e0] extends_wf [OF body] body c3(1-3) c1
      by (fastforce simp: cg_wf_def same_env_def extends_def intro: less_le_trans)
    moreover have "codegen_env hx m deps c3"
      using env_same_env [OF c3(1) extends_env [OF body env_same_env [OF c1(1) extends_env [OF e0 5(5)]]]] .
    ultimately have els: "extends hx m deps c3 c4"
      using 5(6) Some c4 unfolding c3_def j_def d_def
      by (intro 5(2) [OF c0 refl refl refl refl refl c2 _ refl refl refl Some refl refl refl]) (simp_all add: c2')
    show ?thesis
      by (rule if_else_extends [OF extends_wf [OF e0] c1 body c3(1,2,4) els])
        (use close_scope_Inr [OF c4'] d in \<open>simp_all add: cg' merge_branches_def same_env_def patch_def offset_to_end_def\<close>)
  qed
  with e0 show ?case by (rule extends_trans)
next
  case (10 hx s ss cg)
  then obtain c1 where c: "compile_stmt hx s cg = Inr c1" "compile_stmts hx ss c1 = Inr cg'"
    by (auto simp: and_then_Inr_iff)
  have e: "extends hx m deps cg c1" using 10(1) [OF c(1) 10(4,5)] 10(6) by simp
  show ?case
    by (rule extends_trans [OF e 10(2) [OF c(1) c(2) extends_wf [OF e] extends_env [OF e 10(5)]]]) (use 10(6) in simp)
qed (auto intro: compile_reassign_extends compile_let_tuple_extends compile_let_struct_extends
    compile_field_assign_extends extends_refl)

end
