(* ===== verification/Compiler_Structure.thy ===== *)
theory Compiler_Structure
  imports Compiler_Wf
begin

text \<open>
  The compiler against the first phase of the bytecode verifier: what a successful compilation means for the
  names, the types and the code of the module.
\<close>

section \<open>Functions\<close>

lemma for_all_enumerate: "(\<forall>(i, x) \<in> set (enumerate 0 xs). P i x) \<longleftrightarrow> (\<forall>i < length xs. P i (xs ! i))"
  by (auto simp: in_set_enumerate_eq)

lemma check_code_ok:
  assumes "jumps_inside (fn_code f)" "length (fn_code f) < 2 ^ 31"
    "\<forall>i \<in> set (fn_code f). instr_ok hx m deps cfg (fn_local_count f) i"
  shows "check_code hx m deps cfg f = []"
proof -
  have "check_instr hx m deps cfg f pc (fn_code f ! pc) = []" if pc: "pc < length (fn_code f)" for pc
  proof (cases "jump_offset (fn_code f ! pc)")
    case None
    moreover have "instr_ok hx m deps cfg (fn_local_count f) (fn_code f ! pc)" using assms(3) pc by simp
    ultimately show ?thesis by (simp add: instr_ok_def)
  next
    case (Some off)
    with assms(1,2) pc have "0 < sint off" "int pc + sint off \<le> int (length (fn_code f))"
      by (auto simp: jumps_inside_def)
    with Some show ?thesis
      by (cases "fn_code f ! pc") (auto simp: jump_offset_def check_jump_def Let_def)
  qed
  then show ?thesis
    unfolding check_code_def concat_eq_Nil_conv set_map
    using for_all_enumerate [of "fn_code f" "\<lambda>pc i. check_instr hx m deps cfg f pc i = []"] by auto
qed

lemma alloc_local_fresh:
  assumes "alloc_local name cg = Inr (slot, cg')" "name \<notin> fst ` set (cg_locals cg)"
  shows "alloc_fresh name cg = Inr (slot, cg') \<and> fst ` set (cg_locals cg') = insert name (fst ` set (cg_locals cg)) \<and>
    unat (cg_next_slot cg') = Suc (unat (cg_next_slot cg))"
proof -
  from assms have a: "alloc_fresh name cg = Inr (slot, cg')"
    by (auto simp: alloc_local_def and_then_Inr_iff map_of_eq_None_iff [symmetric])
  then have "cg_next_slot cg < max_locals (cg_config cg)"
    and cg': "cg' = cg\<lparr>cg_locals := AList.update name (cg_next_slot cg, cg_scope_depth cg) (cg_locals cg),
           cg_next_slot := cg_next_slot cg + 1\<rparr>"
    by (auto simp: alloc_fresh_def split: if_splits)
  then have "cg_next_slot cg \<noteq> - 1" by auto
  then have "unat (cg_next_slot cg') = Suc (unat (cg_next_slot cg))"
    using cg' unat_plus_one [of "cg_next_slot cg"] by simp
  moreover have "fst ` set (cg_locals cg') = insert name (fst ` set (cg_locals cg))"
    using cg' by (simp add: dom_update)
  ultimately show ?thesis using a by blast
qed

text \<open>The translation of a type depends on the dependencies only.\<close>

lemma translate_name_same_env: "same_env cg c \<Longrightarrow> cg_translate_name hx c n = cg_translate_name hx cg n"
  by (simp add: cg_translate_name_def same_env_def split: option.splits)

lemma translate_same_env:
  "same_env cg c \<Longrightarrow> cg_translate_type hx c ty = cg_translate_type hx cg ty"
  "same_env cg c \<Longrightarrow> cg_translate_types hx c tys = cg_translate_types hx cg tys"
  by (induction hx cg ty and hx cg tys rule: cg_translate_type_cg_translate_types.induct)
    (simp_all add: translate_name_same_env cong: and_then_cong)

lemma alloc_params_ok:
  "alloc_params hx fname ps cg = Inr (ps', cg') \<Longrightarrow> cg_wf cg \<Longrightarrow>
     extends hx m deps cg cg' \<and> length ps' = length ps \<and>
     list_all2 (\<lambda>p q. cg_translate_type hx cg (snd p) = Inr (snd q)) ps ps'"
proof (induction hx fname ps cg arbitrary: ps' cg' rule: alloc_params.induct)
  case (2 hx fname name ty ps cg)
  then obtain slot c1 ty' qs where c: "alloc_local name cg = Inr (slot, c1)" "cg_translate_type hx c1 ty = Inr ty'"
    "alloc_params hx fname ps (set_type slot ty' c1) = Inr (qs, cg')" "ps' = (name, ty') # qs"
    and v: "validate_identifier name (''parameter in function '' @ quoted fname) (cg_config cg) = Inr ()"
    by (auto simp: and_then_Inr_iff)
  from alloc_local_extends [OF c(1) 2(3)] have e: "extends hx m deps cg c1" ..
  have e2: "extends hx m deps cg (set_type slot ty' c1)"
    by (rule extends_trans [OF e extends_set_type [OF extends_wf [OF e]]])
  from 2(1) [OF v c(1) refl c(2,3) extends_wf [OF e2]]
  have ih: "extends hx m deps (set_type slot ty' c1) cg'" "length qs = length ps"
    "list_all2 (\<lambda>p q. cg_translate_type hx (set_type slot ty' c1) (snd p) = Inr (snd q)) ps qs"
    by auto
  with extends_trans [OF e2 ih(1)] c(2,4) translate_same_env(1) [OF extends_same_env [OF e2]]
    translate_same_env(1) [OF extends_same_env [OF e]] show ?case by simp
qed (simp add: extends_refl)

lemma alloc_params_count:
  "alloc_params hx fname ps cg = Inr (ps', cg') \<Longrightarrow> distinct (map fst ps) \<Longrightarrow>
     fst ` set ps \<inter> fst ` set (cg_locals cg) = {} \<Longrightarrow> unat (cg_next_slot cg') = unat (cg_next_slot cg) + length ps"
proof (induction hx fname ps cg arbitrary: ps' cg' rule: alloc_params.induct)
  case (2 hx fname name ty ps cg)
  then obtain slot c1 ty' qs where c: "alloc_local name cg = Inr (slot, c1)" "cg_translate_type hx c1 ty = Inr ty'"
    "alloc_params hx fname ps (set_type slot ty' c1) = Inr (qs, cg')"
    and v: "validate_identifier name (''parameter in function '' @ quoted fname) (cg_config cg) = Inr ()"
    by (auto simp: and_then_Inr_iff)
  from alloc_local_fresh [OF c(1)] 2(4)
  have "fst ` set (cg_locals c1) = insert name (fst ` set (cg_locals cg))"
    "unat (cg_next_slot c1) = Suc (unat (cg_next_slot cg))" by auto
  with 2(1) [OF v c(1) refl c(2,3)] 2(3,4) show ?case by (auto simp: set_type_def)
qed simp

text \<open>What a compiled function satisfies, types apart.\<close>

lemma compile_function_ok:
  assumes comp: "compile_function hx structs addrs dm rts af cfg = Inr f"
    and env: "codegen_env hx m deps (codegen_new structs addrs dm rts cfg)"
    and src: "list_all plain_stmt (af_body af)" "distinct (map fst (af_params af))"
    and size: "max_fun_code_size cfg < 2 ^ 31"
  shows "check_code hx m deps cfg f = []" "fn_name f = af_name af" "is_valid_identifier (fn_name f) cfg"
    "fn_name f \<notin> set RESERVED_FUNCTION_NAMES \<union> set (reserved_function_names cfg)"
    "length (fn_params f) \<le> unat (max_params cfg)" "length (fn_params f) \<le> unat (fn_local_count f)"
    "fn_local_count f \<le> max_locals cfg" "length (fn_code f) \<le> max_fun_code_size cfg"
    "list_all2 (\<lambda>p q. cg_translate_type hx (codegen_new structs addrs dm rts cfg) (snd p) = Inr (snd q))
       (af_params af) (fn_params f)"
    "rel_option (\<lambda>ty ty'. cg_translate_type hx (codegen_new structs addrs dm rts cfg) ty = Inr ty')
       (af_return_type af) (fn_return_type f)"
proof -
  let ?c0 = "codegen_new structs addrs dm rts cfg"
  have wf0: "cg_wf ?c0" by (simp add: cg_wf_def codegen_new_def)
  from comp obtain c1 c2 where
    name: "validate_function_name (af_name af) cfg = Inr ()"
    and np: "length (af_params af) \<le> unat (max_params cfg)"
    and c1: "alloc_params hx (af_name af) (af_params af) ?c0 = Inr (fn_params f, c1)"
    and ret: "(case af_return_type af of Some rt \<Rightarrow> and_then (cg_translate_type hx c1 rt) (\<lambda>t. Ok (Some t)) | None \<Rightarrow> Ok None)
        = Inr (fn_return_type f)"
    and c2: "compile_stmts hx (af_body af) c1 = Inr c2"
    and len: "length (cg_code (end_with_return c2)) \<le> max_fun_code_size cfg"
    and f: "fn_name f = af_name af" "fn_local_count f = cg_next_slot (end_with_return c2)"
      "fn_code f = cg_code (end_with_return c2)"
    by (auto simp: compile_function_def and_then_Inr_iff Let_def)
  from alloc_params_ok [OF c1 wf0] have e1: "extends hx m deps ?c0 c1"
    and ps: "length (fn_params f) = length (af_params af)"
      "list_all2 (\<lambda>p q. cg_translate_type hx ?c0 (snd p) = Inr (snd q)) (af_params af) (fn_params f)"
    by auto
  note e2 = extends_trans [OF e1 compile_stmt_extends(2) [OF c2 extends_wf [OF e1] extends_env [OF e1 env] src(1)]]
  have e3: "extends hx m deps ?c0 (end_with_return c2)"
    using e2 by (auto simp: end_with_return_def intro: extends_emit_after)
  from e3 obtain seg where "cg_code (end_with_return c2) = cg_code ?c0 @ seg" "jumps_inside seg"
    "\<forall>i \<in> set seg. instr_ok hx m deps (cg_config ?c0) (cg_next_slot (end_with_return c2)) i" by (rule extends_seg)
  with f len size show "check_code hx m deps cfg f = []"
    by (intro check_code_ok) (simp_all add: codegen_new_def)
  show "fn_name f = af_name af" by (fact f(1))
  from name f(1) show "is_valid_identifier (fn_name f) cfg"
    "fn_name f \<notin> set RESERVED_FUNCTION_NAMES \<union> set (reserved_function_names cfg)"
    by (auto simp: validate_function_name_def validate_identifier_def and_then_Inr_iff split: if_splits)
  show "length (fn_params f) \<le> unat (max_params cfg)" using np ps by simp
  have "unat (cg_next_slot c1) = length (af_params af)"
    using alloc_params_count [OF c1 src(2)] by (simp add: codegen_new_def)
  moreover have "cg_next_slot c1 \<le> cg_next_slot (end_with_return c2)"
    using compile_stmt_extends(2) [OF c2 extends_wf [OF e1] extends_env [OF e1 env] src(1)]
    by (simp add: extends_def end_with_return_def)
  ultimately show "length (fn_params f) \<le> unat (fn_local_count f)" using f(2) ps(1) by (simp add: word_le_nat_alt)
  show "fn_local_count f \<le> max_locals cfg"
    using extends_wf [OF e3] e3 f(2) by (simp add: cg_wf_def extends_def same_env_def codegen_new_def)
  show "length (fn_code f) \<le> max_fun_code_size cfg" using len f by simp
  show "list_all2 (\<lambda>p q. cg_translate_type hx ?c0 (snd p) = Inr (snd q)) (af_params af) (fn_params f)" by (fact ps(2))
  show "rel_option (\<lambda>ty ty'. cg_translate_type hx ?c0 ty = Inr ty') (af_return_type af) (fn_return_type f)"
  proof (cases "af_return_type af")
    case (Some rt)
    with ret translate_same_env(1) [OF extends_same_env [OF e1]] obtain t where
      "cg_translate_type hx ?c0 rt = Inr t" "fn_return_type f = Some t" by (auto simp: and_then_Inr_iff)
    with Some show ?thesis by simp
  qed (use ret in simp)
qed

section \<open>Types\<close>

text \<open>A struct name of the source that the verifier will resolve: a struct of the module, or a public struct of
  an imported module under its local name.\<close>

definition name_resolves :: "module \<Rightarrow> module_map \<Rightarrow> dep_addresses \<Rightarrow> string \<Rightarrow> bool" where
  "name_resolves m deps addrs n \<longleftrightarrow>
     \<not> is_qualified n \<and> get_struct m n \<noteq> None \<or>
     (\<exists>d s addr dep def. split_once_colons n = Some (d, s) \<and> map_of addrs d = Some addr \<and> addr \<in> set (md_imports m) \<and>
        map_of deps addr = Some dep \<and> get_struct dep s = Some def \<and> sd_is_public def)"

lemma resolved_name_ok:
  assumes "name_resolves m deps addrs n" "prefix_hex_ok hx"
  shows "translate_type hx addrs (TStruct n) = TStruct n' \<Longrightarrow> validate_type_ref hx (TStruct n') m deps ctx = []"
proof -
  assume t: "translate_type hx addrs (TStruct n) = TStruct n'"
  from assms(1) show "validate_type_ref hx (TStruct n') m deps ctx = []"
    unfolding name_resolves_def
  proof (elim disjE conjE exE)
    assume n: "\<not> is_qualified n" "get_struct m n \<noteq> None"
    then have "n' = n" using t by (auto simp: is_qualified_def split: option.splits)
    moreover have "parse_module_ref hx n = None"
      using n(1) parse_module_ref_is_qualified by (cases "parse_module_ref hx n") auto
    ultimately show ?thesis using n(2) by simp
  next
    fix d s addr dep def
    assume n: "split_once_colons n = Some (d, s)" "map_of addrs d = Some addr" "addr \<in> set (md_imports m)"
      "map_of deps addr = Some dep" "get_struct dep s = Some def" "sd_is_public def"
    then have "n' = qualify hx addr s" using t by simp
    moreover have "parse_module_ref hx (qualify hx addr s) = Some (addr, s)"
      using assms(2) by (auto intro!: prefix_hex.parse_of_qualified prefix_hex.intro)
    ultimately show ?thesis using n by simp
  qed
qed

lemma translate_agree:
  "cg_translate_type hx cg ty = Inr ty' \<Longrightarrow> translate_type hx (cg_dep_addresses cg) ty = ty'"
  "cg_translate_types hx cg tys = Inr tys' \<Longrightarrow> map (translate_type hx (cg_dep_addresses cg)) tys = tys'"
  by (induction hx cg ty and hx cg tys arbitrary: ty' and tys' rule: cg_translate_type_cg_translate_types.induct)
    (auto simp: and_then_Inr_iff cg_translate_name_def split: option.splits)

lemma translate_struct_shape: "\<exists>n'. translate_type hx addrs (TStruct n) = TStruct n'"
  by (auto split: option.splits)

lemma known_type_ok:
  assumes "\<And>n. n \<in> known \<Longrightarrow> name_resolves m deps addrs n" "prefix_hex_ok hx"
  shows "check_type_ref_known known ctx ty = Inr () \<Longrightarrow> validate_type_ref hx (translate_type hx addrs ty) m deps ctx' = []"
proof (induction ty)
  case (TStruct n)
  then have "n \<in> known" by (simp split: if_splits)
  with translate_struct_shape [of hx addrs n] resolved_name_ok [OF assms(1) assms(2)] show ?case by fastforce
next
  case (TTuple tys)
  then show ?case by (auto simp: for_each_Ok_iff)
qed simp_all

lemma find_distinct:
  "distinct (map sd_name ss) \<Longrightarrow> s \<in> set ss \<Longrightarrow> find (\<lambda>t. sd_name t = sd_name s) ss = Some s"
  by (induction ss) (auto simp: image_iff)

text \<open>The public structs of the dependencies resolve under their local names.\<close>

lemma dep_struct_resolves:
  assumes "n \<in> sd_name ` set (dep_structs_of (iter addrs) deps)" "mset (iter addrs) = mset addrs"
    "distinct (map fst addrs)" "\<forall>p \<in> set addrs. is_valid_identifier (fst p) cfg" "snd ` set addrs \<subseteq> set (md_imports m)"
    "distinct (map fst deps)" "\<forall>(_, dep) \<in> set deps. distinct (map sd_name (md_structs dep))"
  shows "name_resolves m deps addrs n"
proof -
  from assms(1) obtain addr dep d s where dep: "(addr, dep) \<in> set deps"
    and d: "Some d = map_of (swap_pairs (iter addrs)) addr"
    and s: "s \<in> set (md_structs dep)" "sd_is_public s" and n: "n = d @ ''::'' @ sd_name s"
    by (auto simp: dep_structs_of_def find_address split: option.splits)
  from map_of_SomeD [OF d [symmetric]] have "(d, addr) \<in> set (iter addrs)" by (auto simp: swap_pairs_def)
  then have da: "(d, addr) \<in> set addrs" using mset_eq_setD [OF assms(2)] by simp
  then have "map_of addrs d = Some addr" using assms(3) by simp
  moreover have "split_once_colons n = Some (d, sd_name s)"
    unfolding n by (rule split_once_colons_append) (use assms(4) da valid_identifier_no_colon in force)
  moreover have "addr \<in> set (md_imports m)" using assms(5) da by force
  moreover have "map_of deps addr = Some dep" using dep assms(6) by simp
  moreover have "get_struct dep (sd_name s) = Some s"
    unfolding get_struct_def by (rule find_distinct) (use assms(7) dep s in auto)
  ultimately show ?thesis using s(2) unfolding name_resolves_def by blast
qed

lemma is_qualified_dep_struct: "s \<in> set (dep_structs_of addrs deps) \<Longrightarrow> is_qualified (sd_name s)"
proof -
  have "is_qualified (d @ ''::'' @ n)" for d n
  proof (induction d)
    case (Cons c d)
    then obtain p where "split_once_colons (d @ ''::'' @ n) = Some p" by (auto simp: is_qualified_def)
    with split_once_colons_Cons_some [of "d @ ''::'' @ n" "fst p" "snd p" c] show ?case by (simp add: is_qualified_def)
  qed (simp add: is_qualified_def)
  moreover assume "s \<in> set (dep_structs_of addrs deps)"
  ultimately show ?thesis by (auto simp: dep_structs_of_def split: option.splits)
qed

section \<open>Structs\<close>

text \<open>The struct of the module for a struct of the source.\<close>

definition target_struct :: "hex_codec \<Rightarrow> dep_addresses \<Rightarrow> ast_struct \<Rightarrow> struct_def" where
  "target_struct hx addrs s =
     \<lparr>sd_name = ast_name s,
      sd_fields = map (\<lambda>(n, ty). \<lparr>fd_name = n, fd_ty = translate_type hx addrs ty\<rparr>) (ast_fields s),
      sd_is_public = ast_is_public s\<rparr>"

lemma translate_structs_target:
  "translate_struct_field_types hx addrs (struct_defs_of items) = map (target_struct hx addrs) (items_structs items)"
  by (auto simp: translate_struct_field_types_def struct_defs_of_def target_struct_def ast_fields_to_field_defs_def)

lemma struct_defs_names: "map sd_name (struct_defs_of items) = map ast_name (items_structs items)"
  by (simp add: struct_defs_of_def)

lemma check_structs_ok:
  "\<forall>s \<in> set ss. is_valid_identifier (sd_name s) cfg \<and> sd_fields s \<noteq> [] \<and> length (sd_fields s) \<le> max_fields cfg \<and>
       (\<forall>f \<in> set (sd_fields s). check_field hx m deps cfg s f = []) \<Longrightarrow>
   distinct (map sd_name ss) \<Longrightarrow> set (map sd_name ss) \<inter> set seen = {} \<Longrightarrow> check_structs hx m deps cfg seen ss = []"
  by (induction ss arbitrary: seen) auto

lemma translate_field_type:
  "is_valid_field_type ty \<Longrightarrow> is_valid_field_type (translate_type hx addrs ty)"
  by (cases ty) (auto simp: is_valid_field_type_def is_struct_type_def split: option.splits)

lemma target_struct_ok:
  assumes "validate_struct_def s cfg = Inr u"
    and refs: "\<forall>(n, ty) \<in> set (ast_fields s). \<forall>t. ty = TStruct t \<longrightarrow> name_resolves m deps addrs t"
    and "prefix_hex_ok hx"
  shows "is_valid_identifier (sd_name (target_struct hx addrs s)) cfg \<and> sd_fields (target_struct hx addrs s) \<noteq> [] \<and>
    length (sd_fields (target_struct hx addrs s)) \<le> max_fields cfg \<and>
    (\<forall>f \<in> set (sd_fields (target_struct hx addrs s)). check_field hx m deps cfg (target_struct hx addrs s) f = [])"
proof (intro conjI ballI)
  from assms(1) have v: "is_valid_identifier (ast_name s) cfg" "ast_fields s \<noteq> []" "length (ast_fields s) \<le> max_fields cfg"
    "\<forall>(n, ty) \<in> set (ast_fields s). is_valid_identifier n cfg \<and> is_valid_field_type ty"
    by (auto simp: validate_struct_def_def validate_identifier_def and_then_Inr_iff for_each_Ok_iff split: if_splits)
  then show "is_valid_identifier (sd_name (target_struct hx addrs s)) cfg" "sd_fields (target_struct hx addrs s) \<noteq> []"
    "length (sd_fields (target_struct hx addrs s)) \<le> max_fields cfg"
    by (simp_all add: target_struct_def)
  fix f
  assume "f \<in> set (sd_fields (target_struct hx addrs s))"
  then obtain n ty where f: "(n, ty) \<in> set (ast_fields s)" "f = \<lparr>fd_name = n, fd_ty = translate_type hx addrs ty\<rparr>"
    by (auto simp: target_struct_def)
  with v(4) have ty: "is_valid_identifier n cfg" "is_valid_field_type ty" by auto
  have "validate_type_ref hx (translate_type hx addrs ty) m deps ctx = []" for ctx
  proof (cases ty)
    case (TStruct t)
    with refs f(1) have "name_resolves m deps addrs t" by auto
    with TStruct translate_struct_shape [of hx addrs t] resolved_name_ok [OF _ assms(3)] show ?thesis by fastforce
  qed (use ty(2) in \<open>auto simp: is_valid_field_type_def is_struct_type_def\<close>)
  with f(2) ty translate_field_type [OF ty(2)] show "check_field hx m deps cfg (target_struct hx addrs s) f = []"
    by (simp add: check_field_def)
qed

section \<open>Cycles\<close>

lemma find_map_of: "find (\<lambda>s. sd_name s = n) ss = map_of (map (\<lambda>s. (sd_name s, s)) ss) n"
  by (induction ss) auto

lemma map_of_struct_graph: "map_of (struct_graph ss) n = map_option struct_refs (find (\<lambda>s. sd_name s = n) ss)"
  by (induction ss) (auto simp: struct_graph_def)

lemma find_append: "find P (xs @ ys) = (case find P xs of Some x \<Rightarrow> Some x | None \<Rightarrow> find P ys)"
  by (induction xs) auto

lemma find_target:
  "find (\<lambda>s. sd_name s = n) (map (target_struct hx addrs) ss) =
     map_option (target_struct hx addrs) (find (\<lambda>s. ast_name s = n) ss)"
  by (induction ss) (auto simp: target_struct_def)

lemma find_source:
  "find (\<lambda>s. sd_name s = n) (struct_defs_of items) =
     map_option (\<lambda>s. \<lparr>sd_name = ast_name s, sd_fields = ast_fields_to_field_defs (ast_fields s),
        sd_is_public = ast_is_public s\<rparr>) (find (\<lambda>s. ast_name s = n) (items_structs items))"
proof -
  have "find (\<lambda>s. sd_name s = n) (map g ss) = map_option g (find (\<lambda>s. ast_name s = n) ss)"
    if "\<And>s. sd_name (g s) = ast_name s" for g :: "ast_struct \<Rightarrow> struct_def" and ss
    using that by (induction ss) auto
  then show ?thesis unfolding struct_defs_of_def by auto
qed

lemma target_edges:
  assumes m: "md_structs m = map (target_struct hx addrs) (items_structs items)" "prefix_hex_ok hx"
    and ids: "\<forall>s \<in> set (items_structs items). \<not> is_qualified (ast_name s)"
  shows "struct_edges hx m \<subseteq> edges (struct_graph (struct_defs_of items @ dep_structs))"
proof
  fix p
  assume "p \<in> struct_edges hx m"
  then obtain a t f where p: "p = (a, t)" and f: "f \<in> set (struct_fields_of m a)"
    "local_struct_ref hx (set (map sd_name (md_structs m))) f = Some t"
    by (auto simp: struct_edges_def)
  from f(1) obtain s where s: "Some s = find (\<lambda>s. ast_name s = a) (items_structs items)"
    and fs: "f \<in> set (sd_fields (target_struct hx addrs s))"
    by (auto simp: struct_fields_of_def get_struct_def m find_target split: option.splits)
  from fs obtain n ty where ty: "(n, ty) \<in> set (ast_fields s)" "fd_ty f = translate_type hx addrs ty"
    by (auto simp: target_struct_def)
  from f(2) have t: "fd_ty f = TStruct t" "parse_module_ref hx t = None" "t \<in> sd_name ` set (md_structs m)"
    by (auto simp: local_struct_ref_def split: vtype.splits if_splits)
  then have q: "\<not> is_qualified t" using ids m by (auto simp: target_struct_def)
  have "ty = TStruct t"
  proof (cases ty)
    case (TStruct u)
    have "parse_module_ref hx (qualify hx addr s) = Some (addr, s)" for addr s
      using m(2) by (auto intro!: prefix_hex.parse_of_qualified prefix_hex.intro)
    with TStruct t(1,2) ty(2) show ?thesis by (auto split: option.splits prod.splits)
  qed (use t ty in auto)
  with ty(1) have "t \<in> set (struct_refs \<lparr>sd_name = ast_name s, sd_fields = ast_fields_to_field_defs (ast_fields s),
        sd_is_public = ast_is_public s\<rparr>)"
    by (force simp: struct_refs_def ast_fields_to_field_defs_def)
  with s [symmetric] p show "p \<in> edges (struct_graph (struct_defs_of items @ dep_structs))"
    by (simp add: edges_def map_of_struct_graph find_append find_source)
qed

lemma cycles_ok:
  assumes "detect_struct_cycles (struct_defs_of items) dep_structs = Inr u"
    and m: "md_structs m = map (target_struct hx addrs) (items_structs items)" "prefix_hex_ok hx"
    and ids: "\<forall>s \<in> set (items_structs items). \<not> is_qualified (ast_name s)"
  shows "check_struct_cycles hx m = []"
proof -
  let ?E = "edges (struct_graph (struct_defs_of items @ dep_structs))"
  from assms(1) have "find_cycle (struct_graph (struct_defs_of items @ dep_structs)) (map sd_name (struct_defs_of items)) {} = None"
    by (simp add: detect_struct_cycles_def split: option.splits)
  then have none: "(a, a) \<notin> ?E\<^sup>+" if "a \<in> ast_name ` set (items_structs items)" for a
    using that unfolding find_cycle_iff struct_defs_names by auto
  have "(a, a) \<notin> (struct_edges hx m)\<^sup>+" for a
  proof
    assume c: "(a, a) \<in> (struct_edges hx m)\<^sup>+"
    then obtain b where "(a, b) \<in> struct_edges hx m" by (meson tranclD)
    then have "a \<in> ast_name ` set (items_structs items)"
      using struct_edges_names [of hx m] m by (auto simp: target_struct_def)
    with none c trancl_mono [OF c target_edges [OF m ids, of dep_structs]] show False by blast
  qed
  then show ?thesis by (simp add: check_struct_cycles_def cycles_loop_complete acyclic_def)
qed

lemma struct_refs_resolve:
  assumes "validate_struct_refs (struct_defs_of items) ds = Inr ()"
    "\<And>n. n \<in> set (map sd_name (struct_defs_of items @ ds)) \<Longrightarrow> name_resolves m deps addrs n" "s \<in> set (items_structs items)"
  shows "\<forall>(n, ty) \<in> set (ast_fields s). \<forall>t. ty = TStruct t \<longrightarrow> name_resolves m deps addrs t"
proof (intro ballI, clarify)
  fix n t
  assume "(n, TStruct t) \<in> set (ast_fields s)"
  with assms(1,3) have "t \<in> set (map sd_name (struct_defs_of items @ ds))"
    unfolding validate_struct_refs_def Let_def and_then_Inr_iff for_each_Ok_iff struct_defs_of_def ast_fields_to_field_defs_def
    by (force simp: fail_if_def for_each_Ok_iff split: if_splits)
  then show "name_resolves m deps addrs t" by (rule assms(2))
qed

section \<open>The module\<close>

text \<open>What the compiler takes for granted of a source and the verifier checks: names declared once, return tuples
  within the limit.\<close>

definition source_ok :: "compiler_config \<Rightarrow> ast_item list \<Rightarrow> bool" where
  "source_ok cfg items \<longleftrightarrow> distinct (map ast_name (items_structs items)) \<and> distinct (map af_name (items_fns items)) \<and>
     (\<forall>f \<in> set (items_fns items). distinct (map fst (af_params f)) \<and> list_all plain_stmt (af_body f) \<and>
        (case af_return_type f of Some (TTuple ts) \<Rightarrow> length ts \<le> unat (max_tuple_elements cfg) | _ \<Rightarrow> True))"

lemma compile_functions_all2:
  "compile_functions c fs = Inr funcs \<Longrightarrow> list_all2 (\<lambda>f g. c f = Inr g) fs funcs"
  by (induction c fs arbitrary: funcs rule: compile_functions.induct) (auto simp: and_then_Inr_iff)

lemma check_functions_ok:
  "\<forall>f \<in> set fs. check_code hx m deps cfg f = [] \<and> check_signature hx m deps cfg [] f = [] \<Longrightarrow>
   distinct (map fn_name fs) \<Longrightarrow> set (map fn_name fs) \<inter> set seen = {} \<Longrightarrow> check_functions hx m deps cfg seen fs = []"
  by (induction fs arbitrary: seen) (auto simp: check_signature_def)

lemma translated_type_ok:
  assumes "cg_translate_type hx (codegen_new structs addrs dm rts cfg) ty = Inr ty'"
    "check_type_ref_known known ctx ty = Inr ()" "\<And>n. n \<in> known \<Longrightarrow> name_resolves m deps addrs n" "prefix_hex_ok hx"
  shows "validate_type_ref hx ty' m deps ctx' = []"
  using known_type_ok [OF assms(3,4,2), of ctx'] translate_agree(1) [OF assms(1)]
  by (simp add: codegen_new_def)

lemma tuple_size_ok:
  assumes "cg_translate_type hx cg rt = Inr (TTuple ts')"
    "case Some rt of Some (TTuple ts) \<Rightarrow> length ts \<le> unat (max_tuple_elements cfg) | _ \<Rightarrow> True"
  shows "check_tuple_size cfg f (length ts') = []"
  using translate_agree(1) [OF assms(1)] assms(2)
  by (cases rt) (auto simp: check_tuple_size_def split: option.splits)

lemma function_refs_known:
  assumes "validate_function_type_refs fns ls ds = Inr ()" "af \<in> set fns"
  shows "p \<in> set (af_params af) \<Longrightarrow> \<exists>ctx. check_type_ref_known (set (map sd_name (ls @ ds))) ctx (snd p) = Inr ()"
    "af_return_type af = Some ty \<Longrightarrow> \<exists>ctx. check_type_ref_known (set (map sd_name (ls @ ds))) ctx ty = Inr ()"
proof -
  let ?k = "set (map sd_name (ls @ ds))"
  from assms have ps: "for_each (\<lambda>(param_name, ty). check_type_ref_known ?k
            (''function '' @ quoted (af_name af) @ '' parameter '' @ quoted param_name) ty) (af_params af) = Inr ()"
    and rt: "(case af_return_type af of
             Some ty \<Rightarrow> check_type_ref_known ?k (''function '' @ quoted (af_name af) @ '' return type'') ty
           | None \<Rightarrow> Ok ()) = Inr ()"
    by (simp_all only: validate_function_type_refs_def Let_def for_each_Ok_iff and_then_Inr_iff) blast+
  show "\<exists>ctx. check_type_ref_known ?k ctx (snd p) = Inr ()" if "p \<in> set (af_params af)"
  proof -
    from bspec [OF iffD1 [OF for_each_Ok_iff ps] that] show ?thesis unfolding case_prod_beta' by blast
  qed
  show "\<exists>ctx. check_type_ref_known ?k ctx ty = Inr ()" if "af_return_type af = Some ty"
    using rt that unfolding that option.case by blast
qed

lemma compiled_signature_ok:
  assumes comp: "compile_function hx structs addrs dm rts af cfg = Inr f"
    and env: "codegen_env hx m deps (codegen_new structs addrs dm rts cfg)" "prefix_hex_ok hx"
    and src: "source_ok cfg items" "af \<in> set (items_fns items)" "max_fun_code_size cfg < 2 ^ 31"
    and refs: "validate_function_type_refs (items_fns items) ls ds = Inr ()"
    and known: "\<And>n. n \<in> set (map sd_name (ls @ ds)) \<Longrightarrow> name_resolves m deps addrs n"
  shows "check_code hx m deps cfg f = [] \<and> check_signature hx m deps cfg [] f = [] \<and> fn_name f = af_name af"
proof -
  from src have "list_all plain_stmt (af_body af)" "distinct (map fst (af_params af))" by (auto simp: source_ok_def)
  note ok = compile_function_ok [OF comp env(1) this src(3)]
  let ?cg = "codegen_new structs addrs dm rts cfg"
  note ps = function_refs_known(1) [OF refs src(2)] and rt = function_refs_known(2) [OF refs src(2)]
  have "validate_type_ref hx (snd q) m deps ctx = []" if "q \<in> set (fn_params f)" for q ctx
  proof -
    from that obtain i where i: "i < length (fn_params f)" "q = fn_params f ! i" by (auto simp: in_set_conv_nth)
    with ok(9) have p: "af_params af ! i \<in> set (af_params af)" "cg_translate_type hx ?cg (snd (af_params af ! i)) = Inr (snd q)"
      by (simp_all add: list_all2_conv_all_nth)
    from ps [OF p(1)] obtain c where "check_type_ref_known (set (map sd_name (ls @ ds))) c (snd (af_params af ! i)) = Inr ()" ..
    from translated_type_ok [OF p(2) this known env(2)] show ?thesis .
  qed
  moreover have "validate_type_ref hx ty m deps ctx = [] \<and> (\<forall>ts. ty = TTuple ts \<longrightarrow> check_tuple_size cfg f (length ts) = [])"
    if r: "fn_return_type f = Some ty" for ty ctx
  proof -
    from ok(10) r obtain sty where s: "af_return_type af = Some sty" "cg_translate_type hx ?cg sty = Inr ty"
      by (auto simp: option_rel_Some2)
    from rt [OF s(1)] obtain c where "check_type_ref_known (set (map sd_name (ls @ ds))) c sty = Inr ()" ..
    from translated_type_ok [OF s(2) this known env(2)] have "validate_type_ref hx ty m deps ctx = []" .
    moreover have "case Some sty of Some (TTuple ts) \<Rightarrow> length ts \<le> unat (max_tuple_elements cfg) | _ \<Rightarrow> True"
      using src(1,2) unfolding source_ok_def s(1) [symmetric] by blast
    ultimately show ?thesis using s(2) tuple_size_ok [of hx ?cg sty] by simp
  qed
  ultimately have types: "\<forall>q \<in> set (fn_params f). \<forall>ctx. validate_type_ref hx (snd q) m deps ctx = []"
    "\<forall>ty ctx. fn_return_type f = Some ty \<longrightarrow> validate_type_ref hx ty m deps ctx = []"
    "\<forall>ts. fn_return_type f = Some (TTuple ts) \<longrightarrow> check_tuple_size cfg f (length ts) = []" by blast+
  have r: "(case fn_return_type f of Some ret_ty \<Rightarrow> validate_type_ref hx ret_ty m deps ctx | None \<Rightarrow> []) = []" for ctx
    using types(2) by (simp split: option.split)
  have t: "(case fn_return_type f of Some (TTuple types) \<Rightarrow> check_tuple_size cfg f (length types) | _ \<Rightarrow> []) = []"
    using types(3) by (simp split: option.split vtype.split)
  have p: "concat (map (\<lambda>(n, ty). validate_type_ref hx ty m deps (ctx n)) (fn_params f)) = []" for ctx
    using types(1) by auto
  have "check_signature hx m deps cfg [] f = []"
    unfolding check_signature_def append_is_Nil_conv err_if_Nil
    by (intro conjI r t p) (use ok(3-8) in \<open>auto simp del: unat_of_nat\<close>)
  with ok(1,2) show ?thesis by blast
qed

lemma dep_map_distinct: "distinct (map fst deps) \<Longrightarrow> map_of (dep_map deps) = map_of deps"
  unfolding dep_map_def by (rule map_of_mset_eq) simp_all

lemma codegen_env_new:
  assumes "prefix_hex_ok hx" "distinct (map fst deps)"
  shows "codegen_env hx m deps (codegen_new (md_structs m @ dep_structs_of addrs deps) dep_addrs (dep_map deps) rts cfg)"
proof -
  from assms(1) is_qualified_dep_struct dep_map_distinct [OF assms(2)] show ?thesis
    unfolding codegen_env_def codegen_new_def by auto
qed

lemma validated_struct_name: "validate_struct_def s cfg = Inr u \<Longrightarrow> is_valid_identifier (ast_name s) cfg"
  by (auto simp: validate_struct_def_def validate_identifier_def and_then_Inr_iff split: if_splits)

text \<open>The whole module, once the dependencies are settled.\<close>

lemma compile_items_ok:
  assumes comp: "compile_items hx iter miter deps sigs cfg items name addrs imps = Inr m"
    and hx: "prefix_hex_ok hx" and src: "source_ok cfg items" "max_fun_code_size cfg < 2 ^ 31"
    and deps: "distinct (map fst deps)" "\<forall>(_, dep) \<in> set deps. distinct (map sd_name (md_structs dep))"
    and addrs: "mset (iter addrs) = mset addrs" "distinct (map fst addrs)" "\<forall>p \<in> set addrs. is_valid_identifier (fst p) cfg"
      "snd ` set addrs \<subseteq> set imps"
  shows "check_structs hx m deps cfg [] (md_structs m) = []" "check_struct_cycles hx m = []"
    "check_functions hx m deps cfg [] (md_functions m) = []" "md_name m = name" "md_imports m = imps"
    "length (md_structs m) = length (items_structs items)" "length (md_functions m) = length (items_fns items)"
proof -
  let ?ss = "map (target_struct hx addrs) (items_structs items)"
  let ?ds = "dep_structs_of (iter addrs) deps"
  from comp obtain funcs where
    vs: "\<forall>s \<in> set (items_structs items). validate_struct_def s cfg = Inr ()"
    and vr: "validate_struct_refs (struct_defs_of items) ?ds = Inr ()"
    and vf: "validate_function_type_refs (items_fns items) (struct_defs_of items) ?ds = Inr ()"
    and cf: "compile_functions (\<lambda>f. compile_function hx (?ss @ ?ds) addrs (dep_map deps)
       (fn_return_types_of items) f cfg) (items_fns items) = Inr funcs"
    and m: "m = \<lparr>md_name = name, md_imports = imps, md_structs = ?ss, md_functions = funcs\<rparr>"
    by (auto simp: compile_items_def and_then_Inr_iff Let_def for_each_Ok_iff translate_structs_target)
  show "md_name m = name" "md_imports m = imps" "length (md_structs m) = length (items_structs items)"
    "length (md_functions m) = length (items_fns items)"
    using m list_all2_lengthD [OF compile_functions_all2 [OF cf]] by simp_all
  have ids: "\<forall>s \<in> set (items_structs items). \<not> is_qualified (ast_name s)"
    using vs validated_struct_name valid_identifier_not_qualified by blast
  have known: "name_resolves m deps addrs n" if "n \<in> set (map sd_name (struct_defs_of items @ ?ds))" for n
  proof (cases "n \<in> ast_name ` set (items_structs items)")
    case True
    then have "get_struct m n \<noteq> None"
      by (auto simp: get_struct_def m find_None_iff target_struct_def)
    with True ids show ?thesis by (auto simp: name_resolves_def)
  next
    case False
    then have "n \<in> sd_name ` set ?ds" using that by (auto simp: struct_defs_of_def)
    then show ?thesis using addrs deps m by (intro dep_struct_resolves [where iter = iter and cfg = cfg]) auto
  qed
  have dn: "distinct (map sd_name ?ss)" using src(1) by (simp add: source_ok_def target_struct_def comp_def)
  show "check_structs hx m deps cfg [] (md_structs m) = []"
  proof (rule check_structs_ok)
    show "\<forall>s \<in> set (md_structs m). is_valid_identifier (sd_name s) cfg \<and> sd_fields s \<noteq> [] \<and>
        length (sd_fields s) \<le> max_fields cfg \<and> (\<forall>f \<in> set (sd_fields s). check_field hx m deps cfg s f = [])"
    proof
      fix s
      assume "s \<in> set (md_structs m)"
      then obtain a where a: "a \<in> set (items_structs items)" "s = target_struct hx addrs a" by (auto simp: m)
      from vs a(1) have "validate_struct_def a cfg = Inr ()" by blast
      from target_struct_ok [OF this struct_refs_resolve [OF vr known a(1)] hx] a(2)
      show "is_valid_identifier (sd_name s) cfg \<and> sd_fields s \<noteq> [] \<and> length (sd_fields s) \<le> max_fields cfg \<and>
        (\<forall>f \<in> set (sd_fields s). check_field hx m deps cfg s f = [])" by simp
    qed
  qed (use dn m in auto)
  from vr show "check_struct_cycles hx m = []"
    by (intro cycles_ok [OF _ _ hx ids, where dep_structs = ?ds and addrs = addrs])
      (auto simp: validate_struct_refs_def and_then_Inr_iff Let_def m)
  have env: "codegen_env hx m deps (codegen_new (?ss @ ?ds) addrs (dep_map deps) (fn_return_types_of items) cfg)"
    using codegen_env_new [OF hx deps(1), of m "iter addrs"] by (simp add: m)
  have f: "list_all2 (\<lambda>af f. check_code hx m deps cfg f = [] \<and> check_signature hx m deps cfg [] f = [] \<and> fn_name f = af_name af)
      (items_fns items) funcs"
    by (rule list.rel_mono_strong [OF compile_functions_all2 [OF cf]])
      (rule compiled_signature_ok [OF _ env hx src(1) _ src(2) vf known])
  then have n: "map fn_name funcs = map af_name (items_fns items)" by (auto simp: list_all2_conv_all_nth intro: nth_equalityI)
  have "\<forall>f \<in> set funcs. check_code hx m deps cfg f = [] \<and> check_signature hx m deps cfg [] f = []"
    using f unfolding list_all2_conv_all_nth all_set_conv_all_nth by simp
  then have "check_functions hx m deps cfg [] funcs = []"
    by (rule check_functions_ok) (use src(1) n in \<open>simp_all add: source_ok_def\<close>)
  moreover have "md_functions m = funcs" by (simp add: m)
  ultimately show "check_functions hx m deps cfg [] (md_functions m) = []" by simp
qed

lemma compile_items_header:
  "compile_items hx iter miter deps sigs cfg items name addrs imps = Inr m \<Longrightarrow> md_name m = name \<and> md_imports m = imps"
  by (auto simp: compile_items_def and_then_Inr_iff Let_def)

lemma compile_parts:
  assumes "compile hx parse iter miter source deps sigs cfg = Inr m"
  shows "\<exists>items name uses addrs imps. parse_and_extract parse source = Inr (items, name, uses) \<and> is_valid_identifier name cfg \<and>
    length (items_structs items) \<le> max_structs cfg \<and> length (items_fns items) \<le> max_functions cfg \<and>
    length uses \<le> max_imports cfg \<and> check_dep_addresses hx {} deps = Inr () \<and>
    resolve_uses hx cfg deps uses = Inr (addrs, imps) \<and>
    check_import_closure hx (dep_map deps) imps {} = Inr () \<and> detect_module_dep_cycles hx deps = Inr () \<and>
    compile_items hx iter miter deps sigs cfg items name addrs imps = Inr m"
proof -
  from assms obtain items name uses addrs imps where c: "parse_and_extract parse source = Inr (items, name, uses)"
    "validate_identifier name ''module name'' cfg = Inr ()" "check_limits cfg items uses deps = Inr ()"
    "check_dep_addresses hx {} deps = Inr ()" "resolve_uses hx cfg deps uses = Inr (addrs, imps)"
    "check_import_closure hx (dep_map deps) imps {} = Inr ()" "detect_module_dep_cycles hx deps = Inr ()"
    "compile_items hx iter miter deps sigs cfg items name addrs imps = Inr m"
    unfolding compile_def by (auto simp: and_then_Inr_iff)
  from c(2) have "is_valid_identifier name cfg" by (simp add: validate_identifier_def split: if_splits)
  moreover from c(3) have "length (items_structs items) \<le> max_structs cfg" "length (items_fns items) \<le> max_functions cfg"
    "length uses \<le> max_imports cfg"
    by (simp_all add: check_limits_def and_then_Inr_iff fail_if_def split: if_splits)
  ultimately show ?thesis using c by blast
qed

text \<open>C5. Every module the compiler produces passes the structural phase of the bytecode verifier: valid and
  unique names, resolved types, acyclic structs, limits, slots, jump targets and calls.  The source is assumed to
  declare each name once and to keep its return tuples within the limit, which only the verifier checks.\<close>

theorem compiled_module_structure:
  assumes comp: "compile hx parse iter miter source deps sigs cfg = Inr m"
    and hx: "prefix_hex_ok hx" and iter: "\<And>xs. mset (iter xs) = mset xs"
    and size: "max_fun_code_size cfg < 2 ^ 31"
    and deps: "\<forall>(_, dep) \<in> set deps. distinct (map sd_name (md_structs dep))"
    and src: "\<And>items name uses. parse_and_extract parse source = Inr (items, name, uses) \<Longrightarrow> source_ok cfg items"
  shows "check_module hx m deps cfg = []"
proof -
  from compile_parts [OF comp] obtain items name uses addrs imps where c:
    "parse_and_extract parse source = Inr (items, name, uses)" "is_valid_identifier name cfg"
    "length (items_structs items) \<le> max_structs cfg" "length (items_fns items) \<le> max_functions cfg"
    "length uses \<le> max_imports cfg" "check_dep_addresses hx {} deps = Inr ()"
    "resolve_uses hx cfg deps uses = Inr (addrs, imps)"
    "compile_items hx iter miter deps sigs cfg items name addrs imps = Inr m" by blast
  from resolve_uses_addresses [OF c(7)] have a: "map fst addrs = map (\<lambda>(n, a, _). local_name n a) uses"
    "snd ` set addrs \<subseteq> set imps" "length imps = length uses" by (force simp: comp_def case_prod_beta')+
  then have "distinct (map fst addrs)" using parse_and_extract_distinct [OF c(1)] by simp
  note ok = compile_items_ok [OF c(8) hx src [OF c(1)] size conjunct1 [OF check_dep_addresses_distinct [OF c(6)]]
      deps iter this resolve_uses_identifiers [OF c(7)] a(2)]
  show ?thesis unfolding check_module_def using ok c a(3) by simp
qed

theorem compiled_module_structure_witness:
  "\<exists>m. sample_compile single_import id = Inr m \<and> check_module std_hex_codec m [(lib_addr, lib_module)] compiler_config_default = []"
proof -
  have "\<not> isl (sample_compile single_import id)" by code_simp
  then obtain m where m: "sample_compile single_import id = Inr m" by (cases "sample_compile single_import id") auto
  moreover have "check_module std_hex_codec m [(lib_addr, lib_module)] compiler_config_default = []"
    by (rule compiled_module_structure [OF m [unfolded sample_compile_def]])
      (auto simp: std_hex.codec lib_module_def parse_and_extract_def single_import_def is_module_decl_def source_ok_def pass_fn_def
        items_structs_def items_fns_def compiler_config_default_def)
  ultimately show ?thesis by blast
qed

text \<open>The provided modules under the addresses the \<open>use\<close> declarations name.\<close>

lemma resolve_uses_provided:
  assumes "resolve_uses hx cfg deps uses = Inr (addrs, imps)" "distinct (map fst deps)"
  shows "\<forall>(n, _, a) \<in> set uses. \<exists>dep. map_of deps a = Some dep \<and> md_name dep = n"
  using assms
proof (induction hx cfg deps uses arbitrary: addrs imps rule: resolve_uses.induct)
  case (2 hx cfg deps n al a uses)
  then obtain p where p: "find (\<lambda>(addr, m). addr = a \<and> md_name m = n) deps = Some p"
    by (auto split: if_splits)
  with 2(3) have "map_of deps a = Some (snd p) \<and> md_name (snd p) = n" by (auto dest!: find_SomeD)
  moreover have "\<forall>(n, _, a) \<in> set uses. \<exists>dep. map_of deps a = Some dep \<and> md_name dep = n"
    using 2 p by (auto simp: and_then_Inr_iff)
  ultimately show ?case by auto
qed simp

lemma all_imports_acyclic:
  assumes "acyclic (import_edges deps)" "distinct (map fst deps)"
  shows "acyclic (all_imports deps)"
proof -
  have "(a, b) \<in> (import_edges deps)\<^sup>+" if "(a, b) \<in> (all_imports deps)\<^sup>+" "map_of deps b \<noteq> None" for a b
    using that
  proof (induction rule: trancl_induct)
    case (base b)
    then have "(a, b) \<in> import_edges deps"
      by (simp add: import_edges_def all_imports_def dep_map_distinct [OF assms(2)])
    then show ?case ..
  next
    case (step b c)
    then have "(b, c) \<in> import_edges deps" "map_of deps b \<noteq> None"
      by (auto simp: import_edges_def all_imports_def dep_map_distinct [OF assms(2)])
    with step show ?case by (metis trancl.trancl_into_trancl)
  qed
  moreover have "map_of deps a \<noteq> None" if "(a, a) \<in> (all_imports deps)\<^sup>+" for a
    using tranclD [OF that] by (auto simp: all_imports_def)
  ultimately show ?thesis using assms(1) unfolding acyclic_def by blast
qed

text \<open>C33. A compiled module imports the addresses of its \<open>use\<close> declarations, each provided under the declared
  name and bound to a local name of its own; the provided dependencies have no import cycle, and every address
  that imports lead to was provided.\<close>

theorem compile_dependencies:
  assumes "compile hx parse iter miter source deps sigs cfg = Inr m"
  shows "\<exists>items uses. parse_and_extract parse source = Inr (items, md_name m, uses) \<and>
    md_imports m = map (snd \<circ> snd) uses \<and>
    (\<forall>(n, _, a) \<in> set uses. \<exists>dep. map_of deps a = Some dep \<and> md_name dep = n) \<and>
    distinct (map (\<lambda>(n, alias, _). local_name n alias) uses) \<and>
    acyclic (all_imports deps) \<and>
    (\<forall>s \<in> set (md_imports m). \<forall>a. (s, a) \<in> (all_imports deps)\<^sup>* \<longrightarrow> map_of deps a \<noteq> None)"
proof -
  from compile_parts [OF assms] obtain items name uses addrs imps where c:
    "parse_and_extract parse source = Inr (items, name, uses)" "check_dep_addresses hx {} deps = Inr ()"
    "resolve_uses hx cfg deps uses = Inr (addrs, imps)" "check_import_closure hx (dep_map deps) imps {} = Inr ()"
    "detect_module_dep_cycles hx deps = Inr ()" "compile_items hx iter miter deps sigs cfg items name addrs imps = Inr m" by blast
  from check_dep_addresses_distinct [OF c(2)] have d: "distinct (map fst deps)" ..
  have dm: "all_imports (dep_map deps) = all_imports deps"
    by (simp add: all_imports_def dep_map_distinct [OF d])
  from compile_items_header [OF c(6)] have m: "md_name m = name" "md_imports m = imps" by auto
  from c(4) have "\<forall>s \<in> set (md_imports m). \<forall>a. (s, a) \<in> (all_imports deps)\<^sup>* \<longrightarrow> map_of deps a \<noteq> None"
    unfolding check_import_closure_iff dm dep_map_distinct [OF d] m(2) .
  moreover have "acyclic (all_imports deps)"
    using c(5) all_imports_acyclic [OF _ d] unfolding detect_module_dep_cycles_iff by blast
  moreover have "imps = map (snd \<circ> snd) uses" using resolve_uses_addresses [OF c(3)] ..
  ultimately show ?thesis
    using c(1) m resolve_uses_provided [OF c(3) d] parse_and_extract_distinct [OF c(1)] by blast
qed

theorem compile_dependencies_witness:
  "\<exists>m. sample_compile single_import id = Inr m \<and>
    (\<exists>items uses. parse_and_extract (\<lambda>_. Ok single_import) [] = Inr (items, md_name m, uses) \<and>
       md_imports m = map (snd \<circ> snd) uses)"
proof -
  have "\<not> isl (sample_compile single_import id)" by code_simp
  then obtain m where m: "sample_compile single_import id = Inr m" by (cases "sample_compile single_import id") auto
  with compile_dependencies [OF m [unfolded sample_compile_def]] show ?thesis by blast
qed

end
