(* ===== verification/Compiler_Gaps.thy ===== *)
theory Compiler_Gaps
  imports Compiler_Structure Verifier_AbsInt
begin

text \<open>
  Sources at the edge of what the compiler handles: a trailing branch that returns, whose code the bytecode verifier
  refuses, and a module imported under two names, of which only one can be used in a signature.
\<close>

section \<open>A trailing branch that returns\<close>















section \<open>A module imported under two names\<close>

text \<open>C36. Of two names for one address only the one the iteration over \<open>dep_addresses\<close> meets first can be used in
  the signature of a function: with a parameter or return type that names a struct through the other, the source is
  refused.\<close>

theorem second_name_refused:
  assumes parsed: "parse_and_extract parse source = Inr (items, name, uses)" "af \<in> set (items_fns items)"
    and addrs: "addrs = map (\<lambda>(n, alias, a). (local_name n alias, a)) uses" "mset (iter addrs) = mset addrs"
    and names: "(second, addr) \<in> set addrs" "find (\<lambda>(_, a). a = addr) (iter addrs) = Some (first, addr)" "first \<noteq> second"
    and used: "TStruct (second @ ''::'' @ s) \<in> snd ` set (af_params af) \<union> set_option (af_return_type af)"
  shows "isl (compile hx parse iter miter source deps sigs cfg)"
proof (rule ccontr)
  assume "\<not> ?thesis"
  then obtain m where "compile hx parse iter miter source deps sigs cfg = Inr m" by (cases "compile hx parse iter miter source deps sigs cfg") auto
  from compile_parts [OF this] parsed(1) obtain addrs' imps where res: "resolve_uses hx cfg deps uses = Inr (addrs', imps)"
    and c: "compile_items hx iter miter deps sigs cfg items name addrs' imps = Inr m" by auto
  from resolve_uses_addresses [OF res] addrs(1) have a': "addrs' = addrs" by simp
  let ?ds = "dep_structs_of (iter addrs) deps"
  from c have vs: "\<forall>x \<in> set (items_structs items). validate_struct_def x cfg = Inr ()"
    and vf: "validate_function_type_refs (items_fns items) (struct_defs_of items) ?ds = Inr ()"
    by (auto simp: compile_items_def and_then_Inr_iff Let_def for_each_Ok_iff a')
  obtain ctx where "check_type_ref_known (set (map sd_name (struct_defs_of items @ ?ds))) ctx (TStruct (second @ ''::'' @ s)) = Inr ()"
    using used function_refs_known [OF vf parsed(2)] by fastforce
  then have known: "second @ ''::'' @ s \<in> set (map sd_name (struct_defs_of items @ ?ds))" by (simp split: if_splits)
  have ids: "CHR '':'' \<notin> set n" if "(n, a) \<in> set addrs" for n a
    using resolve_uses_identifiers [OF res] that valid_identifier_no_colon [of n cfg] unfolding a' by force
  have "split_once_colons (second @ ''::'' @ s) = Some (second, s)" by (rule split_once_colons_append [OF ids [OF names(1)]])
  then have "second @ ''::'' @ s \<notin> ast_name ` set (items_structs items)"
    using vs validated_struct_name valid_identifier_not_qualified by (fastforce simp: is_qualified_def)
  with known have "second @ ''::'' @ s \<in> sd_name ` set ?ds" by (auto simp: struct_defs_of_def)
  then obtain a d t where d: "Some d = map_of (swap_pairs (iter addrs)) a" "second @ ''::'' @ s = d @ ''::'' @ t"
    by (auto simp: dep_structs_of_def find_address split: option.splits)
  from map_of_SomeD [OF d(1) [symmetric]] have da: "(d, a) \<in> set addrs"
    using mset_eq_setD [OF addrs(2)] by (auto simp: swap_pairs_def)
  have "d = second"
    using split_once_colons_append [OF ids [OF names(1)], of s] split_once_colons_append [OF ids [OF da], of t]
    unfolding d(2) by simp
  then have "(second, a) \<in> set addrs" using da by simp
  moreover have "distinct (map fst addrs)"
    using parse_and_extract_distinct [OF parsed(1)] unfolding addrs(1) by (simp add: comp_def case_prod_beta')
  ultimately have "a = addr" using names(1) map_of_is_SomeI [of addrs second] by fastforce
  then show False using d(1) names(2,3) \<open>d = second\<close> by (auto simp: find_address)
qed

theorem second_name_refused_witness:
  "isl (sample_compile double_import rev) \<and> \<not> isl (sample_compile double_import id)"
proof
  have p: "parse_and_extract (\<lambda>_. Ok double_import) [] =
      Inr (double_import, ''client'', [(''lib'', None, lib_addr), (''lib'', Some ''l'', lib_addr)])" by code_simp
  show "isl (sample_compile double_import rev)"
    unfolding sample_compile_def
    by (rule second_name_refused [OF p _ refl, of pass_fn rev "''lib''" lib_addr "''l''" "''T''"])
      (simp_all add: items_fns_def local_name_def pass_fn_def double_import_def)
  show "\<not> isl (sample_compile double_import id)" using double_import_unstable ..
qed

end
