(* ===== verification/Spec2Isabelle.thy ===== *)
theory Spec2Isabelle
  imports Type_Soundness Vm_Safety Verifier_Gaps Mempool Adapter_Verifier Inputs_Resolver
    Executor_Safety Executor_Gaps Consensus Compiler_Gaps Compiler_Structure
begin

text \<open>
  Verification of Meow: a blockchain with a linear, resource-oriented contract language.  Sources are
  named relative to \<open>src/crates\<close>.

  \<^bold>\<open>The program.\<close>  A contract is compiled to a bytecode module and published in a transaction.
  The executor (\<open>meow-vm-adapter\<close>) resolves the objects a transaction names, runs two bytecode verifiers
  on a published module, or the virtual machine (\<open>meow-vm\<close>) on a called function, and turns the natives'
  effects into an execution result.  A node (\<open>meow-nakamoto\<close>) collects transactions in a pool, grinds
  blocks over batches of them, re-executes the blocks of peers, and keeps recent blocks with the object
  store after each.

  \<^bold>\<open>Theories and what they model.\<close>

  \<^item> \<open>Prelude\<close>, \<open>Module_Ref\<close>: integers and results of the standard library; addresses and the names
    \<open>@0xHEX::name\<close> (\<open>meow-vm-types\<close>, \<open>address/mod.rs\<close> and \<open>module_ref.rs\<close>).
  \<^item> \<open>Vm_Types\<close>, \<open>Gas\<close>, \<open>Vm\<close>: types, values, instructions, modules, natives and configuration
    (\<open>meow-vm-types\<close>); gas meter and schedule, frames, instructions and calls (\<open>meow-vm\<close>).
  \<^item> \<open>Verifier_Structural\<close>, \<open>Verifier_AbsInt\<close>: the two phases of \<open>meow-vm-bytecode-verifier\<close>.
    \<open>Error_Messages\<close>: the displayed form of the machine's and the verifier's errors.
  \<^item> \<open>Chain_Types\<close>, \<open>Bcs_Codec\<close>, \<open>Store\<close>, \<open>Object_Model\<close>, \<open>Tx_Validator\<close>: digests, transactions,
    objects, blocks and coins (\<open>meow-types\<close>, \<open>meow-nakamoto-types\<close>), the conversion between machine
    values and Rust types, the object store and the Merkle-style roots.
  \<^item> \<open>Adapter_Context\<close>, \<open>Adapter_Verifier\<close>, \<open>Inputs_Resolver\<close>, \<open>Executor\<close>: natives, the chain's own
    verifier, the collection of a transaction's inputs, and its execution (\<open>meow-vm-adapter\<close>).
  \<^item> \<open>Mempool\<close>, \<open>System_Transactions\<close>, \<open>Proof_Of_Work\<close>, \<open>Chain_State\<close>, \<open>Miner\<close>: the consensus
    library (\<open>meow-nakamoto\<close>).
  \<^item> \<open>Compiler_Ast\<close>, \<open>Compiler_Validator\<close>, \<open>Compiler_Types\<close>, \<open>Compiler_Codegen\<close>, \<open>Compiler\<close>: syntax trees and
    declarations (\<open>meow-vm-compiler\<close>, \<open>ast.rs\<close> and \<open>parse_and_extract\<close>), the checks of \<open>validator.rs\<close> with the
    depth-first search of \<open>Cycle_Search\<close>, the type checker, the code generator, and \<open>Compiler::compile\<close>.
  \<^item> \<open>Sample_Programs\<close>, \<open>Sample_Chain\<close>, \<open>Sample_Execution\<close>: concrete modules, accounts and
    transactions on which the hypotheses of the properties hold.

  \<^bold>\<open>Conventions.\<close>  A \<open>Result\<close> is a sum with the error on the left, and a panic is a value of its own,
  never confused with an error the code returns (\<open>CompilerPanic\<close> in the compiler).  Machine integers are words; sums the sources do not
  check wrap, as in a build without overflow checks.  Hash maps are association lists or mappings, and
  where the order of iteration could be observed the definition says which order it takes.  Third-party
  code (hex and BCS codecs, hashing, signatures, random numbers) is a parameter: the record \<open>hex_codec\<close>
  and the record \<open>chain_ext\<close>.  The compiler takes the parser of the grammar and the orders in which it iterates
  its two hash maps (local names of dependencies, modules of dependencies) as arguments; its source text is a list of
  Unicode scalar values, as \<open>chars\<close> gives them.  What the sources rely on is stated as the locales \<open>prefix_hex\<close>, \<open>bcs\<close> and
  \<open>signing\<close>, each interpreted on a concrete instance.  The clock is an argument.

  \<^bold>\<open>Fuel.\<close>  The interpreter may run as long as its gas lasts, so \<open>call_inner\<close> and everything that runs it
  take a bound on iterations and calls along one path; \<open>None\<close> means not finished within it.  Gas bounds the
  fuel that is needed: \<open>vm_call_terminates\<close> and \<open>execute_terminates\<close> show that some fuel suffices with the
  default schedule, which charges for every jump and every call, under every limit but the largest \<open>u64\<close>, at which
  the meter never runs out.

  \<^bold>\<open>What is shown.\<close>

  \<^item> \<open>Conformance\<close>, \<open>Step_Soundness\<close>, \<open>Soundness\<close>, \<open>Type_Soundness\<close>: a module the verifier accepts never
    stops with one of the errors it is meant to exclude, when its field accesses resolve and no struct repeats a
    field name, which the verifier leaves unchecked.  \<open>Vm_Props\<close>, \<open>Vm_Safety\<close>: no panics, gas within
    the limit, termination, exact field writes.  \<open>Verifier_Gaps\<close>: the instructions for which these two
    conditions matter, in general and in programs the verifier accepts.
  \<^item> \<open>Object_Laws\<close>, \<open>Store\<close>, \<open>Tx_Validator\<close>, \<open>Mempool\<close>, \<open>Inputs_Resolver\<close>: round trips of objects, exact
    gas deduction, the store as a map, exact validation, the pool invariant and its order.
  \<^item> \<open>Executor_Laws\<close>, \<open>Executor_Safety\<close>: gas is charged, execution returns, only own objects change, no
    replay.  \<open>Executor_Gaps\<close>: the resolution of an object argument does not depend on the type of the parameter,
    with a program that mints coins.
  \<^item> \<open>Chain_Laws\<close>, \<open>Miner_Laws\<close>, \<open>Consensus\<close>: the invariant of a node over all its operations
    (\<open>node_step\<close>, \<open>node_reachable\<close>), fork choice and pruning, agreement between miner and verifier of a block,
    snapshots, and the lookup of transactions on every node whose blocks came after their parents (\<open>linked_run\<close>).  \<open>Proof_Of_Work\<close>: difficulty as
    a bound on the hash.
  \<^item> \<open>Compiler_Wf\<close>, \<open>Compiler_Structure\<close>: generated code has its jumps inside and every instruction well formed, so
    that a compiled module passes the first phase of the verifier, and its imports are provided, acyclic and closed.
    \<open>Compiler\<close>: the orders of iteration have no influence unless an address is imported twice.  \<open>Compiler_Gaps\<close>: then
    only one of the names can be used in signatures; and a trailing branch that returns compiles to a jump behind the
    code.  \<open>Compiler_Ast\<close>: exactly the comments are blanked.

  \<^bold>\<open>Not modelled.\<close>  The limits of BCS, \<open>2 ^ 31 - 1\<close> bytes of a string and 500 nested
  containers, beyond which the encoding of a value fails; the grammar of the language (\<open>parser.rs\<close> after the removal of comments), which is a composition of
  the combinators of a third-party crate, and the module builder and runner around the compiler; key
  pairs and keystores, which wrap a signature library and files; the framework and genesis, which compile
  and publish the system modules; the network services of \<open>meow-node\<close> and \<open>meow-gossip-network\<close>, the node
  client and the command line, which are input and output around the operations modelled here; tests.
\<close>

end
